(* ===== verification/Tetris_Prelude.thy ===== *)
theory Tetris_Prelude
  imports Main "HOL-Library.Monad_Syntax" "HOL-Library.Multiset"
begin

text \<open>
  Shared foundations of the Tetris Stack development: the fragment of C semantics
  that \<^verbatim>\<open>src/tetris.c\<close> relies on, and the list lemmas behind the circular
  buffer.

  \<^item> \<^bold>\<open>Undefined behaviour\<close> is a value. A computation of type \<open>'a ub\<close> is
    \<open>None\<close> when the C program would run into undefined behaviour (signed
    overflow, an array access outside its bounds, a read of an uninitialised
    variable) and \<open>Some x\<close> when it is defined with result \<open>x\<close>.
  \<^item> \<^bold>\<open>C's int\<close> is a mathematical integer checked against the 32-bit range
    (\<open>c_int\<close>, \<open>c_add\<close>, \<open>c_sub\<close>); \<open>c_mod\<close> is the remainder operator of C99,
    which truncates towards zero, unlike \<open>mod\<close> of HOL.
  \<^item> \<^bold>\<open>C arrays\<close> of fixed size are lists of that length, read and written at an
    \<open>int\<close> index by \<open>arr_read\<close> and \<open>arr_write\<close>, undefined outside \<open>0..<length\<close>.
  \<^item> The circular buffer is related to its logical contents through \<open>rotate\<close> of
    the list library; \<open>rotate_list_update\<close> and \<open>take_rotate_Suc\<close> are the two
    facts the queue operations need.
\<close>

section \<open>Collections of facts\<close>

named_theorems c_defs \<open>definitions of the C operators of the prelude\<close>
named_theorems inv_defs \<open>definitions of the representation invariants\<close>
named_theorems op_defs \<open>definitions of the operations of the components\<close>

section \<open>Undefined behaviour and machine integers\<close>

type_synonym 'a ub = "'a option"

abbreviation INT_MAX :: int where
  "INT_MAX \<equiv> 2147483647"

abbreviation INT_MIN :: int where
  "INT_MIN \<equiv> - 2147483648"

definition c_int :: "int \<Rightarrow> int ub" where
  "c_int x = (if INT_MIN \<le> x \<and> x \<le> INT_MAX then Some x else None)"

definition c_add :: "int \<Rightarrow> int \<Rightarrow> int ub" where
  "c_add a b = c_int (a + b)"

definition c_sub :: "int \<Rightarrow> int \<Rightarrow> int ub" where
  "c_sub a b = c_int (a - b)"

definition c_div :: "int \<Rightarrow> int \<Rightarrow> int" where
  "c_div a b = sgn a * sgn b * (\<bar>a\<bar> div \<bar>b\<bar>)"

definition c_mod :: "int \<Rightarrow> int \<Rightarrow> int" where
  "c_mod a b = a - b * c_div a b"

section \<open>Fixed-size arrays\<close>

definition in_bounds :: "'a list \<Rightarrow> int \<Rightarrow> bool" where
  "in_bounds xs i \<longleftrightarrow> 0 \<le> i \<and> i < int (length xs)"

definition arr_read :: "'a list \<Rightarrow> int \<Rightarrow> 'a ub" where
  "arr_read xs i = (if in_bounds xs i then Some (xs ! nat i) else None)"

definition arr_write :: "'a list \<Rightarrow> int \<Rightarrow> 'a \<Rightarrow> 'a list ub" where
  "arr_write xs i v = (if in_bounds xs i then Some (xs[nat i := v]) else None)"

lemmas [c_defs] = c_int_def c_add_def c_sub_def c_div_def c_mod_def
  in_bounds_def arr_read_def arr_write_def

section \<open>Facts about the C operators\<close>

lemma c_int_Some [simp]: "INT_MIN \<le> x \<Longrightarrow> x \<le> INT_MAX \<Longrightarrow> c_int x = Some x"
  by (simp add: c_int_def)

lemma c_int_eq_Some: "c_int x = Some y \<longleftrightarrow> y = x \<and> INT_MIN \<le> x \<and> x \<le> INT_MAX"
  by (auto simp: c_int_def)

lemma c_int_eq_None: "c_int x = None \<longleftrightarrow> x < INT_MIN \<or> INT_MAX < x"
  by (auto simp: c_int_def)

lemma c_add_Some [simp]:
  "INT_MIN \<le> a + b \<Longrightarrow> a + b \<le> INT_MAX \<Longrightarrow> c_add a b = Some (a + b)"
  by (simp add: c_add_def)

lemma c_add_eq_Some:
  "c_add a b = Some y \<longleftrightarrow> y = a + b \<and> INT_MIN \<le> a + b \<and> a + b \<le> INT_MAX"
  by (simp add: c_add_def c_int_eq_Some)

lemma c_add_eq_None: "c_add a b = None \<longleftrightarrow> a + b < INT_MIN \<or> INT_MAX < a + b"
  by (simp add: c_add_def c_int_eq_None)

lemma c_sub_Some [simp]:
  "INT_MIN \<le> a - b \<Longrightarrow> a - b \<le> INT_MAX \<Longrightarrow> c_sub a b = Some (a - b)"
  by (simp add: c_sub_def)

lemma c_sub_eq_Some:
  "c_sub a b = Some y \<longleftrightarrow> y = a - b \<and> INT_MIN \<le> a - b \<and> a - b \<le> INT_MAX"
  by (simp add: c_sub_def c_int_eq_Some)

lemma c_div_nonneg: "0 \<le> a \<Longrightarrow> 0 < b \<Longrightarrow> c_div a b = a div b"
  by (cases "a = 0") (simp_all add: c_div_def)

lemma c_mod_nonneg [simp]: "0 \<le> a \<Longrightarrow> 0 < b \<Longrightarrow> c_mod a b = a mod b"
  by (simp add: c_mod_def c_div_nonneg minus_mult_div_eq_mod)

lemma c_mod_neg: "a < 0 \<Longrightarrow> 0 < b \<Longrightarrow> c_mod a b = - ((- a) mod b)"
proof -
  assume a: "a < 0" and b: "0 < b"
  then have "c_div a b = - ((- a) div b)"
    by (simp add: c_div_def)
  then have "c_mod a b = - ((- a) - b * ((- a) div b))"
    by (simp add: c_mod_def algebra_simps)
  then show ?thesis
    by (simp add: minus_mult_div_eq_mod)
qed

lemma c_mod_range: "0 < b \<Longrightarrow> - b < c_mod a b \<and> c_mod a b < b"
proof (cases "0 \<le> a")
  case True
  assume "0 < b"
  with True show ?thesis
    by (simp add: order.strict_trans2 [OF _ pos_mod_sign])
next
  case False
  assume b: "0 < b"
  from False have a: "a < 0" by simp
  have "0 \<le> (- a) mod b" "(- a) mod b < b"
    using b by simp_all
  with a b show ?thesis
    by (simp add: c_mod_neg)
qed

lemma nat_add_mod:
  "0 \<le> a \<Longrightarrow> 0 \<le> b \<Longrightarrow> 0 < n \<Longrightarrow> nat ((a + b) mod n) = (nat a + nat b) mod nat n"
  by (simp add: nat_mod_distrib nat_add_distrib)

section \<open>Facts about arrays\<close>

lemma in_bounds_nat [simp]: "in_bounds xs (int n) \<longleftrightarrow> n < length xs"
  by (simp add: in_bounds_def)

lemma in_bounds_update [simp]: "in_bounds (xs[n := v]) i \<longleftrightarrow> in_bounds xs i"
  by (simp add: in_bounds_def)

lemma in_boundsD: "in_bounds xs i \<Longrightarrow> 0 \<le> i \<and> nat i < length xs"
  by (auto simp: in_bounds_def)

lemma arr_read_Some [simp]: "in_bounds xs i \<Longrightarrow> arr_read xs i = Some (xs ! nat i)"
  by (simp add: arr_read_def)

lemma arr_write_Some [simp]: "in_bounds xs i \<Longrightarrow> arr_write xs i v = Some (xs[nat i := v])"
  by (simp add: arr_write_def)

lemma arr_read_None [simp]: "\<not> in_bounds xs i \<Longrightarrow> arr_read xs i = None"
  by (simp add: arr_read_def)

lemma arr_write_None [simp]: "\<not> in_bounds xs i \<Longrightarrow> arr_write xs i v = None"
  by (simp add: arr_write_def)

lemma arr_read_eq_Some: "arr_read xs i = Some x \<longleftrightarrow> in_bounds xs i \<and> x = xs ! nat i"
  by (auto simp: arr_read_def)

lemma arr_write_eq_Some:
  "arr_write xs i v = Some ys \<longleftrightarrow> in_bounds xs i \<and> ys = xs[nat i := v]"
  by (auto simp: arr_write_def)

lemma arr_write_length: "arr_write xs i v = Some ys \<Longrightarrow> length ys = length xs"
  by (auto simp: arr_write_eq_Some)

section \<open>Lists as circular buffers\<close>

lemma mod_add_inj_le:
  fixes m j k n :: nat
  assumes "j \<le> k" "k < n" "(m + j) mod n = (m + k) mod n"
  shows "j = k"
proof -
  from assms(1,3) have "n dvd (m + k) - (m + j)"
    using mod_eq_dvd_iff_nat [of "m + j" "m + k" n] by simp
  then have "n dvd k - j" by simp
  moreover from assms(1,2) have "k - j < n" by simp
  ultimately have "k - j = 0"
    by (meson dvd_imp_le leD not_gr_zero)
  with assms(1) show ?thesis by simp
qed

lemma mod_add_inj:
  fixes m j k n :: nat
  assumes "j < n" "k < n"
  shows "(m + j) mod n = (m + k) mod n \<longleftrightarrow> j = k"
proof (cases "j \<le> k")
  case True
  with assms show ?thesis by (auto dest: mod_add_inj_le)
next
  case False
  then have "k \<le> j" by simp
  with assms show ?thesis by (auto dest: mod_add_inj_le [OF _ _ sym])
qed

text \<open>
  Writing slot \<open>(m + k) mod n\<close> of the array is writing position \<open>k\<close> of the
  buffer read from slot \<open>m\<close> onwards.
\<close>

lemma rotate_list_update:
  assumes "k < length xs"
  shows "rotate m (xs[(m + k) mod length xs := v]) = (rotate m xs)[k := v]"
proof (rule nth_equalityI)
  show "length (rotate m (xs[(m + k) mod length xs := v])) = length ((rotate m xs)[k := v])"
    by simp
next
  fix i assume "i < length (rotate m (xs[(m + k) mod length xs := v]))"
  then have i: "i < length xs" by simp
  with assms have "((m + i) mod length xs = (m + k) mod length xs) = (i = k)"
    by (simp add: mod_add_inj)
  moreover from assms have "0 < length xs" by auto
  then have "(m + k) mod length xs < length xs"
    by (rule mod_less_divisor)
  ultimately show "rotate m (xs[(m + k) mod length xs := v]) ! i = (rotate m xs)[k := v] ! i"
    using i assms by (auto simp: nth_rotate nth_list_update)
qed

lemma take_Suc_update:
  "k < length ys \<Longrightarrow> take (Suc k) (ys[k := v]) = take k ys @ [v]"
  by (simp add: take_Suc_conv_app_nth)

lemma rotate1_inj: "rotate1 xs = rotate1 ys \<Longrightarrow> xs = ys"
  by (cases xs; cases ys) auto

lemma rotate_inj: "rotate n xs = rotate n ys \<Longrightarrow> xs = ys"
proof (induction n arbitrary: xs ys)
  case (Suc n)
  from Suc.prems have "rotate1 (rotate n xs) = rotate1 (rotate n ys)" by simp
  then have "rotate n xs = rotate n ys" by (rule rotate1_inj)
  then show ?case by (rule Suc.IH)
qed simp

lemma take_rotate1:
  "n < length xs \<Longrightarrow> take n (rotate1 xs) = take n (tl xs)"
  by (cases xs) simp_all

text \<open>Advancing the first slot by one drops the first element of the buffer.\<close>

lemma take_rotate_Suc:
  assumes "0 < t" "t \<le> length xs"
  shows "take (t - 1) (rotate (Suc m) xs) = tl (take t (rotate m xs))"
  using assms by (simp add: take_rotate1 tl_take)

lemma hd_take_rotate:
  assumes "0 < t" "xs \<noteq> []"
  shows "hd (take t (rotate m xs)) = xs ! (m mod length xs)"
  using assms by (simp add: hd_rotate_conv_nth)

lemma last_take_nth:
  assumes "0 < t" "t \<le> length xs"
  shows "last (take t xs) = xs ! (t - 1)"
proof -
  from assms have "take t xs \<noteq> []" by auto
  with assms show ?thesis by (simp add: last_conv_nth)
qed

lemma map_nth_upt_take:
  "n \<le> length xs \<Longrightarrow> map (\<lambda>i. xs ! i) [0..<n] = take n xs"
proof -
  assume "n \<le> length xs"
  then have "take n xs = take n (map (\<lambda>i. xs ! i) [0..<length xs])"
    by (simp add: map_nth)
  also have "\<dots> = map (\<lambda>i. xs ! i) (take n [0..<length xs])"
    by (simp add: take_map)
  finally show ?thesis using \<open>n \<le> length xs\<close> by (simp add: min_def)
qed

lemma butlast_take_pred:
  "t \<le> length xs \<Longrightarrow> butlast (take t xs) = take (t - 1) xs"
  by (simp add: butlast_take)

lemma take_update_0:
  "0 < t \<Longrightarrow> xs \<noteq> [] \<Longrightarrow> take t (xs[0 := x]) = x # tl (take t xs)"
  by (cases xs; cases t) simp_all

section \<open>Exchanging a range of two lists\<close>

text \<open>
  \<open>swap_range i n q s\<close> exchanges the positions \<open>i\<close> to \<open>n - 1\<close> of two lists;
  one exchange at position \<open>i\<close> followed by the exchange of the rest is the
  exchange from \<open>i\<close> on.
\<close>

definition swap_range :: "nat \<Rightarrow> nat \<Rightarrow> 'a list \<Rightarrow> 'a list \<Rightarrow> 'a list \<times> 'a list" where
  "swap_range i n q s =
     (take i q @ take (n - i) (drop i s) @ drop n q,
      take i s @ take (n - i) (drop i q) @ drop n s)"

lemma swap_range_half:
  assumes "i < n" "n \<le> length q" "n \<le> length s"
  shows "take (Suc i) (q[i := s ! i]) @ take (n - Suc i) (drop (Suc i) (s[i := v])) @
           drop n (q[i := s ! i]) =
         take i q @ take (n - i) (drop i s) @ drop n q"
proof -
  from assms have "take (n - i) (drop i s) = s ! i # take (n - Suc i) (drop (Suc i) s)"
    by (metis Cons_nth_drop_Suc Suc_diff_Suc less_le_trans take_Suc_Cons)
  with assms show ?thesis
    by (simp add: take_Suc_update drop_update_cancel)
qed

lemma swap_range_step:
  assumes "i < n" "n \<le> length q" "n \<le> length s"
  shows "swap_range (Suc i) n (q[i := s ! i]) (s[i := q ! i]) = swap_range i n q s"
  using swap_range_half [OF assms, of "q ! i"] swap_range_half [OF assms(1,3,2), of "s ! i"]
  by (simp add: swap_range_def)

lemma swap_range_end: "swap_range n n q s = (q, s)"
  by (simp add: swap_range_def)

lemma swap_range_0: "length s = n \<Longrightarrow> swap_range 0 n q s = (s @ drop n q, take n q)"
  by (simp add: swap_range_def)

section \<open>The option monad of undefined behaviour\<close>

lemma ub_bind_eq_Some:
  "(Option.bind m f = Some y) \<longleftrightarrow> (\<exists>x. m = Some x \<and> f x = Some y)"
  by (cases m) simp_all

lemma ub_bind_eq_None:
  "(Option.bind m f = None) \<longleftrightarrow> (m = None \<or> (\<exists>x. m = Some x \<and> f x = None))"
  by (cases m) simp_all

end
