(* ===== verification/Pecas.thy ===== *)
theory Pecas
  imports Tetris_Prelude
begin

text \<open>
  The pieces and their generator (\<^verbatim>\<open>TIPOS\<close>, \<^verbatim>\<open>Peca\<close> and \<^verbatim>\<open>gerarPeca\<close> of
  \<^verbatim>\<open>src/tetris.c\<close>).

  The generator has two pieces of hidden state in C: the static counter
  \<^verbatim>\<open>proxId\<close> and the state of the C library's \<^verbatim>\<open>rand\<close>. Both are fields of the
  record \<open>Gerador\<close>. The library's generator is modelled by the sequence of
  values it is going to return (\<open>semente\<close>, fixed by \<^verbatim>\<open>srand\<close>) and the number of
  calls made so far (\<open>sorteios\<close>); the values are natural numbers because
  \<^verbatim>\<open>rand\<close> returns a value between 0 and \<^verbatim>\<open>RAND_MAX\<close>. Nothing else is assumed
  of the sequence, so every theorem holds for every seed.

  \<open>gerarPeca\<close> is undefined (\<open>None\<close>) exactly when the increment of \<^verbatim>\<open>proxId\<close>
  overflows \<^verbatim>\<open>int\<close>; \<open>gerarN n\<close> is \<open>n\<close> calls in a row.
\<close>

section \<open>Data\<close>

definition TIPOS :: "char list" where
  "TIPOS = ''IOTSZJL''"

definition QTD_TIPOS :: int where
  "QTD_TIPOS = int (length TIPOS)"

record Peca =
  tipo :: char
  id_peca :: int

record Gerador =
  proxId :: int
  semente :: "nat \<Rightarrow> nat"
  sorteios :: nat

section \<open>Operations\<close>

definition gerador_inicial :: "(nat \<Rightarrow> nat) \<Rightarrow> Gerador" where
  "gerador_inicial s = \<lparr>proxId = 1, semente = s, sorteios = 0\<rparr>"

definition rand_c :: "Gerador \<Rightarrow> int \<times> Gerador" where
  "rand_c g = (int (semente g (sorteios g)), g\<lparr>sorteios := Suc (sorteios g)\<rparr>)"

definition gerarPeca :: "Gerador \<Rightarrow> (Peca \<times> Gerador) ub" where
  "gerarPeca g =
     (case rand_c g of (r, g1) \<Rightarrow>
        do {
          t \<leftarrow> arr_read TIPOS (c_mod r QTD_TIPOS);
          prox \<leftarrow> c_add (proxId g1) 1;
          Some (\<lparr>tipo = t, id_peca = proxId g1\<rparr>, g1\<lparr>proxId := prox\<rparr>)
        })"

fun gerarN :: "nat \<Rightarrow> Gerador \<Rightarrow> (Peca list \<times> Gerador) ub" where
  "gerarN 0 g = Some ([], g)"
| "gerarN (Suc n) g =
     do {
       (p, g1) \<leftarrow> gerarPeca g;
       (ps, g2) \<leftarrow> gerarN n g1;
       Some (p # ps, g2)
     }"

text \<open>
  The piece that the next call returns, read off the generator's state: the type
  is the entry of \<open>TIPOS\<close> selected by the next random value, the identifier is
  the counter.
\<close>

definition proxima_peca :: "Gerador \<Rightarrow> Peca" where
  "proxima_peca g =
     \<lparr>tipo = TIPOS ! (semente g (sorteios g) mod 7), id_peca = proxId g\<rparr>"

definition avanca :: "Gerador \<Rightarrow> Gerador" where
  "avanca g = g\<lparr>sorteios := Suc (sorteios g), proxId := proxId g + 1\<rparr>"

text \<open>
  The \<open>n\<close> pieces that \<open>n\<close> calls in a row return, and the generator after them,
  in closed form.
\<close>

definition pecas_de :: "Gerador \<Rightarrow> nat \<Rightarrow> Peca list" where
  "pecas_de g n =
     map (\<lambda>k. \<lparr>tipo = TIPOS ! (semente g (sorteios g + k) mod 7), id_peca = proxId g + int k\<rparr>)
       [0..<n]"

definition avanca_n :: "nat \<Rightarrow> Gerador \<Rightarrow> Gerador" where
  "avanca_n n g = g\<lparr>sorteios := sorteios g + n, proxId := proxId g + int n\<rparr>"

text \<open>
  The generator is in a state the C program can reach when the counter is
  positive and representable.
\<close>

definition gerador_inv :: "Gerador \<Rightarrow> bool" where
  "gerador_inv g \<longleftrightarrow> 1 \<le> proxId g \<and> proxId g \<le> INT_MAX"

lemmas [inv_defs] = gerador_inv_def
lemmas [op_defs] = gerador_inicial_def rand_c_def gerarPeca_def proxima_peca_def avanca_def

section \<open>The type table\<close>

lemma length_TIPOS [simp]: "length TIPOS = 7"
  by (simp add: TIPOS_def)

lemma QTD_TIPOS_eq [simp]: "QTD_TIPOS = 7"
  by (simp add: QTD_TIPOS_def)

lemma distinct_TIPOS: "distinct TIPOS"
  by (simp add: TIPOS_def)

lemma sorteio_in_bounds [simp]: "in_bounds TIPOS (int n mod 7)"
  by (simp add: in_bounds_def)

lemma nat_sorteio [simp]: "nat (int n mod 7) = n mod 7"
  by (simp add: nat_mod_distrib)

section \<open>One call\<close>

text \<open>
  Every branch of \<open>gerarPeca\<close>: the call is defined, returning the next piece and
  advancing both counters, unless the increment of the identifier overflows.
\<close>

lemma gerarPeca_eq:
  "gerarPeca g =
     (if INT_MIN \<le> proxId g + 1 \<and> proxId g + 1 \<le> INT_MAX
      then Some (proxima_peca g, avanca g) else None)"
  by (simp add: op_defs c_add_def c_int_def)

lemma gerarPeca_Some [simp]:
  "gerador_inv g \<Longrightarrow> proxId g < INT_MAX \<Longrightarrow> gerarPeca g = Some (proxima_peca g, avanca g)"
  by (simp add: gerarPeca_eq gerador_inv_def)

lemma gerarPeca_SomeD:
  "gerarPeca g = Some (p, g') \<Longrightarrow> p = proxima_peca g \<and> g' = avanca g"
  by (simp add: gerarPeca_eq split: if_splits)

lemma gerarPeca_None: "gerador_inv g \<Longrightarrow> gerarPeca g = None \<longleftrightarrow> proxId g = INT_MAX"
  by (auto simp: gerarPeca_eq gerador_inv_def)


lemma gerador_inv_inicial [simp]: "gerador_inv (gerador_inicial s)"
  by (simp add: gerador_inv_def gerador_inicial_def)

lemma proxId_inicial [simp]: "proxId (gerador_inicial s) = 1"
  by (simp add: gerador_inicial_def)

lemma gerador_inv_avanca: "gerador_inv g \<Longrightarrow> proxId g < INT_MAX \<Longrightarrow> gerador_inv (avanca g)"
  by (simp add: gerador_inv_def avanca_def)

lemma proxId_avanca [simp]: "proxId (avanca g) = proxId g + 1"
  by (simp add: avanca_def)

lemma sorteios_avanca [simp]: "sorteios (avanca g) = Suc (sorteios g)"
  by (simp add: avanca_def)

lemma semente_avanca [simp]: "semente (avanca g) = semente g"
  by (simp add: avanca_def)

lemma id_proxima_peca [simp]: "id_peca (proxima_peca g) = proxId g"
  by (simp add: proxima_peca_def)

lemma tipo_proxima_peca: "tipo (proxima_peca g) \<in> set TIPOS"
  by (simp add: proxima_peca_def)

section \<open>Several calls\<close>

lemma pecas_de_0 [simp]: "pecas_de g 0 = []"
  by (simp add: pecas_de_def)

lemma pecas_de_Suc: "pecas_de g (Suc n) = proxima_peca g # pecas_de (avanca g) n"
  by (simp add: pecas_de_def upt_conv_Cons map_Suc_upt [symmetric] proxima_peca_def
      del: upt_Suc)

lemma avanca_n_0 [simp]: "avanca_n 0 g = g"
  by (simp add: avanca_n_def)

lemma avanca_n_Suc: "avanca_n (Suc n) g = avanca_n n (avanca g)"
  by (simp add: avanca_n_def avanca_def)

lemma length_pecas_de [simp]: "length (pecas_de g n) = n"
  by (simp add: pecas_de_def)

lemma map_id_pecas_de: "map id_peca (pecas_de g n) = map (\<lambda>k. proxId g + int k) [0..<n]"
  by (simp add: pecas_de_def)

lemma proxId_avanca_n [simp]: "proxId (avanca_n n g) = proxId g + int n"
  by (simp add: avanca_n_def)

lemma avanca_n_avanca_n [simp]: "avanca_n m (avanca_n n g) = avanca_n (n + m) g"
  by (simp add: avanca_n_def)

lemma gerador_inv_avanca_n:
  "gerador_inv g \<Longrightarrow> proxId g + int n \<le> INT_MAX \<Longrightarrow> gerador_inv (avanca_n n g)"
  by (simp add: gerador_inv_def)

lemma gerarN_eq:
  "gerador_inv g \<Longrightarrow> proxId g + int n \<le> INT_MAX \<Longrightarrow>
     gerarN n g = Some (pecas_de g n, avanca_n n g)"
proof (induction n arbitrary: g)
  case 0
  show ?case by simp
next
  case (Suc n)
  from Suc.prems have lt: "proxId g < INT_MAX" by simp
  with Suc.prems have "gerador_inv (avanca g)" "proxId (avanca g) + int n \<le> INT_MAX"
    by (simp_all add: gerador_inv_avanca)
  then have "gerarN n (avanca g) = Some (pecas_de (avanca g) n, avanca_n n (avanca g))"
    by (rule Suc.IH)
  with Suc.prems lt show ?case
    by (simp add: pecas_de_Suc avanca_n_Suc)
qed

lemma gerarN_overflow:
  "gerador_inv g \<Longrightarrow> INT_MAX < proxId g + int n \<Longrightarrow> gerarN n g = None"
proof (induction n arbitrary: g)
  case 0
  then show ?case by (simp add: gerador_inv_def)
next
  case (Suc n)
  show ?case
  proof (cases "proxId g < INT_MAX")
    case True
    with Suc.prems have "gerarN n (avanca g) = None"
      by (intro Suc.IH) (simp_all add: gerador_inv_avanca)
    with True Suc.prems show ?thesis by simp
  next
    case False
    with Suc.prems show ?thesis by (simp add: gerarPeca_eq gerador_inv_def)
  qed
qed

lemma tipo_pecas_de: "p \<in> set (pecas_de g n) \<Longrightarrow> tipo p \<in> set TIPOS"
  by (auto simp: pecas_de_def)

lemma ids_pecas_de_inicial:
  "map id_peca (pecas_de (gerador_inicial s) n) = map int [1..<Suc n]"
proof -
  have "map (\<lambda>k. 1 + int k) [0..<n] = map int (map Suc [0..<n])"
    by simp
  also have "map Suc [0..<n] = [1..<Suc n]"
    by (simp only: map_Suc_upt One_nat_def)
  finally show ?thesis
    by (simp add: map_id_pecas_de gerador_inicial_def)
qed

section \<open>Theorems\<close>

text \<open>
  Claim C18. Identifiers are sequential: fewer than \<^verbatim>\<open>INT_MAX\<close> calls of
  \<^verbatim>\<open>gerarPeca\<close> from the start of the program are free of undefined behaviour
  and return pieces whose identifiers are exactly 1, 2, ..., n, whatever the
  random values, and whose types are entries of \<^verbatim>\<open>TIPOS\<close>; the counter is then
  n + 1.
\<close>

theorem gerar_ids_sequenciais:
  assumes "int n < INT_MAX"
  shows "\<exists>ps g'. gerarN n (gerador_inicial s) = Some (ps, g') \<and>
           map id_peca ps = map int [1..<Suc n] \<and>
           (\<forall>p \<in> set ps. tipo p \<in> set TIPOS) \<and> proxId g' = int n + 1"
proof -
  from assms have "proxId (gerador_inicial s) + int n \<le> INT_MAX"
    by simp
  with gerador_inv_inicial
  have "gerarN n (gerador_inicial s) =
      Some (pecas_de (gerador_inicial s) n, avanca_n n (gerador_inicial s))"
    by (rule gerarN_eq)
  then show ?thesis
    by (simp add: ids_pecas_de_inicial tipo_pecas_de del: upt_Suc)
qed

theorem gerar_ids_sequenciais_witness:
  "int 3 < INT_MAX \<and>
   (\<exists>g'. gerarN 3 (gerador_inicial (\<lambda>n. 3 * n + 1)) =
     Some ([\<lparr>tipo = CHR ''O'', id_peca = 1\<rparr>, \<lparr>tipo = CHR ''Z'', id_peca = 2\<rparr>,
            \<lparr>tipo = CHR ''I'', id_peca = 3\<rparr>], g') \<and> proxId g' = 4)"
proof -
  let ?g = "gerador_inicial (\<lambda>n. 3 * n + 1)"
  have "gerarN 3 ?g = Some (pecas_de ?g 3, avanca_n 3 ?g)"
    by (rule gerarN_eq) simp_all
  moreover have "pecas_de ?g 3 =
      [\<lparr>tipo = CHR ''O'', id_peca = 1\<rparr>, \<lparr>tipo = CHR ''Z'', id_peca = 2\<rparr>,
       \<lparr>tipo = CHR ''I'', id_peca = 3\<rparr>]"
    by (simp add: pecas_de_def gerador_inicial_def TIPOS_def upt_conv_Cons)
  ultimately show ?thesis
    using gerar_ids_sequenciais [of 3 "\<lambda>n. 3 * n + 1"] by simp
qed

text \<open>
  Claim C19. The identifier counter overflows: a sequence of calls of
  \<^verbatim>\<open>gerarPeca\<close> from the start of the program runs into undefined behaviour if
  and only if it has \<^verbatim>\<open>INT_MAX\<close> calls or more; call number 2147483647 increments
  \<^verbatim>\<open>proxId\<close> beyond \<^verbatim>\<open>INT_MAX\<close>.
\<close>

theorem gerar_overflow:
  "gerarN n (gerador_inicial s) = None \<longleftrightarrow> INT_MAX \<le> int n"
proof (cases "int n < INT_MAX")
  case True
  then have "proxId (gerador_inicial s) + int n \<le> INT_MAX"
    by simp
  with gerador_inv_inicial have "gerarN n (gerador_inicial s) \<noteq> None"
    by (simp add: gerarN_eq)
  with True show ?thesis by simp
next
  case False
  then have "INT_MAX < proxId (gerador_inicial s) + int n"
    by simp
  with gerador_inv_inicial have "gerarN n (gerador_inicial s) = None"
    by (rule gerarN_overflow)
  with False show ?thesis by simp
qed

theorem gerar_overflow_witness:
  "gerarN 2147483647 (gerador_inicial (\<lambda>n. n)) = None \<and>
   gerarN 2147483646 (gerador_inicial (\<lambda>n. n)) \<noteq> None"
proof -
  have "gerarN 2147483647 (gerador_inicial (\<lambda>n. n)) = None"
    using gerar_overflow [of 2147483647 "\<lambda>n. n"] by simp
  moreover have "gerarN 2147483646 (gerador_inicial (\<lambda>n. n)) \<noteq> None"
    using gerar_overflow [of 2147483646 "\<lambda>n. n"] by simp
  ultimately show ?thesis by (rule conjI)
qed

end
