(* ===== verification/Especificacao.thy ===== *)
theory Especificacao
  imports Pecas "HOL-Library.Multiset"
begin

text \<open>
  The abstract specification of the two containers, independent of their
  representation: a bounded queue and a bounded stack are lists (the queue front
  first, the stack base first) with a capacity, and each operation returns its
  success flag, the piece it delivers if any, and the new list. These are the
  contracts of sections 4.2 and 4.3 of the specification; the theories
  \<open>Fila_Circular\<close> and \<open>Pilha_Linear\<close> prove that the C data structures implement
  them, and the clients (\<open>Trocas\<close>, \<open>Jogo\<close>) reason about lists only.

  The lemmas of this theory are the clients' side of the interface: what any
  implementation of the contract gives (first-in first-out and last-in first-out
  order, the capacity bound).
\<close>

section \<open>Bounded queue\<close>

definition esp_enqueue :: "nat \<Rightarrow> 'a list \<Rightarrow> 'a \<Rightarrow> bool \<times> 'a list" where
  "esp_enqueue cap xs x = (if length xs = cap then (False, xs) else (True, xs @ [x]))"

definition esp_dequeue :: "'a list \<Rightarrow> bool \<times> 'a option \<times> 'a list" where
  "esp_dequeue xs = (case xs of [] \<Rightarrow> (False, None, []) | x # r \<Rightarrow> (True, Some x, r))"

definition esp_peekAt :: "'a list \<Rightarrow> int \<Rightarrow> 'a option" where
  "esp_peekAt xs i = (if 0 \<le> i \<and> i < int (length xs) then Some (xs ! nat i) else None)"

section \<open>Bounded stack\<close>

definition esp_push :: "nat \<Rightarrow> 'a list \<Rightarrow> 'a \<Rightarrow> bool \<times> 'a list" where
  "esp_push cap xs x = (if length xs = cap then (False, xs) else (True, xs @ [x]))"

definition esp_pop :: "'a list \<Rightarrow> bool \<times> 'a option \<times> 'a list" where
  "esp_pop xs = (if xs = [] then (False, None, []) else (True, Some (last xs), butlast xs))"

definition esp_peekTop :: "'a list \<Rightarrow> 'a option" where
  "esp_peekTop xs = (if xs = [] then None else Some (last xs))"

section \<open>Failures and the two exchanges\<close>

text \<open>The precondition violations of section 7 of the specification.\<close>

datatype erro = QueueEmpty | QueueTooShort | StackEmpty | StackFull | StackWrongSize

definition esp_swapFrontTop :: "'a list \<Rightarrow> 'a list \<Rightarrow> erro + 'a list \<times> 'a list" where
  "esp_swapFrontTop q s =
     (if q = [] then Inl QueueEmpty
      else if s = [] then Inl StackEmpty
      else Inr (last s # tl q, butlast s @ [hd q]))"

definition esp_swapFirstThree :: "'a list \<Rightarrow> 'a list \<Rightarrow> erro + 'a list \<times> 'a list" where
  "esp_swapFirstThree q s =
     (if length s \<noteq> 3 then Inl StackWrongSize
      else if length q < 3 then Inl QueueTooShort
      else Inr (s @ drop 3 q, take 3 q))"

section \<open>The game\<close>

text \<open>
  The five operations that a turn of the game can perform (section 4.4 of the
  specification) over the queue, the stack and the piece generator. \<open>esp_refill\<close>
  tops the queue up to its capacity with the next pieces of the generator. A
  turn fails with the precondition it violates, or delivers the piece it
  produces, if any, and the new state.
\<close>

datatype comando = Play | SendToReserve | UseReserve | SwapFrontTop | SwapFirstThree

type_synonym esp_jogo = "Peca list \<times> Peca list \<times> Gerador"

definition esp_refill :: "nat \<Rightarrow> Peca list \<Rightarrow> Gerador \<Rightarrow> Peca list \<times> Gerador" where
  "esp_refill cap q g = (q @ pecas_de g (cap - length q), avanca_n (cap - length q) g)"

fun esp_passo :: "comando \<Rightarrow> esp_jogo \<Rightarrow> erro + Peca option \<times> esp_jogo" where
  "esp_passo Play (q, s, g) =
     (if q = [] then Inl QueueEmpty
      else case esp_refill 5 (tl q) g of (q', g') \<Rightarrow> Inr (Some (hd q), q', s, g'))"
| "esp_passo SendToReserve (q, s, g) =
     (if length s = 3 then Inl StackFull
      else if q = [] then Inl QueueEmpty
      else case esp_refill 5 (tl q) g of (q', g') \<Rightarrow> Inr (Some (hd q), q', s @ [hd q], g'))"
| "esp_passo UseReserve (q, s, g) =
     (if s = [] then Inl StackEmpty else Inr (Some (last s), q, butlast s, g))"
| "esp_passo SwapFrontTop (q, s, g) =
     (case esp_swapFrontTop q s of Inl err \<Rightarrow> Inl err | Inr (q', s') \<Rightarrow> Inr (None, q', s', g))"
| "esp_passo SwapFirstThree (q, s, g) =
     (case esp_swapFirstThree q s of Inl err \<Rightarrow> Inl err | Inr (q', s') \<Rightarrow> Inr (None, q', s', g))"

text \<open>
  The invariant of the game between two turns: the queue is full, the stack is
  within its capacity, and the pieces in play have distinct identifiers, all
  issued already by the generator.
\<close>

definition ids_ok :: "Peca list \<Rightarrow> Gerador \<Rightarrow> bool" where
  "ids_ok xs g \<longleftrightarrow>
     distinct (map id_peca xs) \<and> list_all (\<lambda>x. 1 \<le> id_peca x \<and> id_peca x < proxId g) xs"

definition esp_inv :: "esp_jogo \<Rightarrow> bool" where
  "esp_inv a = (case a of (q, s, g) \<Rightarrow> length q = 5 \<and> length s \<le> 3 \<and> 1 \<le> proxId g \<and> ids_ok (q @ s) g)"


text \<open>
  The state after a turn (a failed turn leaves it as it was), after a sequence
  of turns, and at the start of the game.
\<close>

definition esp_turno :: "comando \<Rightarrow> esp_jogo \<Rightarrow> esp_jogo" where
  "esp_turno c a = (case esp_passo c a of Inl err \<Rightarrow> a | Inr (w, a') \<Rightarrow> a')"

fun esp_jogo_run :: "comando list \<Rightarrow> esp_jogo \<Rightarrow> esp_jogo" where
  "esp_jogo_run [] a = a"
| "esp_jogo_run (c # cs) a = esp_jogo_run cs (esp_turno c a)"

definition esp_inicial :: "(nat \<Rightarrow> nat) \<Rightarrow> esp_jogo" where
  "esp_inicial s = (case esp_refill 5 [] (gerador_inicial s) of (q, g) \<Rightarrow> (q, [], g))"

section \<open>Runs of operations\<close>

text \<open>
  A sequence of container operations and its run over a list; the results of the
  operations that deliver a piece are collected in order.
\<close>

datatype 'a op_fila = Enq 'a | Deq

datatype 'a op_pilha = Push 'a | Pop

fun esp_fila_run :: "nat \<Rightarrow> 'a op_fila list \<Rightarrow> 'a list \<Rightarrow> 'a option list \<times> 'a list" where
  "esp_fila_run cap [] xs = ([], xs)"
| "esp_fila_run cap (Enq x # ops) xs = esp_fila_run cap ops (snd (esp_enqueue cap xs x))"
| "esp_fila_run cap (Deq # ops) xs =
     (case esp_dequeue xs of (ok, w, ys) \<Rightarrow>
        (case esp_fila_run cap ops ys of (ws, zs) \<Rightarrow> (w # ws, zs)))"

fun esp_pilha_run :: "nat \<Rightarrow> 'a op_pilha list \<Rightarrow> 'a list \<Rightarrow> 'a option list \<times> 'a list" where
  "esp_pilha_run cap [] xs = ([], xs)"
| "esp_pilha_run cap (Push x # ops) xs = esp_pilha_run cap ops (snd (esp_push cap xs x))"
| "esp_pilha_run cap (Pop # ops) xs =
     (case esp_pop xs of (ok, w, ys) \<Rightarrow>
        (case esp_pilha_run cap ops ys of (ws, zs) \<Rightarrow> (w # ws, zs)))"

section \<open>What the contracts give\<close>

lemma esp_enqueue_length:
  "length xs \<le> cap \<Longrightarrow> length (snd (esp_enqueue cap xs x)) \<le> cap"
  by (simp add: esp_enqueue_def)

lemma esp_push_length:
  "length xs \<le> cap \<Longrightarrow> length (snd (esp_push cap xs x)) \<le> cap"
  by (simp add: esp_push_def)

lemma esp_dequeue_Cons [simp]: "esp_dequeue (x # xs) = (True, Some x, xs)"
  by (simp add: esp_dequeue_def)

lemma esp_dequeue_Nil [simp]: "esp_dequeue [] = (False, None, [])"
  by (simp add: esp_dequeue_def)

lemma esp_pop_snoc [simp]: "esp_pop (xs @ [x]) = (True, Some x, xs)"
  by (simp add: esp_pop_def)

lemma esp_pop_Nil [simp]: "esp_pop [] = (False, None, [])"
  by (simp add: esp_pop_def)

lemma esp_dequeue_eq:
  "esp_dequeue xs = (xs \<noteq> [], if xs = [] then None else Some (hd xs), tl xs)"
  by (cases xs) simp_all

lemma esp_fila_run_enqs:
  "length xs + length ys \<le> cap \<Longrightarrow> esp_fila_run cap (map Enq ys) xs = ([], xs @ ys)"
  by (induction ys arbitrary: xs) (simp_all add: esp_enqueue_def)

lemma esp_fila_run_deqs:
  "esp_fila_run cap (replicate (length ys) Deq) (ys @ zs) = (map Some ys, zs)"
  by (induction ys) simp_all

lemma esp_fila_run_append:
  "esp_fila_run cap (as @ bs) xs =
     (case esp_fila_run cap as xs of (ws, ys) \<Rightarrow>
        (case esp_fila_run cap bs ys of (vs, zs) \<Rightarrow> (ws @ vs, zs)))"
  by (induction cap as xs rule: esp_fila_run.induct) (simp_all split: prod.splits)

lemma esp_pilha_run_pushes:
  "length xs + length ys \<le> cap \<Longrightarrow> esp_pilha_run cap (map Push ys) xs = ([], xs @ ys)"
  by (induction ys arbitrary: xs) (simp_all add: esp_push_def)

lemma esp_pilha_run_pops:
  "esp_pilha_run cap (replicate (length ys) Pop) (zs @ ys) = (map Some (rev ys), zs)"
proof (induction ys rule: rev_induct)
  case Nil
  show ?case by simp
next
  case (snoc y ys)
  have "replicate (length (ys @ [y])) Pop = Pop # replicate (length ys) (Pop :: 'a op_pilha)"
    by simp
  moreover have "esp_pop (zs @ ys @ [y]) = (True, Some y, zs @ ys)"
    using esp_pop_snoc [of "zs @ ys" y] by simp
  ultimately show ?case using snoc by simp
qed

lemma esp_pilha_run_append:
  "esp_pilha_run cap (as @ bs) xs =
     (case esp_pilha_run cap as xs of (ws, ys) \<Rightarrow>
        (case esp_pilha_run cap bs ys of (vs, zs) \<Rightarrow> (ws @ vs, zs)))"
  by (induction cap as xs rule: esp_pilha_run.induct) (simp_all split: prod.splits)

text \<open>The exchanges neither create nor lose a piece, and keep both lengths.\<close>

lemma esp_swapFrontTop_mset:
  "esp_swapFrontTop q s = Inr (q', s') \<Longrightarrow> mset q' + mset s' = mset q + mset s"
proof -
  assume a: "esp_swapFrontTop q s = Inr (q', s')"
  then have ne: "q \<noteq> []" "s \<noteq> []" and q': "q' = last s # tl q" and s': "s' = butlast s @ [hd q]"
    by (auto simp: esp_swapFrontTop_def split: if_splits)
  from ne have "mset q = {#hd q#} + mset (tl q)" "mset s = mset (butlast s) + {#last s#}"
    by (cases q, simp_all) (metis append_butlast_last_id mset.simps(1,2) mset_append add_mset_add_single)
  then show ?thesis by (simp add: q' s')
qed

lemma esp_swapFrontTop_length:
  "esp_swapFrontTop q s = Inr (q', s') \<Longrightarrow> length q' = length q \<and> length s' = length s"
  by (auto simp: esp_swapFrontTop_def split: if_splits)

lemma esp_swapFirstThree_mset:
  "esp_swapFirstThree q s = Inr (q', s') \<Longrightarrow> mset q' + mset s' = mset q + mset s"
proof -
  assume a: "esp_swapFirstThree q s = Inr (q', s')"
  then have q': "q' = s @ drop 3 q" and s': "s' = take 3 q"
    by (auto simp: esp_swapFirstThree_def split: if_splits)
  have "mset q = mset (take 3 q) + mset (drop 3 q)"
    by (metis append_take_drop_id mset_append)
  then show ?thesis by (simp add: q' s')
qed

lemma esp_swapFirstThree_length:
  "esp_swapFirstThree q s = Inr (q', s') \<Longrightarrow> length q' = length q \<and> length s' = length s"
  by (auto simp: esp_swapFirstThree_def split: if_splits)

text \<open>
  First-in first-out: pieces enqueued into an empty queue with room for them
  come out in the order they went in. Last-in first-out: pieces pushed onto an
  empty stack come out in the reverse order.
\<close>

lemma esp_fifo:
  "length ys \<le> cap \<Longrightarrow>
     esp_fila_run cap (map Enq ys @ replicate (length ys) Deq) [] = (map Some ys, [])"
  using esp_fila_run_deqs [of cap ys "[]"]
  by (simp add: esp_fila_run_append esp_fila_run_enqs)

lemma esp_lifo:
  "length ys \<le> cap \<Longrightarrow>
     esp_pilha_run cap (map Push ys @ replicate (length ys) Pop) [] = (map Some (rev ys), [])"
  using esp_pilha_run_pops [of cap ys "[]"]
  by (simp add: esp_pilha_run_append esp_pilha_run_pushes)

section \<open>The invariant of the game\<close>

lemma ids_ok_perm: "mset xs = mset ys \<Longrightarrow> ids_ok xs g = ids_ok ys g"
proof -
  assume a: "mset xs = mset ys"
  then have "mset (map id_peca xs) = mset (map id_peca ys)" by simp
  then have "distinct (map id_peca xs) = distinct (map id_peca ys)"
    by (rule mset_eq_imp_distinct_iff)
  moreover have "set xs = set ys" using a by (rule mset_eq_setD)
  ultimately show ?thesis by (simp add: ids_ok_def list_all_iff)
qed

lemma ids_ok_novas:
  assumes "ids_ok xs g" "1 \<le> proxId g"
  shows "ids_ok (xs @ pecas_de g n) (avanca_n n g)"
proof -
  let ?novas = "map id_peca (pecas_de g n)"
  have "distinct ?novas" by (simp add: map_id_pecas_de distinct_map inj_on_def)
  moreover have "set (map id_peca xs) \<inter> set ?novas = {}"
    using assms(1) by (auto simp: ids_ok_def list_all_iff map_id_pecas_de)
  moreover have "\<forall>x\<in>set (pecas_de g n). 1 \<le> id_peca x \<and> id_peca x < proxId g + int n"
    using assms(2) by (auto simp: pecas_de_def)
  moreover have "\<forall>x\<in>set xs. 1 \<le> id_peca x \<and> id_peca x < proxId g + int n"
    using assms(1) by (auto simp: ids_ok_def list_all_iff)
  ultimately show ?thesis
    using assms(1) by (simp add: ids_ok_def list_all_iff ball_Un)
qed

lemma ids_ok_Cons: "ids_ok (x # xs) g \<Longrightarrow> ids_ok xs g"
  by (simp add: ids_ok_def)

lemma ids_ok_retira: "mset xs = add_mset x (mset ys) \<Longrightarrow> ids_ok xs g \<Longrightarrow> ids_ok ys g"
  using ids_ok_perm [of xs "x # ys" g] by (simp add: ids_ok_Cons)

lemma ids_ok_repoe:
  assumes "ids_ok (x # r @ s) g" "1 \<le> proxId g"
  shows "ids_ok ((r @ pecas_de g 1) @ s) (avanca_n 1 g)"
    and "ids_ok ((r @ pecas_de g 1) @ s @ [x]) (avanca_n 1 g)"
proof -
  have "ids_ok (r @ s) g" using assms(1) by (rule ids_ok_Cons)
  from ids_ok_novas [OF this assms(2), of 1]
  show "ids_ok ((r @ pecas_de g 1) @ s) (avanca_n 1 g)"
    using ids_ok_perm [of "(r @ pecas_de g 1) @ s" "(r @ s) @ pecas_de g 1"] by simp
  from ids_ok_novas [OF assms, of 1]
  show "ids_ok ((r @ pecas_de g 1) @ s @ [x]) (avanca_n 1 g)"
    using ids_ok_perm [of "(r @ pecas_de g 1) @ s @ [x]" "(x # r @ s) @ pecas_de g 1"] by simp
qed

lemma ids_ok_butlast: "s \<noteq> [] \<Longrightarrow> ids_ok (q @ s) g \<Longrightarrow> ids_ok (q @ butlast s) g"
proof -
  assume s: "s \<noteq> []"
  have "mset (q @ butlast s @ [last s]) = add_mset (last s) (mset (q @ butlast s))"
    by simp
  then have "mset (q @ s) = add_mset (last s) (mset (q @ butlast s))"
    using s by simp
  then show "ids_ok (q @ s) g \<Longrightarrow> ids_ok (q @ butlast s) g" by (rule ids_ok_retira)
qed

lemma esp_inv_troca:
  assumes "esp_inv (q, s, g)" "mset q' + mset s' = mset q + mset s"
    "length q' = length q \<and> length s' = length s"
  shows "esp_inv (q', s', g)"
proof -
  from assms(2) have "mset (q' @ s') = mset (q @ s)" by simp
  from ids_ok_perm [OF this] assms(1,3) show ?thesis by (simp add: esp_inv_def)
qed

lemma esp_passo_inv:
  assumes "esp_inv a" "esp_passo c a = Inr (w, a')"
  shows "esp_inv a'"
proof -
  obtain q s g where a: "a = (q, s, g)" by (cases a)
  from assms(1) have inv: "length q = 5" "length s \<le> 3" "ids_ok (q @ s) g" "1 \<le> proxId g"
    by (simp_all add: esp_inv_def a)
  then obtain x r where q: "q = x # r" "length r = 4" by (cases q) auto
  note ids = ids_ok_repoe [OF inv(3) [unfolded q, simplified] inv(4)] ids_ok_butlast [OF _ inv(3)]
  show ?thesis
  proof (cases c)
    case SwapFrontTop
    with assms(2) obtain q' s' where r: "esp_swapFrontTop q s = Inr (q', s')" "a' = (q', s', g)"
      by (auto simp: a split: sum.splits)
    from esp_inv_troca [OF assms(1) [unfolded a] esp_swapFrontTop_mset [OF r(1)] esp_swapFrontTop_length [OF r(1)]]
    show ?thesis by (simp add: r(2))
  next
    case SwapFirstThree
    with assms(2) obtain q' s' where r: "esp_swapFirstThree q s = Inr (q', s')" "a' = (q', s', g)"
      by (auto simp: a split: sum.splits)
    from esp_inv_troca [OF assms(1) [unfolded a] esp_swapFirstThree_mset [OF r(1)] esp_swapFirstThree_length [OF r(1)]]
    show ?thesis by (simp add: r(2))
  qed (use assms(2) inv(1,2,4) ids in
      \<open>auto simp: a q esp_refill_def esp_inv_def split: if_splits\<close>)
qed

lemma esp_turno_inv: "esp_inv a \<Longrightarrow> esp_inv (esp_turno c a)"
  by (auto simp: esp_turno_def esp_passo_inv split: sum.splits)

lemma esp_passo_proxId:
  assumes "esp_passo c (q, s, g) = Inr (w, q', s', g')" "length q = 5"
  shows "proxId g' = proxId g + (if c = Play \<or> c = SendToReserve then 1 else 0)"
  using assms by (cases c) (auto simp: esp_refill_def split: if_splits sum.splits)

lemma esp_jogo_run_append:
  "esp_jogo_run (cs @ ds) a = esp_jogo_run ds (esp_jogo_run cs a)"
  by (induction cs arbitrary: a) simp_all

lemma esp_inv_inicial: "esp_inv (esp_inicial s)"
  using ids_ok_novas [of "[]" "gerador_inicial s" 5]
  by (simp add: esp_inicial_def esp_refill_def esp_inv_def ids_ok_def)

lemma esp_jogo_run_inv: "esp_inv a \<Longrightarrow> esp_inv (esp_jogo_run cs a)"
  by (induction cs arbitrary: a) (simp_all add: esp_turno_inv)


end
