(* ===== verification/Fila_Circular.thy ===== *)
theory Fila_Circular
  imports Especificacao
begin

text \<open>
  The circular queue of upcoming pieces (\<^verbatim>\<open>Fila\<close> and its functions in
  \<^verbatim>\<open>src/tetris.c\<close>): a record of the array and the three indices, one definition
  per C function, the representation invariant \<open>fila_inv\<close>, and the contents of
  the queue as a list, front first (\<open>fila_lista\<close>, the traversal that
  \<^verbatim>\<open>mostrarFila\<close> performs).

  The array is a list of length \<^verbatim>\<open>MAX_FILA\<close> whose slots outside the live range
  hold arbitrary pieces, as the uninitialised array of the C program does.
\<close>

section \<open>Data\<close>

abbreviation (input) MAX_FILA :: int where
  "MAX_FILA \<equiv> 5"

record Fila =
  itens_f :: "Peca list"
  inicio :: int
  fim :: int
  total_f :: int

section \<open>Operations\<close>

definition inicializarFila :: "Fila \<Rightarrow> Fila" where
  "inicializarFila f = f\<lparr>inicio := 0, fim := 0, total_f := 0\<rparr>"

definition filaVazia :: "Fila \<Rightarrow> bool" where
  "filaVazia f \<longleftrightarrow> total_f f = 0"

definition filaCheia :: "Fila \<Rightarrow> bool" where
  "filaCheia f \<longleftrightarrow> total_f f = MAX_FILA"

definition enqueue :: "Fila \<Rightarrow> Peca \<Rightarrow> (bool \<times> Fila) ub" where
  "enqueue f p =
     (if filaCheia f then Some (False, f)
      else do {
        a \<leftarrow> arr_write (itens_f f) (fim f) p;
        s \<leftarrow> c_add (fim f) 1;
        t \<leftarrow> c_add (total_f f) 1;
        Some (True, f\<lparr>itens_f := a, fim := c_mod s MAX_FILA, total_f := t\<rparr>)
      })"

definition dequeue :: "Fila \<Rightarrow> bool \<Rightarrow> (bool \<times> Peca option \<times> Fila) ub" where
  "dequeue f out =
     (if filaVazia f then Some (False, None, f)
      else do {
        w \<leftarrow> (if out then map_option Some (arr_read (itens_f f) (inicio f)) else Some None);
        s \<leftarrow> c_add (inicio f) 1;
        t \<leftarrow> c_sub (total_f f) 1;
        Some (True, w, f\<lparr>inicio := c_mod s MAX_FILA, total_f := t\<rparr>)
      })"

definition filaAt :: "Fila \<Rightarrow> int \<Rightarrow> int option ub" where
  "filaAt f i =
     (if i < 0 \<or> i \<ge> total_f f then Some None
      else do {
        s \<leftarrow> c_add (inicio f) i;
        if in_bounds (itens_f f) (c_mod s MAX_FILA) then Some (Some (c_mod s MAX_FILA)) else None
      })"

function reabastecerFila :: "Fila \<Rightarrow> Gerador \<Rightarrow> (Fila \<times> Gerador) ub" where
  "reabastecerFila f g =
     (if filaCheia f then Some (f, g)
      else do {
        (p, g1) \<leftarrow> gerarPeca g;
        (ok, f1) \<leftarrow> enqueue f p;
        reabastecerFila f1 g1
      })"
  by pat_completeness auto

lemma enqueue_total:
  "\<not> filaCheia f \<Longrightarrow> enqueue f p = Some (ok, f1) \<Longrightarrow>
     total_f f1 = total_f f + 1 \<and> total_f f1 \<le> INT_MAX"
  by (auto simp: enqueue_def ub_bind_eq_Some c_add_eq_Some)

termination reabastecerFila
proof (relation "measure (\<lambda>(f, g). nat (INT_MAX - total_f f))")
  show "wf (measure (\<lambda>(f, g). nat (INT_MAX - total_f f)))"
    by simp
next
  fix f g x p g1 y ok f1
  assume "\<not> filaCheia f" and "enqueue f p = Some y" and "(ok, f1) = y"
  then have "total_f f1 = total_f f + 1 \<and> total_f f1 \<le> INT_MAX"
    using enqueue_total [of f p ok f1] by simp
  then show "((f1, g1), f, g) \<in> measure (\<lambda>(f, g). nat (INT_MAX - total_f f))"
    by simp
qed

declare reabastecerFila.simps [simp del]

text \<open>
  A client that calls \<^verbatim>\<open>enqueue\<close> and \<^verbatim>\<open>dequeue\<close> in sequence, every \<^verbatim>\<open>dequeue\<close>
  with a destination for the piece; the pieces delivered are collected in order.
\<close>

fun fila_run :: "Peca op_fila list \<Rightarrow> Fila \<Rightarrow> (Peca option list \<times> Fila) ub" where
  "fila_run [] f = Some ([], f)"
| "fila_run (Enq p # ops) f = do { (ok, f1) \<leftarrow> enqueue f p; fila_run ops f1 }"
| "fila_run (Deq # ops) f =
     do {
       (ok, w, f1) \<leftarrow> dequeue f True;
       (ws, f2) \<leftarrow> fila_run ops f1;
       Some (w # ws, f2)
     }"

section \<open>Invariant and abstraction\<close>

text \<open>
  The representation invariant: the array has its five slots, the head index and
  the count are in range, and the stored tail index is the one derived from head
  and count.
\<close>

definition fila_inv :: "Fila \<Rightarrow> bool" where
  "fila_inv f \<longleftrightarrow>
     length (itens_f f) = 5 \<and> 0 \<le> inicio f \<and> inicio f < MAX_FILA \<and>
     0 \<le> total_f f \<and> total_f f \<le> MAX_FILA \<and>
     fim f = (inicio f + total_f f) mod MAX_FILA"

text \<open>
  The contents of the queue, front first: the slots \<^verbatim>\<open>(inicio + i) % MAX_FILA\<close> for
  \<^verbatim>\<open>i\<close> below \<^verbatim>\<open>total\<close>, in the order \<^verbatim>\<open>mostrarFila\<close> visits them.
\<close>

definition fila_lista :: "Fila \<Rightarrow> Peca list" where
  "fila_lista f =
     map (\<lambda>i. itens_f f ! nat (c_mod (inicio f + int i) MAX_FILA)) [0..<nat (total_f f)]"

text \<open>
  \<^verbatim>\<open>filaAt\<close> returns a pointer into the array; the model returns the index of
  the slot, \<open>None\<close> for \<^verbatim>\<open>NULL\<close>. \<open>lerSlot\<close> is what a caller reads through it.
\<close>

definition lerSlot :: "Fila \<Rightarrow> int option \<Rightarrow> Peca option" where
  "lerSlot f ptr = Option.bind ptr (arr_read (itens_f f))"

text \<open>The number of pieces missing for the queue to be full.\<close>

definition faltam :: "Fila \<Rightarrow> nat" where
  "faltam f = nat (MAX_FILA - total_f f)"

text \<open>A queue in the middle of its life, used to instantiate the theorems.\<close>

definition peca_ex :: "char \<Rightarrow> int \<Rightarrow> Peca" where
  "peca_ex c n = \<lparr>tipo = c, id_peca = n\<rparr>"

definition fila_ex :: Fila where
  "fila_ex =
     \<lparr>itens_f = [peca_ex CHR ''Z'' 6, peca_ex CHR ''O'' 2, peca_ex CHR ''T'' 3,
                 peca_ex CHR ''S'' 4, peca_ex CHR ''I'' 5],
      inicio = 3, fim = 1, total_f = 3\<rparr>"

lemmas [inv_defs] = fila_inv_def
lemmas [op_defs] = inicializarFila_def filaVazia_def filaCheia_def enqueue_def dequeue_def
  filaAt_def fila_lista_def faltam_def lerSlot_def

section \<open>Consequences of the invariant\<close>

lemma fila_inv_nat:
  assumes "fila_inv f"
  shows "length (itens_f f) = 5" "nat (inicio f) < 5" "nat (total_f f) \<le> 5"
    "0 \<le> inicio f" "0 \<le> total_f f" "inicio f < 5" "total_f f \<le> 5"
  using assms by (auto simp: fila_inv_def)

lemma fila_nao_cheia_nat:
  "fila_inv f \<Longrightarrow> \<not> filaCheia f \<Longrightarrow> nat (total_f f) < 5 \<and> total_f f < 5"
  by (auto simp: fila_inv_def filaCheia_def)

lemma fila_lista_rotate:
  assumes "fila_inv f"
  shows "fila_lista f = take (nat (total_f f)) (rotate (nat (inicio f)) (itens_f f))"
proof (rule nth_equalityI)
  from assms show "length (fila_lista f) =
      length (take (nat (total_f f)) (rotate (nat (inicio f)) (itens_f f)))"
    by (simp add: fila_lista_def fila_inv_nat)
next
  fix i assume "i < length (fila_lista f)"
  then have i: "i < nat (total_f f)" by (simp add: fila_lista_def)
  with fila_inv_nat(1,3) [OF assms] have "i < length (itens_f f)" by simp
  moreover from assms have "nat (c_mod (inicio f + int i) MAX_FILA) = (nat (inicio f) + i) mod 5"
    by (simp add: fila_inv_def nat_add_mod)
  ultimately show "fila_lista f ! i =
      take (nat (total_f f)) (rotate (nat (inicio f)) (itens_f f)) ! i"
    using i assms by (simp add: fila_lista_def nth_rotate fila_inv_def)
qed

lemma length_fila_lista [simp]: "length (fila_lista f) = nat (total_f f)"
  by (simp add: fila_lista_def)

lemma fila_inv_fim:
  "fila_inv f \<Longrightarrow> \<not> filaCheia f \<Longrightarrow>
     in_bounds (itens_f f) (fim f) \<and>
     nat (fim f) = (nat (inicio f) + nat (total_f f)) mod length (itens_f f)"
  by (simp add: fila_inv_def filaCheia_def in_bounds_def nat_add_mod)

lemma enqueue_cheia: "filaCheia f \<Longrightarrow> enqueue f p = Some (False, f)"
  by (simp add: enqueue_def)

lemma enqueue_ok:
  assumes "fila_inv f" "\<not> filaCheia f"
  shows "enqueue f p =
     Some (True, f\<lparr>itens_f := (itens_f f)[nat (fim f) := p],
                   fim := (fim f + 1) mod MAX_FILA, total_f := total_f f + 1\<rparr>)"
proof -
  from assms have "in_bounds (itens_f f) (fim f)" by (simp add: fila_inv_fim)
  moreover from assms have "0 \<le> fim f" "fim f < 5" "0 \<le> total_f f" "total_f f \<le> 5"
    by (simp_all add: fila_inv_def)
  ultimately show ?thesis using assms(2)
    by (simp add: enqueue_def)
qed

lemma fila_inv_enqueue:
  assumes "fila_inv f" "enqueue f p = Some (ok, f')"
  shows "fila_inv f'"
proof (cases "filaCheia f")
  case True
  with assms show ?thesis by (simp add: enqueue_cheia)
next
  case False
  with assms have "f' = f\<lparr>itens_f := (itens_f f)[nat (fim f) := p],
                   fim := (fim f + 1) mod MAX_FILA, total_f := total_f f + 1\<rparr>"
    by (simp add: enqueue_ok)
  with assms(1) False show ?thesis
    by (simp add: fila_inv_def filaCheia_def mod_simps add.assoc)
qed

lemma fila_lista_enqueue:
  assumes "fila_inv f" "\<not> filaCheia f" "enqueue f p = Some (ok, f')"
  shows "fila_lista f' = fila_lista f @ [p]"
proof -
  let ?t = "nat (total_f f)" and ?m = "nat (inicio f)"
  from assms have f': "f' = f\<lparr>itens_f := (itens_f f)[nat (fim f) := p],
                   fim := (fim f + 1) mod MAX_FILA, total_f := total_f f + 1\<rparr>"
    by (simp add: enqueue_ok)
  have inv': "fila_inv f'" by (rule fila_inv_enqueue [OF assms(1,3)])
  from assms(1,2) have t: "?t < length (itens_f f)" "0 \<le> total_f f"
    by (simp_all add: fila_inv_nat fila_nao_cheia_nat)
  from assms(1,2) have "nat (fim f) = (?m + ?t) mod length (itens_f f)"
    by (simp add: fila_inv_fim)
  then have "rotate ?m ((itens_f f)[nat (fim f) := p]) = (rotate ?m (itens_f f))[?t := p]"
    using t by (simp add: rotate_list_update)
  moreover have "nat (total_f f + 1) = Suc ?t" using t by simp
  ultimately have "fila_lista f' = take (Suc ?t) ((rotate ?m (itens_f f))[?t := p])"
    using inv' by (simp add: fila_lista_rotate f')
  also have "\<dots> = take ?t (rotate ?m (itens_f f)) @ [p]"
    using t by (simp add: take_Suc_update)
  finally show ?thesis using assms(1) by (simp add: fila_lista_rotate)
qed


lemma dequeue_vazia: "filaVazia f \<Longrightarrow> dequeue f out = Some (False, None, f)"
  by (simp add: dequeue_def)

lemma fila_nao_vazia_nat:
  "fila_inv f \<Longrightarrow> \<not> filaVazia f \<Longrightarrow> 0 < nat (total_f f) \<and> 0 < total_f f"
  by (auto simp: fila_inv_def filaVazia_def)

lemma fila_inv_inicio: "fila_inv f \<Longrightarrow> in_bounds (itens_f f) (inicio f)"
  by (simp add: fila_inv_def in_bounds_def)

lemma dequeue_ok:
  assumes "fila_inv f" "\<not> filaVazia f"
  shows "dequeue f out =
     Some (True, if out then Some (itens_f f ! nat (inicio f)) else None,
           f\<lparr>inicio := (inicio f + 1) mod MAX_FILA, total_f := total_f f - 1\<rparr>)"
  using assms fila_inv_nat [OF assms(1)] fila_inv_inicio [OF assms(1)]
  by (simp add: dequeue_def)

lemma fila_inv_dequeue:
  assumes "fila_inv f" "dequeue f out = Some (ok, w, f')"
  shows "fila_inv f'"
proof (cases "filaVazia f")
  case True
  with assms show ?thesis by (simp add: dequeue_vazia)
next
  case False
  with assms have "f' = f\<lparr>inicio := (inicio f + 1) mod MAX_FILA, total_f := total_f f - 1\<rparr>"
    by (simp add: dequeue_ok)
  with assms(1) False show ?thesis
    by (simp add: fila_inv_def filaVazia_def mod_simps)
qed

lemma fila_lista_dequeue:
  assumes "fila_inv f" "\<not> filaVazia f" "dequeue f out = Some (ok, w, f')"
  shows "fila_lista f' = tl (fila_lista f)"
proof -
  let ?t = "nat (total_f f)" and ?m = "nat (inicio f)"
  from assms have f': "f' = f\<lparr>inicio := (inicio f + 1) mod MAX_FILA, total_f := total_f f - 1\<rparr>"
    by (simp add: dequeue_ok)
  have inv': "fila_inv f'" by (rule fila_inv_dequeue [OF assms(1,3)])
  note n = fila_inv_nat [OF assms(1)]
  from assms(1,2) have t: "0 < ?t" by (simp add: fila_nao_vazia_nat)
  have "nat ((inicio f + 1) mod 5) = Suc ?m mod length (itens_f f)"
    using n by (simp add: nat_add_mod)
  then have "rotate (nat ((inicio f + 1) mod 5)) (itens_f f) = rotate (Suc ?m) (itens_f f)"
    by (simp only: rotate_conv_mod [symmetric])
  moreover have "nat (total_f f - 1) = ?t - 1" by simp
  ultimately have "fila_lista f' = take (?t - 1) (rotate (Suc ?m) (itens_f f))"
    using inv' by (simp add: fila_lista_rotate f')
  also have "\<dots> = tl (take ?t (rotate ?m (itens_f f)))"
    using t n by (intro take_rotate_Suc) simp_all
  finally show ?thesis using assms(1) by (simp add: fila_lista_rotate)
qed

lemma hd_fila_lista:
  assumes "fila_inv f" "\<not> filaVazia f"
  shows "hd (fila_lista f) = itens_f f ! nat (inicio f)"
proof -
  note n = fila_inv_nat [OF assms(1)]
  from assms have "0 < nat (total_f f)" by (simp add: fila_nao_vazia_nat)
  moreover from n have "itens_f f \<noteq> []" by auto
  ultimately have "hd (take (nat (total_f f)) (rotate (nat (inicio f)) (itens_f f))) =
      itens_f f ! (nat (inicio f) mod length (itens_f f))"
    by (rule hd_take_rotate)
  with assms(1) n show ?thesis by (simp add: fila_lista_rotate)
qed

lemma fila_lista_eq_Nil: "fila_inv f \<Longrightarrow> fila_lista f = [] \<longleftrightarrow> filaVazia f"
  by (auto simp: fila_lista_def filaVazia_def fila_inv_def)


lemma reabastecerFila_cheia: "filaCheia f \<Longrightarrow> reabastecerFila f g = Some (f, g)"
  by (simp add: reabastecerFila.simps)

lemma reabastecerFila_passo:
  "\<not> filaCheia f \<Longrightarrow> reabastecerFila f g =
     do { (p, g1) \<leftarrow> gerarPeca g; (ok, f1) \<leftarrow> enqueue f p; reabastecerFila f1 g1 }"
  by (subst reabastecerFila.simps) simp

lemma inicio_enqueue: "enqueue f p = Some (ok, f') \<Longrightarrow> inicio f' = inicio f"
  by (auto simp: enqueue_def ub_bind_eq_Some split: if_splits)

lemma reabastecerFila_completa:
  assumes "fila_inv f" "gerador_inv g" "proxId g + int (faltam f) \<le> INT_MAX"
  shows "\<exists>f'. reabastecerFila f g = Some (f', avanca_n (faltam f) g) \<and>
            fila_inv f' \<and> filaCheia f' \<and> inicio f' = inicio f \<and>
            fila_lista f' = fila_lista f @ pecas_de g (faltam f)"
  using assms
proof (induction "faltam f" arbitrary: f g)
  case 0
  then have "filaCheia f" by (simp add: faltam_def filaCheia_def fila_inv_def)
  with 0 show ?case by (simp add: reabastecerFila_cheia)
next
  case (Suc n)
  from Suc.hyps(2) have nc: "\<not> filaCheia f" by (auto simp: faltam_def filaCheia_def)
  from Suc.hyps(2) Suc.prems have lt: "proxId g < INT_MAX" by simp
  let ?f1 = "f\<lparr>itens_f := (itens_f f)[nat (fim f) := proxima_peca g],
                 fim := (fim f + 1) mod MAX_FILA, total_f := total_f f + 1\<rparr>"
  have enq: "enqueue f (proxima_peca g) = Some (True, ?f1)"
    using Suc.prems(1) nc by (rule enqueue_ok)
  have inv1: "fila_inv ?f1" by (rule fila_inv_enqueue [OF Suc.prems(1) enq])
  have n: "n = faltam ?f1" using Suc.hyps(2) by (simp add: faltam_def)
  have "\<exists>f'. reabastecerFila ?f1 (avanca g) = Some (f', avanca_n (faltam ?f1) (avanca g)) \<and>
            fila_inv f' \<and> filaCheia f' \<and> inicio f' = inicio ?f1 \<and>
            fila_lista f' = fila_lista ?f1 @ pecas_de (avanca g) (faltam ?f1)"
    using n inv1 Suc.prems(2,3) lt Suc.hyps(2)
    by (intro Suc.hyps(1)) (simp_all add: gerador_inv_avanca)
  then obtain f' where f': "reabastecerFila ?f1 (avanca g) = Some (f', avanca_n n (avanca g))"
      "fila_inv f'" "filaCheia f'" "inicio f' = inicio f"
      "fila_lista f' = fila_lista ?f1 @ pecas_de (avanca g) n"
    using n by auto
  have "fila_lista ?f1 = fila_lista f @ [proxima_peca g]"
    using Suc.prems(1) nc enq by (rule fila_lista_enqueue)
  with f' nc enq lt Suc.prems(2) Suc.hyps(2) [symmetric] show ?case
    by (simp add: reabastecerFila_passo pecas_de_Suc avanca_n_Suc)
qed

section \<open>Refinement of the abstract queue\<close>

lemma enqueue_refina:
  assumes "fila_inv f"
  shows "map_option (\<lambda>(ok, f'). (ok, fila_lista f')) (enqueue f p) =
           Some (esp_enqueue 5 (fila_lista f) p)"
proof (cases "filaCheia f")
  case True
  with assms show ?thesis
    by (simp add: enqueue_cheia esp_enqueue_def filaCheia_def fila_inv_nat)
next
  case False
  have "nat (total_f f) \<noteq> 5" using fila_nao_cheia_nat [OF assms False] by simp
  moreover from assms False
  have "fila_lista (snd (the (enqueue f p))) = fila_lista f @ [p]"
    by (intro fila_lista_enqueue [where ok = True]) (simp_all add: enqueue_ok)
  ultimately show ?thesis using assms False
    by (simp add: enqueue_ok esp_enqueue_def)
qed

lemma dequeue_refina:
  assumes "fila_inv f"
  shows "map_option (\<lambda>(ok, w, f'). (ok, w, fila_lista f')) (dequeue f True) =
           Some (esp_dequeue (fila_lista f))"
proof (cases "filaVazia f")
  case True
  with assms have "fila_lista f = []" by (simp add: fila_lista_eq_Nil)
  with True show ?thesis by (simp add: dequeue_vazia)
next
  case False
  with assms have "fila_lista f \<noteq> []" by (simp add: fila_lista_eq_Nil)
  moreover from assms False
  have "fila_lista (snd (snd (the (dequeue f True)))) = tl (fila_lista f)"
    by (intro fila_lista_dequeue [where ok = True and out = True]) (simp_all add: dequeue_ok)
  ultimately show ?thesis using assms False
    by (simp add: dequeue_ok esp_dequeue_eq hd_fila_lista)
qed


lemma fila_run_esp:
  assumes "fila_inv f"
  shows "map_option (\<lambda>(ws, f'). (ws, fila_lista f')) (fila_run ops f) =
           Some (esp_fila_run 5 ops (fila_lista f))"
  using assms
proof (induction ops arbitrary: f)
  case Nil
  show ?case by simp
next
  case (Cons a ops)
  show ?case
  proof (cases a)
    case (Enq p)
    from enqueue_refina [OF Cons.prems, of p]
    obtain ok f1 where e: "enqueue f p = Some (ok, f1)"
        "esp_enqueue 5 (fila_lista f) p = (ok, fila_lista f1)"
      by (auto simp: map_option_case split: option.splits)
    from Cons.prems e(1) have "fila_inv f1" by (rule fila_inv_enqueue)
    then show ?thesis using Cons.IH [of f1] e Enq by simp
  next
    case Deq
    from dequeue_refina [OF Cons.prems]
    obtain ok w f1 where d: "dequeue f True = Some (ok, w, f1)"
        "esp_dequeue (fila_lista f) = (ok, w, fila_lista f1)"
      by (auto simp: map_option_case split: option.splits)
    from Cons.prems d(1) have "fila_inv f1" by (rule fila_inv_dequeue)
    then show ?thesis using Cons.IH [of f1] d Deq
      by (cases "esp_fila_run 5 ops (fila_lista f1)")
        (auto simp: map_option_case split: option.splits)
  qed
qed

lemma fila_inv_fila_run:
  "fila_inv f \<Longrightarrow> fila_run ops f = Some (ws, f') \<Longrightarrow> fila_inv f'"
proof (induction ops arbitrary: f ws)
  case Nil
  then show ?case by simp
next
  case (Cons a ops)
  show ?case
  proof (cases a)
    case (Enq p)
    with Cons.prems obtain ok f1 where "enqueue f p = Some (ok, f1)" "fila_run ops f1 = Some (ws, f')"
      by (auto simp: ub_bind_eq_Some)
    with Cons.prems(1) show ?thesis by (blast intro: Cons.IH fila_inv_enqueue)
  next
    case Deq
    with Cons.prems obtain ok w f1 vs where "dequeue f True = Some (ok, w, f1)"
        "fila_run ops f1 = Some (vs, f')"
      by (auto simp: ub_bind_eq_Some)
    with Cons.prems(1) show ?thesis by (blast intro: Cons.IH fila_inv_dequeue)
  qed
qed

lemma filaAt_fora: "i < 0 \<or> total_f f \<le> i \<Longrightarrow> filaAt f i = Some None"
  by (auto simp: filaAt_def)

lemma filaAt_dentro:
  assumes "fila_inv f" "0 \<le> i" "i < total_f f"
  shows "filaAt f i = Some (Some ((inicio f + i) mod MAX_FILA))"
  using assms fila_inv_nat [OF assms(1)]
  by (simp add: filaAt_def in_bounds_def)

lemma nth_fila_lista:
  "i < nat (total_f f) \<Longrightarrow>
     fila_lista f ! i = itens_f f ! nat (c_mod (inicio f + int i) MAX_FILA)"
  by (simp add: fila_lista_def)

lemma filaAt_refina:
  assumes "fila_inv f"
  shows "map_option (lerSlot f) (filaAt f i) = Some (esp_peekAt (fila_lista f) i)"
proof (cases "0 \<le> i \<and> i < total_f f")
  case True
  note n = fila_inv_nat [OF assms]
  from True n have "in_bounds (itens_f f) ((inicio f + i) mod 5)"
    by (simp add: in_bounds_def)
  moreover from True n have "fila_lista f ! nat i = itens_f f ! nat ((inicio f + i) mod 5)"
    by (simp add: nth_fila_lista)
  ultimately show ?thesis using True assms
    by (simp add: filaAt_dentro lerSlot_def esp_peekAt_def)
next
  case False
  then show ?thesis
    by (auto simp: filaAt_fora lerSlot_def esp_peekAt_def)
qed

lemma fila_inv_inicializar:
  "length (itens_f f) = 5 \<Longrightarrow>
     fila_inv (inicializarFila f) \<and> fila_lista (inicializarFila f) = []"
  by (simp add: fila_inv_def inicializarFila_def fila_lista_def)

lemma fila_inv_reabastecer:
  "fila_inv f \<Longrightarrow> reabastecerFila f g = Some (f', g') \<Longrightarrow> fila_inv f' \<and> filaCheia f'"
proof (induction f g rule: reabastecerFila.induct)
  case (1 f g)
  show ?case
  proof (cases "filaCheia f")
    case True
    with "1.prems" show ?thesis by (simp add: reabastecerFila_cheia)
  next
    case False
    with "1.prems"(2) obtain p g1 ok f1 where s: "gerarPeca g = Some (p, g1)"
        "enqueue f p = Some (ok, f1)" "reabastecerFila f1 g1 = Some (f', g')"
      by (auto simp: reabastecerFila_passo ub_bind_eq_Some)
    from "1.prems"(1) s(2) have "fila_inv f1" by (rule fila_inv_enqueue)
    with False s show ?thesis
      by (intro "1.IH" [of "(p, g1)" p g1 "(ok, f1)" ok f1]) simp_all
  qed
qed

lemma fila_ex_campos:
  "inicio fila_ex = 3" "fim fila_ex = 1" "total_f fila_ex = 3" "length (itens_f fila_ex) = 5"
  by (simp_all add: fila_ex_def)

lemma fila_inv_ex: "fila_inv fila_ex"
  by (simp add: fila_inv_def fila_ex_def)

lemma fila_lista_ex:
  "fila_lista fila_ex = [peca_ex CHR ''S'' 4, peca_ex CHR ''I'' 5, peca_ex CHR ''Z'' 6]"
  by (simp add: op_defs c_defs fila_ex_def upt_conv_Cons nat_numeral)

lemma total_fila_lista: "fila_inv f \<Longrightarrow> total_f f = int (length (fila_lista f))"
  by (simp add: fila_inv_nat)

section \<open>Theorems\<close>

text \<open>
  Claim C2. Refinement: from a queue that satisfies the representation invariant,
  every sequence of \<^verbatim>\<open>enqueue\<close> and \<^verbatim>\<open>dequeue\<close> calls is free of undefined
  behaviour, ends in a queue that satisfies the invariant, and delivers the
  pieces and leaves the contents that the abstract bounded queue of capacity 5
  prescribes.
\<close>

theorem fila_refinamento:
  assumes "fila_inv f"
  shows "\<exists>ws f'. fila_run ops f = Some (ws, f') \<and> fila_inv f' \<and>
           (ws, fila_lista f') = esp_fila_run 5 ops (fila_lista f)"
proof -
  from fila_run_esp [OF assms, of ops]
  obtain ws f' where r: "fila_run ops f = Some (ws, f')"
      "(ws, fila_lista f') = esp_fila_run 5 ops (fila_lista f)"
    by (auto simp: map_option_case split: option.splits)
  from assms r(1) have "fila_inv f'" by (rule fila_inv_fila_run)
  with r show ?thesis by blast
qed

theorem fila_refinamento_witness:
  "fila_inv fila_ex \<and>
   (\<exists>ws f'. fila_run [Deq, Enq (peca_ex CHR ''L'' 7), Enq (peca_ex CHR ''J'' 8),
                       Enq (peca_ex CHR ''O'' 9), Deq] fila_ex = Some (ws, f') \<and>
      fila_inv f' \<and>
      (ws, fila_lista f') =
        ([Some (peca_ex CHR ''S'' 4), Some (peca_ex CHR ''I'' 5)],
         [peca_ex CHR ''Z'' 6, peca_ex CHR ''L'' 7, peca_ex CHR ''J'' 8, peca_ex CHR ''O'' 9]))"
  using fila_refinamento [OF fila_inv_ex,
      of "[Deq, Enq (peca_ex CHR ''L'' 7), Enq (peca_ex CHR ''J'' 8),
           Enq (peca_ex CHR ''O'' 9), Deq]"]
  by (simp add: fila_inv_ex fila_lista_ex esp_enqueue_def)

text \<open>
  Claim C13. The representation invariant of the queue is preserved by every
  operation that changes it: it holds of the queue that \<^verbatim>\<open>enqueue\<close>, \<^verbatim>\<open>dequeue\<close>
  (with or without a destination) or \<^verbatim>\<open>reabastecerFila\<close> returns, whenever the
  call returns from a queue that satisfies it.
\<close>

theorem fila_invariante:
  assumes "fila_inv f"
  shows "(\<forall>p ok f'. enqueue f p = Some (ok, f') \<longrightarrow> fila_inv f') \<and>
         (\<forall>out ok w f'. dequeue f out = Some (ok, w, f') \<longrightarrow> fila_inv f') \<and>
         (\<forall>g f' g'. reabastecerFila f g = Some (f', g') \<longrightarrow> fila_inv f')"
  using assms by (blast intro: fila_inv_enqueue fila_inv_dequeue dest: fila_inv_reabastecer)

theorem fila_invariante_witness:
  "fila_inv fila_ex \<and>
   enqueue fila_ex (peca_ex CHR ''L'' 7) =
     Some (True, fila_ex\<lparr>itens_f := (itens_f fila_ex)[1 := peca_ex CHR ''L'' 7],
                          fim := 2, total_f := 4\<rparr>) \<and>
   fila_inv (fila_ex\<lparr>itens_f := (itens_f fila_ex)[1 := peca_ex CHR ''L'' 7],
                      fim := 2, total_f := 4\<rparr>)"
proof -
  have e: "enqueue fila_ex (peca_ex CHR ''L'' 7) =
     Some (True, fila_ex\<lparr>itens_f := (itens_f fila_ex)[1 := peca_ex CHR ''L'' 7],
                          fim := 2, total_f := 4\<rparr>)"
    by (simp add: enqueue_def filaCheia_def fila_ex_def in_bounds_def)
  with fila_invariante [OF fila_inv_ex] show ?thesis
    by (simp add: fila_inv_ex)
qed

text \<open>
  Claim C29. First-in first-out order: enqueueing three pieces into an empty
  queue and dequeueing three times delivers them in the order they were
  enqueued and leaves the queue empty, wherever the head index stands.
\<close>

theorem fila_fifo_tres:
  assumes "fila_inv f" "filaVazia f"
  shows "map_option (\<lambda>(ws, f'). (ws, fila_lista f'))
           (fila_run [Enq p1, Enq p2, Enq p3, Deq, Deq, Deq] f) =
         Some ([Some p1, Some p2, Some p3], [])"
proof -
  from assms have "fila_lista f = []" by (simp add: fila_lista_eq_Nil)
  moreover have "esp_fila_run 5 (map Enq [p1, p2, p3] @ replicate (length [p1, p2, p3]) Deq) [] =
      (map Some [p1, p2, p3], [])"
    by (rule esp_fifo) simp
  ultimately show ?thesis
    using fila_run_esp [OF assms(1), of "[Enq p1, Enq p2, Enq p3, Deq, Deq, Deq]"]
    by (simp add: numeral_3_eq_3)
qed

theorem fila_fifo_tres_witness:
  "fila_inv (fila_ex\<lparr>fim := 3, total_f := 0\<rparr>) \<and> filaVazia (fila_ex\<lparr>fim := 3, total_f := 0\<rparr>) \<and>
   map_option (\<lambda>(ws, f'). (ws, fila_lista f'))
     (fila_run [Enq (peca_ex CHR ''I'' 1), Enq (peca_ex CHR ''O'' 2), Enq (peca_ex CHR ''T'' 3),
                Deq, Deq, Deq] (fila_ex\<lparr>fim := 3, total_f := 0\<rparr>)) =
   Some ([Some (peca_ex CHR ''I'' 1), Some (peca_ex CHR ''O'' 2), Some (peca_ex CHR ''T'' 3)], [])"
  using fila_fifo_tres [of "fila_ex\<lparr>fim := 3, total_f := 0\<rparr>"
      "peca_ex CHR ''I'' 1" "peca_ex CHR ''O'' 2" "peca_ex CHR ''T'' 3"]
  by (simp add: fila_inv_def filaVazia_def fila_ex_def)

text \<open>
  Claim C5. Refill: from a queue that satisfies the invariant, with room left in
  \<^verbatim>\<open>int\<close> for the identifiers of the missing pieces, \<^verbatim>\<open>reabastecerFila\<close>
  terminates without undefined behaviour in a full queue whose contents are the
  old contents followed by the pieces of as many calls of \<^verbatim>\<open>gerarPeca\<close> as were
  missing, and leaves the generator advanced by that many calls.
\<close>

theorem reabastecer_enche:
  assumes "fila_inv f" "gerador_inv g" "proxId g + int (faltam f) \<le> INT_MAX"
  shows "map_option (\<lambda>(f', g'). (fila_lista f', total_f f', g')) (reabastecerFila f g) =
           Some (fila_lista f @ pecas_de g (faltam f), MAX_FILA, avanca_n (faltam f) g)"
proof -
  from reabastecerFila_completa [OF assms]
  obtain f' where "reabastecerFila f g = Some (f', avanca_n (faltam f) g)" "filaCheia f'"
      "fila_lista f' = fila_lista f @ pecas_de g (faltam f)"
    by blast
  then show ?thesis by (simp add: filaCheia_def)
qed

theorem reabastecer_enche_witness:
  "fila_inv fila_ex \<and> gerador_inv (gerador_inicial (\<lambda>n. 2 * n)\<lparr>proxId := 7\<rparr>) \<and>
   map_option (\<lambda>(f', g'). (fila_lista f', total_f f', g'))
     (reabastecerFila fila_ex (gerador_inicial (\<lambda>n. 2 * n)\<lparr>proxId := 7\<rparr>)) =
   Some ([peca_ex CHR ''S'' 4, peca_ex CHR ''I'' 5, peca_ex CHR ''Z'' 6,
          peca_ex CHR ''I'' 7, peca_ex CHR ''T'' 8],
         5, \<lparr>proxId = 9, semente = \<lambda>n. 2 * n, sorteios = 2\<rparr>)"
proof -
  let ?g = "gerador_inicial (\<lambda>n. 2 * n)\<lparr>proxId := 7\<rparr>"
  have g: "gerador_inv ?g" and f: "faltam fila_ex = 2"
    by (simp_all add: gerador_inv_def faltam_def fila_ex_def)
  have "pecas_de ?g 2 = [peca_ex CHR ''I'' 7, peca_ex CHR ''T'' 8]"
    by (simp add: pecas_de_def gerador_inicial_def peca_ex_def TIPOS_def numeral_2_eq_2)
  moreover have "avanca_n 2 ?g = \<lparr>proxId = 9, semente = \<lambda>n. 2 * n, sorteios = 2\<rparr>"
    by (simp add: avanca_n_def gerador_inicial_def)
  ultimately show ?thesis
    using reabastecer_enche [OF fila_inv_ex g] f
    by (simp add: fila_inv_ex fila_lista_ex gerador_inicial_def gerador_inv_def)
qed

text \<open>
  Claim C33. \<^verbatim>\<open>filaAt\<close>: on a queue that satisfies the invariant the call is
  defined; it returns \<^verbatim>\<open>NULL\<close> exactly when the position is negative or not
  below the count, and otherwise a pointer to a slot of the array that holds the
  piece at that position from the front.
\<close>

theorem filaAt_correta:
  assumes "fila_inv f"
  shows "map_option (lerSlot f) (filaAt f i) = Some (esp_peekAt (fila_lista f) i) \<and>
         (filaAt f i = Some None \<longleftrightarrow> i < 0 \<or> total_f f \<le> i)"
proof -
  have "filaAt f i = Some None \<longleftrightarrow> i < 0 \<or> total_f f \<le> i"
    using assms by (cases "0 \<le> i \<and> i < total_f f") (auto simp: filaAt_dentro filaAt_fora)
  with filaAt_refina [OF assms, of i] show ?thesis by simp
qed

theorem filaAt_correta_witness:
  "fila_inv fila_ex \<and> filaAt fila_ex 2 = Some (Some 0) \<and>
   lerSlot fila_ex (Some 0) = Some (peca_ex CHR ''Z'' 6) \<and> filaAt fila_ex 3 = Some None"
  using filaAt_correta [OF fila_inv_ex, of 2] filaAt_correta [OF fila_inv_ex, of 3]
  by (simp add: fila_inv_ex fila_lista_ex esp_peekAt_def)
    (simp add: filaAt_def fila_ex_def in_bounds_def lerSlot_def)

text \<open>
  Claim C31. Memory safety of the queue: on a queue that satisfies the invariant
  no call of \<^verbatim>\<open>enqueue\<close>, \<^verbatim>\<open>dequeue\<close> or \<^verbatim>\<open>filaAt\<close> accesses the array outside
  its bounds or overflows an \<^verbatim>\<open>int\<close>.
\<close>

theorem fila_operacoes_definidas:
  assumes "fila_inv f"
  shows "enqueue f p \<noteq> None \<and> dequeue f out \<noteq> None \<and> filaAt f i \<noteq> None"
proof -
  have "enqueue f p \<noteq> None"
    using assms by (cases "filaCheia f") (simp_all add: enqueue_cheia enqueue_ok)
  moreover have "dequeue f out \<noteq> None"
    using assms by (cases "filaVazia f") (simp_all add: dequeue_vazia dequeue_ok)
  moreover have "filaAt f i \<noteq> None"
    using assms by (cases "0 \<le> i \<and> i < total_f f") (auto simp: filaAt_dentro filaAt_fora)
  ultimately show ?thesis by simp
qed

theorem fila_operacoes_definidas_witness:
  "fila_inv fila_ex \<and> enqueue fila_ex (peca_ex CHR ''L'' 7) \<noteq> None \<and>
   dequeue fila_ex True \<noteq> None \<and> filaAt fila_ex 1 \<noteq> None \<and>
   \<not> fila_inv (fila_ex\<lparr>fim := 7\<rparr>) \<and> enqueue (fila_ex\<lparr>fim := 7\<rparr>) (peca_ex CHR ''L'' 7) = None"
  using fila_operacoes_definidas [OF fila_inv_ex, of "peca_ex CHR ''L'' 7" True 1]
  by (simp add: fila_inv_ex)
    (simp add: fila_inv_def enqueue_def filaCheia_def fila_ex_def in_bounds_def)

section \<open>Removal followed by refill\<close>

text \<open>
  What \<^verbatim>\<open>main\<close> does in the turns that take a piece from the queue: the front
  piece is delivered and the queue is topped up as the specification's
  \<open>esp_refill\<close> prescribes.
\<close>

lemma faltam_lista: "fila_inv f \<Longrightarrow> faltam f = 5 - length (fila_lista f)"
  by (auto simp: faltam_def dest: fila_inv_nat)

lemma reabastecerFila_estoura:
  assumes "fila_inv f" "gerador_inv g" "INT_MAX < proxId g + int (faltam f)"
  shows "reabastecerFila f g = None"
  using assms
proof (induction "faltam f" arbitrary: f g)
  case 0
  then show ?case by (simp add: gerador_inv_def)
next
  case (Suc n)
  from Suc.hyps(2) have nc: "\<not> filaCheia f" by (auto simp: faltam_def filaCheia_def)
  show ?case
  proof (cases "proxId g = INT_MAX")
    case True
    then have "gerarPeca g = None" using Suc.prems(2) by (simp add: gerarPeca_None)
    then show ?thesis using nc by (simp add: reabastecerFila_passo)
  next
    case False
    then have lt: "proxId g < INT_MAX" using Suc.prems(2) by (simp add: gerador_inv_def)
    let ?f1 = "f\<lparr>itens_f := (itens_f f)[nat (fim f) := proxima_peca g],
                   fim := (fim f + 1) mod MAX_FILA, total_f := total_f f + 1\<rparr>"
    have enq: "enqueue f (proxima_peca g) = Some (True, ?f1)"
      using Suc.prems(1) nc by (rule enqueue_ok)
    have inv1: "fila_inv ?f1" by (rule fila_inv_enqueue [OF Suc.prems(1) enq])
    have n: "n = faltam ?f1" using Suc.hyps(2) by (simp add: faltam_def)
    have "reabastecerFila ?f1 (avanca g) = None"
      using n inv1 Suc.prems(2,3) lt Suc.hyps(2)
      by (intro Suc.hyps(1)) (simp_all add: gerador_inv_avanca)
    then show ?thesis
      using nc enq lt Suc.prems(2) by (simp add: reabastecerFila_passo)
  qed
qed

lemma dequeue_frente:
  assumes "fila_inv f" "\<not> filaVazia f"
  shows "\<exists>f1. dequeue f True = Some (True, Some (hd (fila_lista f)), f1) \<and> fila_inv f1 \<and>
           fila_lista f1 = tl (fila_lista f) \<and> faltam f1 = Suc (faltam f)"
proof -
  let ?f1 = "f\<lparr>inicio := (inicio f + 1) mod MAX_FILA, total_f := total_f f - 1\<rparr>"
  have d: "dequeue f True = Some (True, Some (hd (fila_lista f)), ?f1)"
    using assms by (simp add: dequeue_ok hd_fila_lista)
  moreover have "faltam ?f1 = Suc (faltam f)"
    using fila_inv_nat [OF assms(1)] by (simp add: faltam_def)
  ultimately show ?thesis
    using fila_inv_dequeue [OF assms(1) d] fila_lista_dequeue [OF assms d] by simp
qed

lemma dequeue_reabastece:
  assumes "fila_inv f" "\<not> filaVazia f" "gerador_inv g" "proxId g + int (faltam f) < INT_MAX"
  shows "\<exists>f1 f2 g2. dequeue f True = Some (True, Some (hd (fila_lista f)), f1) \<and>
           reabastecerFila f1 g = Some (f2, g2) \<and> fila_inv f2 \<and> filaCheia f2 \<and>
           gerador_inv g2 \<and>
           (fila_lista f2, g2) = esp_refill 5 (tl (fila_lista f)) g"
proof -
  from dequeue_frente [OF assms(1,2)]
  obtain f1 where d: "dequeue f True = Some (True, Some (hd (fila_lista f)), f1)" "fila_inv f1"
      "fila_lista f1 = tl (fila_lista f)" "faltam f1 = Suc (faltam f)"
    by blast
  have n: "faltam f1 = 5 - length (tl (fila_lista f))"
    using faltam_lista [OF d(2)] by (simp add: d(3))
  have "proxId g + int (faltam f1) \<le> INT_MAX" using assms(4) d(4) by simp
  from reabastecerFila_completa [OF d(2) assms(3) this] gerador_inv_avanca_n [OF assms(3) this]
  show ?thesis using d(1) by (auto simp: esp_refill_def d(3) n)
qed

lemma dequeue_reabastece_estoura:
  assumes "fila_inv f" "\<not> filaVazia f" "gerador_inv g" "\<not> proxId g + int (faltam f) < INT_MAX"
  shows "\<exists>f1. dequeue f True = Some (True, Some (hd (fila_lista f)), f1) \<and>
           reabastecerFila f1 g = None"
proof -
  from dequeue_frente [OF assms(1,2)]
  obtain f1 where d: "dequeue f True = Some (True, Some (hd (fila_lista f)), f1)" "fila_inv f1"
      "faltam f1 = Suc (faltam f)"
    by blast
  have "INT_MAX < proxId g + int (faltam f1)" using assms(4) d(3) by simp
  from reabastecerFila_estoura [OF d(2) assms(3) this] d(1) show ?thesis by blast
qed

end
