(* ===== verification/Pilha_Linear.thy ===== *)
theory Pilha_Linear
  imports Especificacao
begin

text \<open>
  The reserve stack (\<^verbatim>\<open>Pilha\<close> and its functions in \<^verbatim>\<open>src/tetris.c\<close>): a record
  of the array and the index of the top, one definition per C function, the
  representation invariant \<open>pilha_inv\<close>, and the contents of the stack as a
  list, base first (\<open>pilha_lista\<close>, the traversal that \<^verbatim>\<open>mostrarPilha\<close> performs).
\<close>

section \<open>Data\<close>

abbreviation (input) MAX_PILHA :: int where
  "MAX_PILHA \<equiv> 3"

record Pilha =
  itens_p :: "Peca list"
  topo :: int

section \<open>Operations\<close>

definition inicializarPilha :: "Pilha \<Rightarrow> Pilha" where
  "inicializarPilha p = p\<lparr>topo := - 1\<rparr>"

definition pilhaVazia :: "Pilha \<Rightarrow> bool" where
  "pilhaVazia p \<longleftrightarrow> topo p = - 1"

definition pilhaCheia :: "Pilha \<Rightarrow> bool" where
  "pilhaCheia p \<longleftrightarrow> topo p = MAX_PILHA - 1"

definition push :: "Pilha \<Rightarrow> Peca \<Rightarrow> (bool \<times> Pilha) ub" where
  "push p x =
     (if pilhaCheia p then Some (False, p)
      else do {
        t \<leftarrow> c_add (topo p) 1;
        a \<leftarrow> arr_write (itens_p p) t x;
        Some (True, p\<lparr>topo := t, itens_p := a\<rparr>)
      })"

definition pop :: "Pilha \<Rightarrow> bool \<Rightarrow> (bool \<times> Peca option \<times> Pilha) ub" where
  "pop p out =
     (if pilhaVazia p then Some (False, None, p)
      else do {
        w \<leftarrow> (if out then map_option Some (arr_read (itens_p p) (topo p)) else Some None);
        t \<leftarrow> c_sub (topo p) 1;
        Some (True, w, p\<lparr>topo := t\<rparr>)
      })"

definition topoPilha :: "Pilha \<Rightarrow> int option ub" where
  "topoPilha p =
     (if pilhaVazia p then Some None
      else if in_bounds (itens_p p) (topo p) then Some (Some (topo p)) else None)"

text \<open>
  A client that calls \<^verbatim>\<open>push\<close> and \<^verbatim>\<open>pop\<close> in sequence, every \<^verbatim>\<open>pop\<close> with a
  destination for the piece.
\<close>

fun pilha_run :: "Peca op_pilha list \<Rightarrow> Pilha \<Rightarrow> (Peca option list \<times> Pilha) ub" where
  "pilha_run [] p = Some ([], p)"
| "pilha_run (Push x # ops) p = do { (ok, p1) \<leftarrow> push p x; pilha_run ops p1 }"
| "pilha_run (Pop # ops) p =
     do {
       (ok, w, p1) \<leftarrow> pop p True;
       (ws, p2) \<leftarrow> pilha_run ops p1;
       Some (w # ws, p2)
     }"

section \<open>Invariant and abstraction\<close>

definition pilha_inv :: "Pilha \<Rightarrow> bool" where
  "pilha_inv p \<longleftrightarrow> length (itens_p p) = 3 \<and> - 1 \<le> topo p \<and> topo p \<le> MAX_PILHA - 1"

text \<open>
  The contents of the stack, base first: the slots \<^verbatim>\<open>0\<close> to \<^verbatim>\<open>topo\<close>, in the
  order \<^verbatim>\<open>mostrarPilha\<close> visits them.
\<close>

definition pilha_lista :: "Pilha \<Rightarrow> Peca list" where
  "pilha_lista p = map (\<lambda>i. itens_p p ! i) [0..<nat (topo p + 1)]"

definition lerTopo :: "Pilha \<Rightarrow> int option \<Rightarrow> Peca option" where
  "lerTopo p ptr = Option.bind ptr (arr_read (itens_p p))"

text \<open>A stack with two pieces, used to instantiate the theorems.\<close>

definition pilha_ex :: Pilha where
  "pilha_ex =
     \<lparr>itens_p = [\<lparr>tipo = CHR ''J'', id_peca = 1\<rparr>, \<lparr>tipo = CHR ''L'', id_peca = 2\<rparr>,
                 \<lparr>tipo = CHR ''O'', id_peca = 9\<rparr>],
      topo = 1\<rparr>"

lemmas [inv_defs] = pilha_inv_def
lemmas [op_defs] = inicializarPilha_def pilhaVazia_def pilhaCheia_def push_def pop_def
  topoPilha_def pilha_lista_def lerTopo_def

section \<open>Consequences of the invariant\<close>

lemma pilha_inv_nat:
  assumes "pilha_inv p"
  shows "length (itens_p p) = 3" "nat (topo p + 1) \<le> 3" "- 1 \<le> topo p" "topo p \<le> 2"
  using assms by (auto simp: pilha_inv_def)

lemma pilha_lista_take:
  "pilha_inv p \<Longrightarrow> pilha_lista p = take (nat (topo p + 1)) (itens_p p)"
  by (simp add: pilha_lista_def map_nth_upt_take pilha_inv_nat)

lemma length_pilha_lista [simp]: "length (pilha_lista p) = nat (topo p + 1)"
  by (simp add: pilha_lista_def)

lemma pilha_lista_eq_Nil: "pilha_inv p \<Longrightarrow> pilha_lista p = [] \<longleftrightarrow> pilhaVazia p"
  by (auto simp: pilha_lista_def pilhaVazia_def pilha_inv_def)

lemma topo_pilha_lista: "pilha_inv p \<Longrightarrow> topo p = int (length (pilha_lista p)) - 1"
  by (simp add: pilha_inv_def)

lemma pilha_inv_inicializar:
  "length (itens_p p) = 3 \<Longrightarrow>
     pilha_inv (inicializarPilha p) \<and> pilha_lista (inicializarPilha p) = []"
  by (simp add: pilha_inv_def inicializarPilha_def pilha_lista_def)

section \<open>push\<close>

lemma push_cheia: "pilhaCheia p \<Longrightarrow> push p x = Some (False, p)"
  by (simp add: push_def)

lemma push_ok:
  assumes "pilha_inv p" "\<not> pilhaCheia p"
  shows "push p x =
     Some (True, p\<lparr>topo := topo p + 1, itens_p := (itens_p p)[nat (topo p + 1) := x]\<rparr>)"
proof -
  from assms have "- 1 \<le> topo p" "topo p < 2" "length (itens_p p) = 3"
    by (auto simp: pilha_inv_def pilhaCheia_def)
  then show ?thesis using assms(2)
    by (simp add: push_def in_bounds_def)
qed

lemma pilha_inv_push:
  assumes "pilha_inv p" "push p x = Some (ok, p')"
  shows "pilha_inv p'"
proof (cases "pilhaCheia p")
  case True
  with assms show ?thesis by (simp add: push_cheia)
next
  case False
  with assms have "p' = p\<lparr>topo := topo p + 1, itens_p := (itens_p p)[nat (topo p + 1) := x]\<rparr>"
    by (simp add: push_ok)
  with assms(1) False show ?thesis
    by (auto simp: pilha_inv_def pilhaCheia_def)
qed

lemma pilha_lista_push:
  assumes "pilha_inv p" "\<not> pilhaCheia p" "push p x = Some (ok, p')"
  shows "pilha_lista p' = pilha_lista p @ [x]"
proof -
  let ?n = "nat (topo p + 1)"
  from assms have p': "p' = p\<lparr>topo := topo p + 1, itens_p := (itens_p p)[?n := x]\<rparr>"
    by (simp add: push_ok)
  have inv': "pilha_inv p'" by (rule pilha_inv_push [OF assms(1,3)])
  from assms(1,2) have n: "?n < length (itens_p p)" "- 1 \<le> topo p"
    by (auto simp: pilha_inv_def pilhaCheia_def)
  then have "nat (topo p + 1 + 1) = Suc ?n" by simp
  then have "pilha_lista p' = take (Suc ?n) ((itens_p p)[?n := x])"
    using inv' by (simp add: pilha_lista_take p')
  also have "\<dots> = take ?n (itens_p p) @ [x]"
    using n by (simp add: take_Suc_update)
  finally show ?thesis using assms(1) by (simp add: pilha_lista_take)
qed

lemma push_refina:
  assumes "pilha_inv p"
  shows "map_option (\<lambda>(ok, p'). (ok, pilha_lista p')) (push p x) =
           Some (esp_push 3 (pilha_lista p) x)"
proof (cases "pilhaCheia p")
  case True
  then show ?thesis
    by (simp add: push_cheia esp_push_def pilhaCheia_def)
next
  case False
  with assms have "nat (topo p + 1) \<noteq> 3"
    by (auto simp: pilha_inv_def pilhaCheia_def)
  moreover from assms False
  have "pilha_lista (snd (the (push p x))) = pilha_lista p @ [x]"
    by (intro pilha_lista_push [where ok = True]) (simp_all add: push_ok)
  ultimately show ?thesis using assms False
    by (simp add: push_ok esp_push_def)
qed

section \<open>pop\<close>

lemma pop_vazia: "pilhaVazia p \<Longrightarrow> pop p out = Some (False, None, p)"
  by (simp add: pop_def)

lemma pop_ok:
  assumes "pilha_inv p" "\<not> pilhaVazia p"
  shows "pop p out =
     Some (True, if out then Some (itens_p p ! nat (topo p)) else None, p\<lparr>topo := topo p - 1\<rparr>)"
proof -
  from assms have "0 \<le> topo p" "topo p \<le> 2" "length (itens_p p) = 3"
    by (auto simp: pilha_inv_def pilhaVazia_def)
  then show ?thesis using assms(2)
    by (simp add: pop_def in_bounds_def)
qed

lemma pilha_inv_pop:
  assumes "pilha_inv p" "pop p out = Some (ok, w, p')"
  shows "pilha_inv p'"
proof (cases "pilhaVazia p")
  case True
  with assms show ?thesis by (simp add: pop_vazia)
next
  case False
  with assms have "p' = p\<lparr>topo := topo p - 1\<rparr>"
    by (simp add: pop_ok)
  with assms(1) False show ?thesis
    by (auto simp: pilha_inv_def pilhaVazia_def)
qed

lemma pop_refina:
  assumes "pilha_inv p"
  shows "map_option (\<lambda>(ok, w, p'). (ok, w, pilha_lista p')) (pop p True) =
           Some (esp_pop (pilha_lista p))"
proof (cases "pilhaVazia p")
  case True
  with assms have "pilha_lista p = []" by (simp add: pilha_lista_eq_Nil)
  with True show ?thesis by (simp add: pop_vazia)
next
  case False
  let ?n = "nat (topo p + 1)"
  from assms False have n: "0 < ?n" "?n \<le> length (itens_p p)" "0 \<le> topo p"
    by (auto simp: pilha_inv_def pilhaVazia_def)
  from assms False have ne: "pilha_lista p \<noteq> []" by (simp add: pilha_lista_eq_Nil)
  have inv': "pilha_inv (p\<lparr>topo := topo p - 1\<rparr>)"
    using assms False by (auto simp: pilha_inv_def pilhaVazia_def)
  have "last (take ?n (itens_p p)) = itens_p p ! (?n - 1)"
    using n by (intro last_take_nth)
  moreover have "butlast (take ?n (itens_p p)) = take (?n - 1) (itens_p p)"
    using n by (intro butlast_take_pred)
  moreover have "?n - 1 = nat (topo p)" using n by simp
  ultimately show ?thesis using assms False ne inv' n
    by (simp add: pop_ok esp_pop_def pilha_lista_take)
qed

section \<open>topoPilha\<close>

lemma topoPilha_eq:
  "pilha_inv p \<Longrightarrow> topoPilha p = Some (if pilhaVazia p then None else Some (topo p))"
  by (auto simp: topoPilha_def pilha_inv_def pilhaVazia_def in_bounds_def)

lemma topoPilha_refina:
  assumes "pilha_inv p"
  shows "map_option (lerTopo p) (topoPilha p) = Some (esp_peekTop (pilha_lista p))"
proof (cases "pilhaVazia p")
  case True
  with assms have "pilha_lista p = []" by (simp add: pilha_lista_eq_Nil)
  with True assms show ?thesis by (simp add: topoPilha_eq lerTopo_def esp_peekTop_def)
next
  case False
  let ?n = "nat (topo p + 1)"
  from assms False have n: "0 < ?n" "?n \<le> length (itens_p p)" "0 \<le> topo p"
    by (auto simp: pilha_inv_def pilhaVazia_def)
  from assms False have ne: "pilha_lista p \<noteq> []" by (simp add: pilha_lista_eq_Nil)
  have "last (take ?n (itens_p p)) = itens_p p ! (?n - 1)"
    using n by (intro last_take_nth)
  moreover have "?n - 1 = nat (topo p)" using n by simp
  moreover have "in_bounds (itens_p p) (topo p)"
    using n by (simp add: in_bounds_def)
  ultimately show ?thesis using assms False ne
    by (simp add: topoPilha_eq lerTopo_def esp_peekTop_def pilha_lista_take)
qed

section \<open>Runs\<close>

lemma pilha_run_esp:
  assumes "pilha_inv p"
  shows "map_option (\<lambda>(ws, p'). (ws, pilha_lista p')) (pilha_run ops p) =
           Some (esp_pilha_run 3 ops (pilha_lista p))"
  using assms
proof (induction ops arbitrary: p)
  case Nil
  show ?case by simp
next
  case (Cons a ops)
  show ?case
  proof (cases a)
    case (Push x)
    from push_refina [OF Cons.prems, of x]
    obtain ok p1 where e: "push p x = Some (ok, p1)"
        "esp_push 3 (pilha_lista p) x = (ok, pilha_lista p1)"
      by (auto simp: map_option_case split: option.splits)
    from Cons.prems e(1) have "pilha_inv p1" by (rule pilha_inv_push)
    then show ?thesis using Cons.IH [of p1] e Push by simp
  next
    case Pop
    from pop_refina [OF Cons.prems]
    obtain ok w p1 where d: "pop p True = Some (ok, w, p1)"
        "esp_pop (pilha_lista p) = (ok, w, pilha_lista p1)"
      by (auto simp: map_option_case split: option.splits)
    from Cons.prems d(1) have "pilha_inv p1" by (rule pilha_inv_pop)
    then show ?thesis using Cons.IH [of p1] d Pop
      by (cases "esp_pilha_run 3 ops (pilha_lista p1)")
        (auto simp: map_option_case split: option.splits)
  qed
qed

lemma pilha_inv_pilha_run:
  "pilha_inv p \<Longrightarrow> pilha_run ops p = Some (ws, p') \<Longrightarrow> pilha_inv p'"
proof (induction ops arbitrary: p ws)
  case Nil
  then show ?case by simp
next
  case (Cons a ops)
  show ?case
  proof (cases a)
    case (Push x)
    with Cons.prems obtain ok p1 where "push p x = Some (ok, p1)" "pilha_run ops p1 = Some (ws, p')"
      by (auto simp: ub_bind_eq_Some)
    with Cons.prems(1) show ?thesis by (blast intro: Cons.IH pilha_inv_push)
  next
    case Pop
    with Cons.prems obtain ok w p1 vs where "pop p True = Some (ok, w, p1)"
        "pilha_run ops p1 = Some (vs, p')"
      by (auto simp: ub_bind_eq_Some)
    with Cons.prems(1) show ?thesis by (blast intro: Cons.IH pilha_inv_pop)
  qed
qed

lemma pilha_inv_ex: "pilha_inv pilha_ex"
  by (simp add: pilha_inv_def pilha_ex_def)

lemma pilha_lista_ex:
  "pilha_lista pilha_ex = [\<lparr>tipo = CHR ''J'', id_peca = 1\<rparr>, \<lparr>tipo = CHR ''L'', id_peca = 2\<rparr>]"
  by (simp add: pilha_lista_def pilha_ex_def upt_conv_Cons)

section \<open>Theorems\<close>

text \<open>
  Claim C7. Refinement: from a stack that satisfies the representation
  invariant, every sequence of \<^verbatim>\<open>push\<close> and \<^verbatim>\<open>pop\<close> calls is free of undefined
  behaviour, ends in a stack that satisfies the invariant, and delivers the
  pieces and leaves the contents that the abstract bounded stack of capacity 3
  prescribes.
\<close>

theorem pilha_refinamento:
  assumes "pilha_inv p"
  shows "\<exists>ws p'. pilha_run ops p = Some (ws, p') \<and> pilha_inv p' \<and>
           (ws, pilha_lista p') = esp_pilha_run 3 ops (pilha_lista p)"
proof -
  from pilha_run_esp [OF assms, of ops]
  obtain ws p' where r: "pilha_run ops p = Some (ws, p')"
      "(ws, pilha_lista p') = esp_pilha_run 3 ops (pilha_lista p)"
    by (auto simp: map_option_case split: option.splits)
  from assms r(1) have "pilha_inv p'" by (rule pilha_inv_pilha_run)
  with r show ?thesis by blast
qed

theorem pilha_refinamento_witness:
  "pilha_inv pilha_ex \<and>
   (\<exists>ws p'. pilha_run [Push \<lparr>tipo = CHR ''T'', id_peca = 3\<rparr>,
                        Push \<lparr>tipo = CHR ''S'', id_peca = 4\<rparr>, Pop, Pop] pilha_ex =
               Some (ws, p') \<and> pilha_inv p' \<and>
      (ws, pilha_lista p') =
        ([Some \<lparr>tipo = CHR ''T'', id_peca = 3\<rparr>, Some \<lparr>tipo = CHR ''L'', id_peca = 2\<rparr>],
         [\<lparr>tipo = CHR ''J'', id_peca = 1\<rparr>]))"
  using pilha_refinamento [OF pilha_inv_ex,
      of "[Push \<lparr>tipo = CHR ''T'', id_peca = 3\<rparr>, Push \<lparr>tipo = CHR ''S'', id_peca = 4\<rparr>, Pop, Pop]"]
  by (simp add: pilha_inv_ex pilha_lista_ex esp_push_def esp_pop_def)

text \<open>
  Claim C30. Last-in first-out order: pushing three pieces onto an empty stack
  and popping three times delivers them in the reverse order and leaves the
  stack empty.
\<close>

theorem pilha_lifo_tres:
  assumes "pilha_inv p" "pilhaVazia p"
  shows "map_option (\<lambda>(ws, p'). (ws, pilha_lista p'))
           (pilha_run [Push p1, Push p2, Push p3, Pop, Pop, Pop] p) =
         Some ([Some p3, Some p2, Some p1], [])"
proof -
  from assms have "pilha_lista p = []" by (simp add: pilha_lista_eq_Nil)
  moreover have "esp_pilha_run 3 (map Push [p1, p2, p3] @ replicate (length [p1, p2, p3]) Pop) [] =
      (map Some (rev [p1, p2, p3]), [])"
    by (rule esp_lifo) simp
  ultimately show ?thesis
    using pilha_run_esp [OF assms(1), of "[Push p1, Push p2, Push p3, Pop, Pop, Pop]"]
    by (simp add: numeral_3_eq_3)
qed

theorem pilha_lifo_tres_witness:
  "pilha_inv (inicializarPilha pilha_ex) \<and> pilhaVazia (inicializarPilha pilha_ex) \<and>
   map_option (\<lambda>(ws, p'). (ws, pilha_lista p'))
     (pilha_run [Push \<lparr>tipo = CHR ''I'', id_peca = 1\<rparr>, Push \<lparr>tipo = CHR ''O'', id_peca = 2\<rparr>,
                 Push \<lparr>tipo = CHR ''T'', id_peca = 3\<rparr>, Pop, Pop, Pop] (inicializarPilha pilha_ex)) =
   Some ([Some \<lparr>tipo = CHR ''T'', id_peca = 3\<rparr>, Some \<lparr>tipo = CHR ''O'', id_peca = 2\<rparr>,
          Some \<lparr>tipo = CHR ''I'', id_peca = 1\<rparr>], [])"
  using pilha_lifo_tres [of "inicializarPilha pilha_ex" "\<lparr>tipo = CHR ''I'', id_peca = 1\<rparr>"
      "\<lparr>tipo = CHR ''O'', id_peca = 2\<rparr>" "\<lparr>tipo = CHR ''T'', id_peca = 3\<rparr>"]
  by (simp add: pilha_inv_def pilhaVazia_def inicializarPilha_def pilha_ex_def)

text \<open>
  Claim C32. Memory safety of the stack and \<^verbatim>\<open>topoPilha\<close>: on a stack that
  satisfies the invariant, \<^verbatim>\<open>push\<close>, \<^verbatim>\<open>pop\<close> and \<^verbatim>\<open>topoPilha\<close> are free of
  undefined behaviour, and \<^verbatim>\<open>topoPilha\<close> returns \<^verbatim>\<open>NULL\<close> exactly when the stack
  is empty and otherwise a pointer to the slot that holds the last piece pushed.
\<close>

theorem pilha_operacoes_definidas:
  assumes "pilha_inv p"
  shows "push p x \<noteq> None \<and> pop p out \<noteq> None \<and>
         map_option (lerTopo p) (topoPilha p) = Some (esp_peekTop (pilha_lista p)) \<and>
         (topoPilha p = Some None \<longleftrightarrow> pilhaVazia p)"
proof -
  have "push p x \<noteq> None"
    using assms by (cases "pilhaCheia p") (simp_all add: push_cheia push_ok)
  moreover have "pop p out \<noteq> None"
    using assms by (cases "pilhaVazia p") (simp_all add: pop_vazia pop_ok)
  moreover have "topoPilha p = Some None \<longleftrightarrow> pilhaVazia p"
    using assms by (simp add: topoPilha_eq)
  ultimately show ?thesis using topoPilha_refina [OF assms] by simp
qed

theorem pilha_operacoes_definidas_witness:
  "pilha_inv pilha_ex \<and> push pilha_ex \<lparr>tipo = CHR ''T'', id_peca = 3\<rparr> \<noteq> None \<and>
   pop pilha_ex True \<noteq> None \<and> topoPilha pilha_ex = Some (Some 1) \<and>
   lerTopo pilha_ex (Some 1) = Some \<lparr>tipo = CHR ''L'', id_peca = 2\<rparr> \<and>
   \<not> pilha_inv (pilha_ex\<lparr>topo := 3\<rparr>) \<and>
   push (pilha_ex\<lparr>topo := 3\<rparr>) \<lparr>tipo = CHR ''T'', id_peca = 3\<rparr> = None"
  using pilha_operacoes_definidas [OF pilha_inv_ex, of "\<lparr>tipo = CHR ''T'', id_peca = 3\<rparr>" True]
  by (simp add: pilha_inv_ex)
    (simp add: pilha_inv_def push_def pilhaCheia_def pilhaVazia_def pilha_ex_def in_bounds_def
      topoPilha_def lerTopo_def)

lemma pilha_cheia_lista: "pilha_inv p \<Longrightarrow> length (pilha_lista p) = 3 \<longleftrightarrow> pilhaCheia p"
  by (auto simp: pilhaCheia_def dest: pilha_inv_nat)

lemma pilha_ex_campos: "length (itens_p pilha_ex) = 3" "topo pilha_ex = 1"
  by (simp_all add: pilha_ex_def)


end
