(* ===== verification/Trocas.thy ===== *)
theory Trocas
  imports Fila_Circular Pilha_Linear
begin

text \<open>
  The two exchanges between queue and stack (\<^verbatim>\<open>trocarFrenteComTopo\<close> and
  \<^verbatim>\<open>trocarTres\<close> of \<^verbatim>\<open>src/tetris.c\<close>). Both access the arrays directly. A
  result is the returned flag, the text printed, and the two structures; the
  structures are part of the result on failure as well, so that "a failed call
  changes nothing" is a theorem and not a convention of the model.

  The three statements that exchange one slot of the queue with one slot of the
  stack occur in both functions and are the definition \<open>troca_itens\<close>; the
  \<^verbatim>\<open>for\<close> loop of \<^verbatim>\<open>trocarTres\<close> is the function \<open>trocarTres_laco\<close> of the loop
  counter, with its termination proof. The lemmas show that both functions
  refine the exchanges of the specification, fail without changing anything,
  conserve the pieces, and undo themselves when called twice.
\<close>

section \<open>Operations\<close>

definition troca_itens :: "int \<Rightarrow> int \<Rightarrow> Fila \<Rightarrow> Pilha \<Rightarrow> (Fila \<times> Pilha) ub" where
  "troca_itens idxFila idxPilha f p =
     do {
       tmp \<leftarrow> arr_read (itens_f f) idxFila;
       x \<leftarrow> arr_read (itens_p p) idxPilha;
       a \<leftarrow> arr_write (itens_f f) idxFila x;
       b \<leftarrow> arr_write (itens_p p) idxPilha tmp;
       Some (f\<lparr>itens_f := a\<rparr>, p\<lparr>itens_p := b\<rparr>)
     }"

definition trocarFrenteComTopo :: "Fila \<Rightarrow> Pilha \<Rightarrow> (bool \<times> string \<times> Fila \<times> Pilha) ub" where
  "trocarFrenteComTopo f p =
     (if filaVazia f then Some (False, ''Falha: fila vazia.\<newline>'', f, p)
      else if pilhaVazia p then Some (False, ''Falha: pilha vazia.\<newline>'', f, p)
      else do {
        (f', p') \<leftarrow> troca_itens (inicio f) (topo p) f p;
        Some (True, [], f', p')
      })"

function trocarTres_laco :: "int \<Rightarrow> Fila \<Rightarrow> Pilha \<Rightarrow> (Fila \<times> Pilha) ub" where
  "trocarTres_laco i f p =
     (if i < 3 then
        do {
          s \<leftarrow> c_add (inicio f) i;
          (f', p') \<leftarrow> troca_itens (c_mod s MAX_FILA) i f p;
          i' \<leftarrow> c_add i 1;
          trocarTres_laco i' f' p'
        }
      else Some (f, p))"
  by pat_completeness auto
termination
  by (relation "measure (\<lambda>(i, f, p). nat (3 - i))") (auto simp: c_add_eq_Some)

declare trocarTres_laco.simps [simp del]

definition trocarTres :: "Fila \<Rightarrow> Pilha \<Rightarrow> (bool \<times> string \<times> Fila \<times> Pilha) ub" where
  "trocarTres f p =
     do {
       n \<leftarrow> c_add (topo p) 1;
       if n \<noteq> 3 then
         Some (False, ''Falha: a pilha precisa ter exatamente 3 pecas.\<newline>'', f, p)
       else if total_f f < 3 then
         Some (False, ''Falha: a fila precisa ter pelo menos 3 pecas.\<newline>'', f, p)
       else do {
         (f', p') \<leftarrow> trocarTres_laco 0 f p;
         Some (True, [], f', p')
       }
     }"

text \<open>The whole array of the queue read from the head index on.\<close>

definition fila_rot :: "Fila \<Rightarrow> Peca list" where
  "fila_rot f = rotate (nat (inicio f)) (itens_f f)"

text \<open>
  The text that the two functions print for each failure of the specification
  (none of them reports a full stack).
\<close>

definition msg_troca :: "erro \<Rightarrow> string" where
  "msg_troca e =
     (case e of
        QueueEmpty \<Rightarrow> ''Falha: fila vazia.\<newline>''
      | StackEmpty \<Rightarrow> ''Falha: pilha vazia.\<newline>''
      | StackWrongSize \<Rightarrow> ''Falha: a pilha precisa ter exatamente 3 pecas.\<newline>''
      | QueueTooShort \<Rightarrow> ''Falha: a fila precisa ter pelo menos 3 pecas.\<newline>''
      | StackFull \<Rightarrow> [])"

text \<open>A full stack, used with \<open>fila_ex\<close> to instantiate the theorems.\<close>

definition pilha_cheia_ex :: Pilha where
  "pilha_cheia_ex = pilha_ex\<lparr>topo := 2\<rparr>"

lemmas [op_defs] = troca_itens_def trocarFrenteComTopo_def trocarTres_def fila_rot_def

section \<open>One exchange\<close>

lemma troca_itens_ok:
  "in_bounds (itens_f f) a \<Longrightarrow> in_bounds (itens_p p) b \<Longrightarrow>
     troca_itens a b f p =
       Some (f\<lparr>itens_f := (itens_f f)[nat a := itens_p p ! nat b]\<rparr>,
             p\<lparr>itens_p := (itens_p p)[nat b := itens_f f ! nat a]\<rparr>)"
  by (simp add: troca_itens_def)

lemma troca_itens_eq_Some:
  "troca_itens a b f p = Some (f', p') \<longleftrightarrow>
     in_bounds (itens_f f) a \<and> in_bounds (itens_p p) b \<and>
     f' = f\<lparr>itens_f := (itens_f f)[nat a := itens_p p ! nat b]\<rparr> \<and>
     p' = p\<lparr>itens_p := (itens_p p)[nat b := itens_f f ! nat a]\<rparr>"
  by (auto simp: troca_itens_def ub_bind_eq_Some arr_read_eq_Some arr_write_eq_Some)

lemma fila_lista_rot: "fila_inv f \<Longrightarrow> fila_lista f = take (nat (total_f f)) (fila_rot f)"
  by (simp add: fila_lista_rotate fila_rot_def)

lemma length_fila_rot [simp]: "length (fila_rot f) = length (itens_f f)"
  by (simp add: fila_rot_def)

lemma fila_slot:
  assumes "fila_inv f" "k < 5"
  shows "in_bounds (itens_f f) ((inicio f + int k) mod 5)"
    and "itens_f f ! nat ((inicio f + int k) mod 5) = fila_rot f ! k"
    and "fila_rot (f\<lparr>itens_f := (itens_f f)[nat ((inicio f + int k) mod 5) := v]\<rparr>) =
           (fila_rot f)[k := v]"
proof -
  note n = fila_inv_nat [OF assms(1)]
  have idx: "nat ((inicio f + int k) mod 5) = (nat (inicio f) + k) mod length (itens_f f)"
    using n by (simp add: nat_add_mod)
  show "in_bounds (itens_f f) ((inicio f + int k) mod 5)"
    using n by (simp add: in_bounds_def)
  show "itens_f f ! nat ((inicio f + int k) mod 5) = fila_rot f ! k"
    using n assms(2) by (simp add: idx fila_rot_def nth_rotate)
  show "fila_rot (f\<lparr>itens_f := (itens_f f)[nat ((inicio f + int k) mod 5) := v]\<rparr>) =
           (fila_rot f)[k := v]"
    using n assms(2) rotate_list_update [of k "itens_f f" "nat (inicio f)" v]
    by (simp add: idx fila_rot_def)
qed

lemma fila_rot_inj:
  "fila_rot (f\<lparr>itens_f := a\<rparr>) = fila_rot f \<Longrightarrow> f\<lparr>itens_f := a\<rparr> = f"
proof -
  assume "fila_rot (f\<lparr>itens_f := a\<rparr>) = fila_rot f"
  then have "rotate (nat (inicio f)) a = rotate (nat (inicio f)) (itens_f f)"
    by (simp add: fila_rot_def)
  then have "a = itens_f f" by (rule rotate_inj)
  then show ?thesis by simp
qed

lemma fila_inv_itens:
  "fila_inv f \<Longrightarrow> length a = 5 \<Longrightarrow> fila_inv (f\<lparr>itens_f := a\<rparr>)"
  by (simp add: fila_inv_def)

lemma trocarTres_laco_fim: "\<not> i < 3 \<Longrightarrow> trocarTres_laco i f p = Some (f, p)"
  by (simp add: trocarTres_laco.simps)

lemma trocarTres_laco_passo:
  "i < 3 \<Longrightarrow> trocarTres_laco i f p =
     do {
       s \<leftarrow> c_add (inicio f) i;
       (f', p') \<leftarrow> troca_itens (c_mod s MAX_FILA) i f p;
       i' \<leftarrow> c_add i 1;
       trocarTres_laco i' f' p'
     }"
  by (subst trocarTres_laco.simps) simp

lemma trocarTres_laco_ok:
  assumes "fila_inv f" "length (itens_p p) = 3" "i \<le> 3"
  shows "\<exists>a b. trocarTres_laco (int i) f p = Some (f\<lparr>itens_f := a\<rparr>, p\<lparr>itens_p := b\<rparr>) \<and>
           length a = 5 \<and>
           (fila_rot (f\<lparr>itens_f := a\<rparr>), b) = swap_range i 3 (fila_rot f) (itens_p p)"
  using assms
proof (induction "3 - i" arbitrary: i f p)
  case 0
  then have "i = 3" by simp
  then have "trocarTres_laco (int i) f p = Some (f\<lparr>itens_f := itens_f f\<rparr>, p\<lparr>itens_p := itens_p p\<rparr>)"
    by (simp add: trocarTres_laco_fim)
  with 0 \<open>i = 3\<close> show ?case
    by (intro exI [of _ "itens_f f"] exI [of _ "itens_p p"])
      (simp add: swap_range_end fila_inv_nat)
next
  case (Suc n)
  then have i: "i < 3" "i < 5" by simp_all
  note n = fila_inv_nat [OF Suc.prems(1)]
  let ?k = "nat ((inicio f + int i) mod 5)"
  let ?a1 = "(itens_f f)[?k := itens_p p ! i]" and ?b1 = "(itens_p p)[i := itens_f f ! ?k]"
  let ?f1 = "f\<lparr>itens_f := ?a1\<rparr>" and ?p1 = "p\<lparr>itens_p := ?b1\<rparr>"
  have t: "troca_itens ((inicio f + int i) mod 5) (int i) f p = Some (?f1, ?p1)"
    using fila_slot(1) [OF Suc.prems(1) i(2)] Suc.prems(2) i(1)
    by (simp add: troca_itens_ok)
  have inv1: "fila_inv ?f1" using Suc.prems(1) n by (simp add: fila_inv_itens)
  have "\<exists>a b. trocarTres_laco (int (Suc i)) ?f1 ?p1 = Some (?f1\<lparr>itens_f := a\<rparr>, ?p1\<lparr>itens_p := b\<rparr>) \<and>
           length a = 5 \<and>
           (fila_rot (?f1\<lparr>itens_f := a\<rparr>), b) = swap_range (Suc i) 3 (fila_rot ?f1) (itens_p ?p1)"
    using Suc.hyps(2) inv1 Suc.prems(2) i by (intro Suc.hyps(1)) simp_all
  then obtain a b where r: "trocarTres_laco (int i + 1) ?f1 ?p1 = Some (f\<lparr>itens_f := a\<rparr>, p\<lparr>itens_p := b\<rparr>)"
      "length a = 5"
      "(fila_rot (f\<lparr>itens_f := a\<rparr>), b) = swap_range (Suc i) 3 (fila_rot ?f1) ?b1"
    by (auto simp: add.commute)
  have "swap_range (Suc i) 3 (fila_rot ?f1) ?b1 = swap_range i 3 (fila_rot f) (itens_p p)"
    using i n Suc.prems(2)
    by (simp add: fila_slot(2,3) [OF Suc.prems(1) i(2)] swap_range_step)
  with r(3) have "(fila_rot (f\<lparr>itens_f := a\<rparr>), b) = swap_range i 3 (fila_rot f) (itens_p p)"
    by simp
  moreover have "trocarTres_laco (int i) f p = Some (f\<lparr>itens_f := a\<rparr>, p\<lparr>itens_p := b\<rparr>)"
    using r(1) t i n by (simp add: trocarTres_laco_passo)
  ultimately show ?case using r(2) by blast
qed

section \<open>The exchange of front and top\<close>

lemma trocarFrenteComTopo_eq:
  assumes "fila_inv f" "pilha_inv p"
  shows "trocarFrenteComTopo f p =
     Some (if filaVazia f then (False, ''Falha: fila vazia.\<newline>'', f, p)
           else if pilhaVazia p then (False, ''Falha: pilha vazia.\<newline>'', f, p)
           else (True, [],
                 f\<lparr>itens_f := (itens_f f)[nat (inicio f) := itens_p p ! nat (topo p)]\<rparr>,
                 p\<lparr>itens_p := (itens_p p)[nat (topo p) := itens_f f ! nat (inicio f)]\<rparr>))"
proof -
  have "\<not> pilhaVazia p \<Longrightarrow> in_bounds (itens_p p) (topo p)"
    using assms(2) by (auto simp: pilha_inv_def pilhaVazia_def in_bounds_def)
  then show ?thesis
    using fila_inv_inicio [OF assms(1)]
    by (simp add: trocarFrenteComTopo_def troca_itens_ok)
qed

lemma fila_inv_troca:
  "fila_inv f \<Longrightarrow> fila_inv (f\<lparr>itens_f := (itens_f f)[k := v]\<rparr>)"
  by (simp add: fila_inv_def)

lemma pilha_inv_troca:
  "pilha_inv p \<Longrightarrow> pilha_inv (p\<lparr>itens_p := (itens_p p)[k := v]\<rparr>)"
  by (simp add: pilha_inv_def)

lemma fila_lista_troca_frente:
  assumes "fila_inv f" "\<not> filaVazia f"
  shows "fila_lista (f\<lparr>itens_f := (itens_f f)[nat (inicio f) := x]\<rparr>) = x # tl (fila_lista f)"
proof -
  note n = fila_inv_nat [OF assms(1)]
  from assms have t: "0 < nat (total_f f)" by (simp add: fila_nao_vazia_nat)
  have "fila_rot (f\<lparr>itens_f := (itens_f f)[nat ((inicio f + int 0) mod 5) := x]\<rparr>) =
      (fila_rot f)[0 := x]"
    by (rule fila_slot(3) [OF assms(1)]) simp
  moreover have "(inicio f + int 0) mod 5 = inicio f" using n by simp
  moreover have "fila_rot f \<noteq> []" using n by (auto simp: fila_rot_def)
  ultimately show ?thesis
    using t assms(1) by (simp add: fila_lista_rot fila_inv_troca take_update_0)
qed

lemma pilha_lista_troca_topo:
  assumes "pilha_inv p" "\<not> pilhaVazia p"
  shows "pilha_lista (p\<lparr>itens_p := (itens_p p)[nat (topo p) := y]\<rparr>) =
           butlast (pilha_lista p) @ [y]"
proof -
  let ?k = "nat (topo p)"
  from assms have k: "nat (topo p + 1) = Suc ?k" "?k < length (itens_p p)"
    by (auto simp: pilha_inv_def pilhaVazia_def)
  then have "butlast (take (Suc ?k) (itens_p p)) = take ?k (itens_p p)"
    by (simp add: butlast_take)
  with k assms(1) show ?thesis
    by (simp add: pilha_lista_take pilha_inv_troca take_Suc_update)
qed

lemma last_pilha_lista:
  assumes "pilha_inv p" "\<not> pilhaVazia p"
  shows "last (pilha_lista p) = itens_p p ! nat (topo p)"
proof -
  let ?n = "nat (topo p + 1)"
  from assms have n: "0 < ?n" "?n \<le> length (itens_p p)" "?n - 1 = nat (topo p)"
    by (auto simp: pilha_inv_def pilhaVazia_def)
  then have "last (take ?n (itens_p p)) = itens_p p ! (?n - 1)"
    by (intro last_take_nth)
  with n assms(1) show ?thesis by (simp add: pilha_lista_take)
qed

lemma trocarFrenteComTopo_refina:
  assumes "fila_inv f" "pilha_inv p"
  shows "map_option (\<lambda>(ok, out, f', p'). (ok, fila_lista f', pilha_lista p'))
           (trocarFrenteComTopo f p) =
         Some (case esp_swapFrontTop (fila_lista f) (pilha_lista p) of
                 Inl e \<Rightarrow> (False, fila_lista f, pilha_lista p)
               | Inr (q, s) \<Rightarrow> (True, q, s))"
  using assms
  by (simp add: trocarFrenteComTopo_eq esp_swapFrontTop_def fila_lista_eq_Nil pilha_lista_eq_Nil
      fila_lista_troca_frente pilha_lista_troca_topo last_pilha_lista hd_fila_lista)


section \<open>The exchange of three\<close>

lemma trocarTres_pilha_errada:
  "pilha_inv p \<Longrightarrow> topo p \<noteq> 2 \<Longrightarrow>
     trocarTres f p =
       Some (False, ''Falha: a pilha precisa ter exatamente 3 pecas.\<newline>'', f, p)"
  by (simp add: trocarTres_def pilha_inv_def)

lemma trocarTres_fila_curta:
  "pilha_inv p \<Longrightarrow> topo p = 2 \<Longrightarrow> total_f f < 3 \<Longrightarrow>
     trocarTres f p =
       Some (False, ''Falha: a fila precisa ter pelo menos 3 pecas.\<newline>'', f, p)"
  by (simp add: trocarTres_def)

lemma trocarTres_ok:
  assumes "fila_inv f" "pilha_inv p" "topo p = 2" "3 \<le> total_f f"
  shows "\<exists>a b. trocarTres f p = Some (True, [], f\<lparr>itens_f := a\<rparr>, p\<lparr>itens_p := b\<rparr>) \<and>
           length a = 5 \<and> length b = 3 \<and>
           fila_rot (f\<lparr>itens_f := a\<rparr>) = itens_p p @ drop 3 (fila_rot f) \<and>
           b = take 3 (fila_rot f)"
proof -
  from assms(2) have l: "length (itens_p p) = 3" by (simp add: pilha_inv_def)
  from trocarTres_laco_ok [OF assms(1) l, of 0]
  obtain a b where r: "trocarTres_laco 0 f p = Some (f\<lparr>itens_f := a\<rparr>, p\<lparr>itens_p := b\<rparr>)"
      "length a = 5" "(fila_rot (f\<lparr>itens_f := a\<rparr>), b) = swap_range 0 3 (fila_rot f) (itens_p p)"
    by auto
  from r(3) l have "fila_rot (f\<lparr>itens_f := a\<rparr>) = itens_p p @ drop 3 (fila_rot f)"
      "b = take 3 (fila_rot f)"
    by (simp_all add: swap_range_0)
  moreover from this(2) have "length b = 3"
    using fila_inv_nat(1) [OF assms(1)] by simp
  moreover have "trocarTres f p = Some (True, [], f\<lparr>itens_f := a\<rparr>, p\<lparr>itens_p := b\<rparr>)"
    using assms(3,4) r(1) by (simp add: trocarTres_def)
  ultimately show ?thesis using r(2) by blast
qed

lemma trocarTres_listas:
  assumes "fila_inv f" "pilha_inv p" "topo p = 2" "3 \<le> total_f f"
  shows "\<exists>f' p'. trocarTres f p = Some (True, [], f', p') \<and> fila_inv f' \<and> pilha_inv p' \<and>
           inicio f' = inicio f \<and> fim f' = fim f \<and> total_f f' = total_f f \<and> topo p' = topo p \<and>
           fila_lista f' = pilha_lista p @ drop 3 (fila_lista f) \<and>
           pilha_lista p' = take 3 (fila_lista f)"
proof -
  from trocarTres_ok [OF assms]
  obtain a b where r: "trocarTres f p = Some (True, [], f\<lparr>itens_f := a\<rparr>, p\<lparr>itens_p := b\<rparr>)"
      "length a = 5" "length b = 3"
      "fila_rot (f\<lparr>itens_f := a\<rparr>) = itens_p p @ drop 3 (fila_rot f)"
      "b = take 3 (fila_rot f)"
    by blast
  let ?t = "nat (total_f f)"
  from assms(4) have t: "3 \<le> ?t" by simp
  from assms(2,3) have ps: "pilha_lista p = itens_p p" "length (itens_p p) = 3"
    by (simp_all add: pilha_lista_take pilha_inv_def)
  have inv_f: "fila_inv (f\<lparr>itens_f := a\<rparr>)" using assms(1) r(2) by (rule fila_inv_itens)
  have inv_p: "pilha_inv (p\<lparr>itens_p := b\<rparr>)" using assms(2) r(3) by (simp add: pilha_inv_def)
  have "fila_lista (f\<lparr>itens_f := a\<rparr>) = take ?t (itens_p p @ drop 3 (fila_rot f))"
    using inv_f r(4) by (simp add: fila_lista_rot)
  also have "\<dots> = itens_p p @ take (?t - 3) (drop 3 (fila_rot f))"
    using ps(2) t by simp
  also have "take (?t - 3) (drop 3 (fila_rot f)) = drop 3 (take ?t (fila_rot f))"
    by (simp add: drop_take)
  finally have q: "fila_lista (f\<lparr>itens_f := a\<rparr>) = pilha_lista p @ drop 3 (fila_lista f)"
    using assms(1) ps by (simp add: fila_lista_rot)
  have "pilha_lista (p\<lparr>itens_p := b\<rparr>) = take 3 b"
    using inv_p assms(3) by (simp add: pilha_lista_take)
  also have "\<dots> = take 3 (take ?t (fila_rot f))"
    using r(5) t by (simp add: min_def)
  finally have s: "pilha_lista (p\<lparr>itens_p := b\<rparr>) = take 3 (fila_lista f)"
    using assms(1) by (simp add: fila_lista_rot)
  show ?thesis
    using r(1) inv_f inv_p q s by (intro exI [of _ "f\<lparr>itens_f := a\<rparr>"] exI [of _ "p\<lparr>itens_p := b\<rparr>"]) simp
qed

lemma trocarTres_refina:
  assumes "fila_inv f" "pilha_inv p"
  shows "map_option (\<lambda>(ok, out, f', p'). (ok, fila_lista f', pilha_lista p')) (trocarTres f p) =
         Some (case esp_swapFirstThree (fila_lista f) (pilha_lista p) of
                 Inl e \<Rightarrow> (False, fila_lista f, pilha_lista p)
               | Inr (q, s) \<Rightarrow> (True, q, s))"
proof (cases "topo p = 2")
  case False
  with assms(2) have "length (pilha_lista p) \<noteq> 3" by (auto simp: pilha_inv_def)
  with assms(2) False show ?thesis
    by (simp add: esp_swapFirstThree_def trocarTres_pilha_errada)
next
  case True
  then have l: "length (pilha_lista p) = 3" by simp
  show ?thesis
  proof (cases "total_f f < 3")
    case True
    with assms(1) have "length (fila_lista f) < 3" by (simp add: fila_inv_nat)
    with l assms(2) True \<open>topo p = 2\<close> show ?thesis
      by (simp add: esp_swapFirstThree_def trocarTres_fila_curta)
  next
    case False
    then have t: "3 \<le> total_f f" by simp
    with assms(1) have "\<not> length (fila_lista f) < 3" by (simp add: fila_inv_nat)
    with l trocarTres_listas [OF assms True t] show ?thesis
      by (auto simp: esp_swapFirstThree_def)
  qed
qed

text \<open>What both exchanges share: the lists after a call are those of the specification.\<close>

lemma troca_conserva:
  assumes "(ok, q', s') = (case r of Inl e \<Rightarrow> (False, q, s) | Inr (a, b) \<Rightarrow> (True, a, b))"
    and "\<And>a b. r = Inr (a, b) \<Longrightarrow> mset a + mset b = mset q + mset s \<and>
            length a = length q \<and> length b = length s"
  shows "mset q' + mset s' = mset q + mset s \<and> length q' = length q \<and> length s' = length s"
  using assms by (cases r) (auto split: prod.splits)

section \<open>Repeating an exchange\<close>

lemma trocarFrenteComTopo_duas_vezes:
  assumes "fila_inv f" "pilha_inv p" "\<not> filaVazia f" "\<not> pilhaVazia p"
  shows "\<exists>f1 p1. trocarFrenteComTopo f p = Some (True, [], f1, p1) \<and>
           trocarFrenteComTopo f1 p1 = Some (True, [], f, p)"
proof -
  let ?i = "nat (inicio f)" and ?t = "nat (topo p)"
  let ?f1 = "f\<lparr>itens_f := (itens_f f)[?i := itens_p p ! ?t]\<rparr>"
  let ?p1 = "p\<lparr>itens_p := (itens_p p)[?t := itens_f f ! ?i]\<rparr>"
  have b: "?i < length (itens_f f)" "?t < length (itens_p p)"
    using assms by (auto simp: fila_inv_def pilha_inv_def pilhaVazia_def)
  have 1: "trocarFrenteComTopo f p = Some (True, [], ?f1, ?p1)"
    using assms by (simp add: trocarFrenteComTopo_eq)
  have "fila_inv ?f1" "pilha_inv ?p1" "\<not> filaVazia ?f1" "\<not> pilhaVazia ?p1"
    using assms by (simp_all add: fila_inv_troca pilha_inv_troca filaVazia_def pilhaVazia_def)
  then have "trocarFrenteComTopo ?f1 ?p1 = Some (True, [], f, p)"
    using b by (simp add: trocarFrenteComTopo_eq)
  with 1 show ?thesis by blast
qed

lemma trocarTres_duas_vezes:
  assumes "fila_inv f" "pilha_inv p" "topo p = 2" "3 \<le> total_f f"
  shows "\<exists>f1 p1. trocarTres f p = Some (True, [], f1, p1) \<and>
           trocarTres f1 p1 = Some (True, [], f, p)"
proof -
  from trocarTres_ok [OF assms] obtain a b
    where 1: "trocarTres f p = Some (True, [], f\<lparr>itens_f := a\<rparr>, p\<lparr>itens_p := b\<rparr>)"
      "length a = 5" "length b = 3"
      "fila_rot (f\<lparr>itens_f := a\<rparr>) = itens_p p @ drop 3 (fila_rot f)" "b = take 3 (fila_rot f)"
    by blast
  let ?f1 = "f\<lparr>itens_f := a\<rparr>" and ?p1 = "p\<lparr>itens_p := b\<rparr>"
  have l: "length (itens_p p) = 3" using assms(2) by (simp add: pilha_inv_def)
  have inv: "fila_inv ?f1" "pilha_inv ?p1" "topo ?p1 = 2" "3 \<le> total_f ?f1"
    using assms 1(2,3) by (simp_all add: fila_inv_itens pilha_inv_def)
  from trocarTres_ok [OF inv] obtain a2 b2
    where 2: "trocarTres ?f1 ?p1 = Some (True, [], ?f1\<lparr>itens_f := a2\<rparr>, ?p1\<lparr>itens_p := b2\<rparr>)"
      "fila_rot (?f1\<lparr>itens_f := a2\<rparr>) = itens_p ?p1 @ drop 3 (fila_rot ?f1)"
      "b2 = take 3 (fila_rot ?f1)"
    by blast
  have "fila_rot (f\<lparr>itens_f := a2\<rparr>) = fila_rot f" "b2 = itens_p p"
    using 2(2,3) l by (simp_all add: 1(4,5))
  then have "?f1\<lparr>itens_f := a2\<rparr> = f" "?p1\<lparr>itens_p := b2\<rparr> = p"
    using fila_rot_inj [where f = f and a = a2] by simp_all
  with 1(1) 2(1) show ?thesis by simp
qed

lemma pilha_cheia_ex_facts:
  "pilha_inv pilha_cheia_ex" "topo pilha_cheia_ex = 2"
  "pilha_lista pilha_cheia_ex =
     [\<lparr>tipo = CHR ''J'', id_peca = 1\<rparr>, \<lparr>tipo = CHR ''L'', id_peca = 2\<rparr>,
      \<lparr>tipo = CHR ''O'', id_peca = 9\<rparr>]"
  by (simp_all add: pilha_cheia_ex_def pilha_ex_def pilha_inv_def pilha_lista_def upt_conv_Cons)

section \<open>Theorems\<close>

text \<open>
  Claim C8. Atomicity of \<^verbatim>\<open>trocarFrenteComTopo\<close>: on valid structures the call is
  free of undefined behaviour and succeeds exactly when neither container is
  empty. A failed call returns both structures unchanged; a successful call
  changes exactly slot \<^verbatim>\<open>inicio\<close> of the queue's array and slot \<^verbatim>\<open>topo\<close> of the
  stack's array, which trade values, and no index or count.
\<close>

theorem trocarFrenteComTopo_atomica:
  assumes "fila_inv f" "pilha_inv p"
  shows "\<exists>ok out f' p'. trocarFrenteComTopo f p = Some (ok, out, f', p') \<and>
           (ok \<longleftrightarrow> \<not> filaVazia f \<and> \<not> pilhaVazia p) \<and>
           (if ok
            then f' = f\<lparr>itens_f := (itens_f f)[nat (inicio f) := itens_p p ! nat (topo p)]\<rparr> \<and>
                 p' = p\<lparr>itens_p := (itens_p p)[nat (topo p) := itens_f f ! nat (inicio f)]\<rparr>
            else f' = f \<and> p' = p)"
  using assms by (simp add: trocarFrenteComTopo_eq)

theorem trocarFrenteComTopo_atomica_witness:
  "fila_inv fila_ex \<and> pilha_inv pilha_ex \<and>
   trocarFrenteComTopo fila_ex pilha_ex =
     Some (True, [],
           fila_ex\<lparr>itens_f := (itens_f fila_ex)[3 := \<lparr>tipo = CHR ''L'', id_peca = 2\<rparr>]\<rparr>,
           pilha_ex\<lparr>itens_p := (itens_p pilha_ex)[1 := peca_ex CHR ''S'' 4]\<rparr>) \<and>
   trocarFrenteComTopo fila_ex (inicializarPilha pilha_ex) =
     Some (False, ''Falha: pilha vazia.\<newline>'', fila_ex, inicializarPilha pilha_ex)"
  using trocarFrenteComTopo_atomica [OF fila_inv_ex pilha_inv_ex]
    trocarFrenteComTopo_atomica [OF fila_inv_ex, of "inicializarPilha pilha_ex"]
  by (simp add: fila_inv_ex pilha_inv_ex)
    (simp add: trocarFrenteComTopo_def troca_itens_def filaVazia_def pilhaVazia_def
      inicializarPilha_def fila_ex_def pilha_ex_def in_bounds_def)

text \<open>
  Claim C26. \<^verbatim>\<open>trocarFrenteComTopo\<close> refines the exchange of front and top of
  the specification: on valid structures, if the queue is empty it prints the
  queue-empty failure, else if the stack is empty the stack-empty failure, in
  both cases changing nothing; otherwise the front of the queue and the top of
  the stack trade places, every other piece stays where it is, and the
  invariants are kept.
\<close>

theorem trocarFrenteComTopo_refinamento:
  assumes "fila_inv f" "pilha_inv p"
  shows "case esp_swapFrontTop (fila_lista f) (pilha_lista p) of
           Inl e \<Rightarrow> trocarFrenteComTopo f p = Some (False, msg_troca e, f, p)
         | Inr (q, s) \<Rightarrow>
             (\<exists>f' p'. trocarFrenteComTopo f p = Some (True, [], f', p') \<and>
                fila_inv f' \<and> pilha_inv p' \<and> fila_lista f' = q \<and> pilha_lista p' = s)"
  using assms
  by (simp add: trocarFrenteComTopo_eq esp_swapFrontTop_def fila_lista_eq_Nil pilha_lista_eq_Nil
      fila_lista_troca_frente pilha_lista_troca_topo last_pilha_lista hd_fila_lista
      fila_inv_troca pilha_inv_troca msg_troca_def)

theorem trocarFrenteComTopo_refinamento_witness:
  "fila_inv fila_ex \<and> pilha_inv pilha_ex \<and>
   (\<exists>f' p'. trocarFrenteComTopo fila_ex pilha_ex = Some (True, [], f', p') \<and>
      fila_inv f' \<and> pilha_inv p' \<and>
      fila_lista f' = [\<lparr>tipo = CHR ''L'', id_peca = 2\<rparr>, peca_ex CHR ''I'' 5, peca_ex CHR ''Z'' 6] \<and>
      pilha_lista p' = [\<lparr>tipo = CHR ''J'', id_peca = 1\<rparr>, peca_ex CHR ''S'' 4])"
  using trocarFrenteComTopo_refinamento [OF fila_inv_ex pilha_inv_ex]
  by (simp add: fila_inv_ex pilha_inv_ex fila_lista_ex pilha_lista_ex esp_swapFrontTop_def)

text \<open>
  Claim C4. \<^verbatim>\<open>trocarTres\<close> refines the exchange of the first three of the
  specification: on valid structures, if the stack does not hold exactly three
  pieces it prints the stack-size failure, else if the queue holds fewer than
  three the queue-too-short failure, in both cases changing nothing; otherwise
  the loop terminates without undefined behaviour, the first three pieces of the
  queue become the stack's pieces in base-to-top order, the stack receives the
  queue's first three in front-to-back order, the rest of the queue, all indices
  and both invariants are kept.
\<close>

theorem trocarTres_refinamento:
  assumes "fila_inv f" "pilha_inv p"
  shows "case esp_swapFirstThree (fila_lista f) (pilha_lista p) of
           Inl e \<Rightarrow> trocarTres f p = Some (False, msg_troca e, f, p)
         | Inr (q, s) \<Rightarrow>
             (\<exists>f' p'. trocarTres f p = Some (True, [], f', p') \<and>
                fila_inv f' \<and> pilha_inv p' \<and> fila_lista f' = q \<and> pilha_lista p' = s \<and>
                inicio f' = inicio f \<and> fim f' = fim f \<and> total_f f' = total_f f \<and>
                topo p' = topo p)"
proof (cases "topo p = 2")
  case False
  with assms(2) have "length (pilha_lista p) \<noteq> 3" by (auto simp: pilha_inv_def)
  with assms(2) False show ?thesis
    by (simp add: esp_swapFirstThree_def trocarTres_pilha_errada msg_troca_def)
next
  case True
  then have l: "length (pilha_lista p) = 3" by simp
  show ?thesis
  proof (cases "total_f f < 3")
    case True
    with assms(1) have "length (fila_lista f) < 3" by (simp add: fila_inv_nat)
    with l assms(2) True \<open>topo p = 2\<close> show ?thesis
      by (simp add: esp_swapFirstThree_def trocarTres_fila_curta msg_troca_def)
  next
    case False
    then have t: "3 \<le> total_f f" by simp
    with assms(1) have "\<not> length (fila_lista f) < 3" by (simp add: fila_inv_nat)
    with l trocarTres_listas [OF assms True t] show ?thesis
      by (auto simp: esp_swapFirstThree_def)
  qed
qed

theorem trocarTres_refinamento_witness:
  "fila_inv fila_ex \<and> pilha_inv pilha_cheia_ex \<and>
   (\<exists>f' p'. trocarTres fila_ex pilha_cheia_ex = Some (True, [], f', p') \<and>
      fila_inv f' \<and> pilha_inv p' \<and>
      fila_lista f' = [\<lparr>tipo = CHR ''J'', id_peca = 1\<rparr>, \<lparr>tipo = CHR ''L'', id_peca = 2\<rparr>,
                       \<lparr>tipo = CHR ''O'', id_peca = 9\<rparr>] \<and>
      pilha_lista p' = [peca_ex CHR ''S'' 4, peca_ex CHR ''I'' 5, peca_ex CHR ''Z'' 6] \<and>
      inicio f' = 3 \<and> fim f' = 1 \<and> total_f f' = 3 \<and> topo p' = 2)"
  using trocarTres_refinamento [OF fila_inv_ex pilha_cheia_ex_facts(1)]
  by (simp add: fila_inv_ex pilha_cheia_ex_facts fila_lista_ex esp_swapFirstThree_def
      fila_ex_campos)

text \<open>
  Claim C27. The failures of \<^verbatim>\<open>trocarTres\<close> and their order: whatever the queue,
  a valid stack that does not hold exactly three pieces makes the call fail with
  the stack-size message; with exactly three pieces on the stack and fewer than
  three in the queue it fails with the queue message; a failed call returns both
  structures unchanged.
\<close>

theorem trocarTres_falhas:
  assumes "pilha_inv p"
  shows "(topo p \<noteq> 2 \<longrightarrow>
            trocarTres f p =
              Some (False, ''Falha: a pilha precisa ter exatamente 3 pecas.\<newline>'', f, p)) \<and>
         (topo p = 2 \<and> total_f f < 3 \<longrightarrow>
            trocarTres f p =
              Some (False, ''Falha: a fila precisa ter pelo menos 3 pecas.\<newline>'', f, p))"
  using assms by (simp add: trocarTres_pilha_errada trocarTres_fila_curta)

theorem trocarTres_falhas_witness:
  "pilha_inv pilha_ex \<and> pilha_inv pilha_cheia_ex \<and>
   trocarTres (fila_ex\<lparr>total_f := 2\<rparr>) pilha_ex =
     Some (False, ''Falha: a pilha precisa ter exatamente 3 pecas.\<newline>'',
           fila_ex\<lparr>total_f := 2\<rparr>, pilha_ex) \<and>
   trocarTres (fila_ex\<lparr>total_f := 2\<rparr>) pilha_cheia_ex =
     Some (False, ''Falha: a fila precisa ter pelo menos 3 pecas.\<newline>'',
           fila_ex\<lparr>total_f := 2\<rparr>, pilha_cheia_ex)"
  using trocarTres_falhas [OF pilha_inv_ex, of "fila_ex\<lparr>total_f := 2\<rparr>"]
    trocarTres_falhas [OF pilha_cheia_ex_facts(1), of "fila_ex\<lparr>total_f := 2\<rparr>"]
  by (simp add: pilha_inv_ex pilha_cheia_ex_facts) (simp add: pilha_ex_def)

text \<open>
  Claim C28. Conservation: a call of \<^verbatim>\<open>trocarFrenteComTopo\<close> or \<^verbatim>\<open>trocarTres\<close> on
  valid structures, successful or not, neither creates nor loses a piece (the
  multiset of the pieces in queue and stack is unchanged) and changes neither
  the number of pieces in the queue nor the number in the stack.
\<close>

theorem trocas_conservam:
  assumes "fila_inv f" "pilha_inv p"
    and "trocarFrenteComTopo f p = Some (ok, out, f', p') \<or> trocarTres f p = Some (ok, out, f', p')"
  shows "mset (fila_lista f') + mset (pilha_lista p') = mset (fila_lista f) + mset (pilha_lista p) \<and>
         length (fila_lista f') = length (fila_lista f) \<and>
         length (pilha_lista p') = length (pilha_lista p)"
proof -
  from assms(3) show ?thesis
  proof
    assume "trocarFrenteComTopo f p = Some (ok, out, f', p')"
    with trocarFrenteComTopo_refina [OF assms(1,2)]
    have "(ok, fila_lista f', pilha_lista p') =
        (case esp_swapFrontTop (fila_lista f) (pilha_lista p) of
           Inl e \<Rightarrow> (False, fila_lista f, pilha_lista p) | Inr (a, b) \<Rightarrow> (True, a, b))"
      by simp
    then show ?thesis
      by (rule troca_conserva) (simp add: esp_swapFrontTop_mset esp_swapFrontTop_length)
  next
    assume "trocarTres f p = Some (ok, out, f', p')"
    with trocarTres_refina [OF assms(1,2)]
    have "(ok, fila_lista f', pilha_lista p') =
        (case esp_swapFirstThree (fila_lista f) (pilha_lista p) of
           Inl e \<Rightarrow> (False, fila_lista f, pilha_lista p) | Inr (a, b) \<Rightarrow> (True, a, b))"
      by simp
    then show ?thesis
      by (rule troca_conserva) (simp add: esp_swapFirstThree_mset esp_swapFirstThree_length)
  qed
qed

theorem trocas_conservam_witness:
  "fila_inv fila_ex \<and> pilha_inv pilha_cheia_ex \<and>
   (\<exists>f' p'. trocarTres fila_ex pilha_cheia_ex = Some (True, [], f', p') \<and>
      mset (fila_lista f') + mset (pilha_lista p') =
        mset (fila_lista fila_ex) + mset (pilha_lista pilha_cheia_ex) \<and>
      length (fila_lista f') = 3 \<and> length (pilha_lista p') = 3)"
proof -
  from trocarTres_listas [OF fila_inv_ex pilha_cheia_ex_facts(1,2)]
  obtain f' p' where t: "trocarTres fila_ex pilha_cheia_ex = Some (True, [], f', p')"
    by (auto simp: fila_ex_campos)
  from trocas_conservam [OF fila_inv_ex pilha_cheia_ex_facts(1) disjI2, OF t] t
  show ?thesis
    by (simp add: fila_inv_ex pilha_cheia_ex_facts fila_ex_campos)
qed

text \<open>
  Claim C23. Both exchanges undo themselves: on valid structures a successful call
  of \<^verbatim>\<open>trocarFrenteComTopo\<close> or of \<^verbatim>\<open>trocarTres\<close> followed by a second call succeeds
  again and gives back the arrays, indices and counts of the start, slot by slot;
  so each call moves the values it exchanges and overwrites nothing else.
\<close>

theorem trocas_involutivas:
  assumes "fila_inv f" "pilha_inv p"
  shows "(\<not> filaVazia f \<and> \<not> pilhaVazia p \<longrightarrow>
           (\<exists>f1 p1. trocarFrenteComTopo f p = Some (True, [], f1, p1) \<and>
              trocarFrenteComTopo f1 p1 = Some (True, [], f, p))) \<and>
         (topo p = 2 \<and> 3 \<le> total_f f \<longrightarrow>
           (\<exists>f1 p1. trocarTres f p = Some (True, [], f1, p1) \<and>
              trocarTres f1 p1 = Some (True, [], f, p)))"
  using trocarFrenteComTopo_duas_vezes [OF assms] trocarTres_duas_vezes [OF assms] by blast

theorem trocas_involutivas_witness:
  "fila_inv fila_ex \<and> pilha_inv pilha_cheia_ex \<and> \<not> filaVazia fila_ex \<and>
   \<not> pilhaVazia pilha_cheia_ex \<and> topo pilha_cheia_ex = 2 \<and> 3 \<le> total_f fila_ex \<and>
   (\<exists>f1 p1. trocarFrenteComTopo fila_ex pilha_cheia_ex = Some (True, [], f1, p1) \<and>
      trocarFrenteComTopo f1 p1 = Some (True, [], fila_ex, pilha_cheia_ex)) \<and>
   (\<exists>f1 p1. trocarTres fila_ex pilha_cheia_ex = Some (True, [], f1, p1) \<and>
      trocarTres f1 p1 = Some (True, [], fila_ex, pilha_cheia_ex))"
  using trocas_involutivas [OF fila_inv_ex pilha_cheia_ex_facts(1)]
  by (simp add: fila_inv_ex pilha_cheia_ex_facts fila_ex_campos filaVazia_def pilhaVazia_def)

end
