(* ===== verification/Exibicao.thy ===== *)
theory Exibicao
  imports Fila_Circular Pilha_Linear
begin

text \<open>
  What the program prints about its state (\<^verbatim>\<open>mostrarFila\<close>, \<^verbatim>\<open>mostrarPilha\<close> and
  \<^verbatim>\<open>mostrarEstado\<close> of \<^verbatim>\<open>src/tetris.c\<close>). A function that prints returns the text
  it writes to the standard output, as a string; the conversions \<^verbatim>\<open>%d\<close> and
  \<^verbatim>\<open>%c\<close> of \<^verbatim>\<open>printf\<close> are \<open>fmt_d\<close> and the character itself. The two \<^verbatim>\<open>for\<close>
  loops are functions of the loop counter with their termination proofs; they
  read the arrays, so the result is in \<open>ub\<close>.
\<close>

section \<open>Formatting\<close>

definition digito :: "nat \<Rightarrow> char" where
  "digito d = ''0123456789'' ! d"

fun dec_nat :: "nat \<Rightarrow> string" where
  "dec_nat n = (if n < 10 then [digito n] else dec_nat (n div 10) @ [digito (n mod 10)])"

declare dec_nat.simps [simp del]

definition fmt_d :: "int \<Rightarrow> string" where
  "fmt_d i = (if i < 0 then CHR ''-'' # dec_nat (nat (- i)) else dec_nat (nat i))"

definition fmt_peca :: "Peca \<Rightarrow> string" where
  "fmt_peca x = ''['' @ [tipo x] @ ''#'' @ fmt_d (id_peca x) @ '']''"

section \<open>Operations\<close>

function mostrarFila_laco :: "int \<Rightarrow> Fila \<Rightarrow> string ub" where
  "mostrarFila_laco i f =
     (if i < total_f f then
        do {
          s \<leftarrow> c_add (inicio f) i;
          x \<leftarrow> arr_read (itens_f f) (c_mod s MAX_FILA);
          u \<leftarrow> c_sub (total_f f) 1;
          i' \<leftarrow> c_add i 1;
          resto \<leftarrow> mostrarFila_laco i' f;
          Some (fmt_peca x @ (if i = u then [] else '' -> '') @ resto)
        }
      else Some [])"
  by pat_completeness auto
termination
  by (relation "measure (\<lambda>(i, f). nat (total_f f - i))") (auto simp: c_add_eq_Some)

declare mostrarFila_laco.simps [simp del]

definition mostrarFila :: "Fila \<Rightarrow> string ub" where
  "mostrarFila f =
     (let cab = ''\<newline>Fila (frente -> tras) ['' @ fmt_d (total_f f) @ ''/'' @ fmt_d MAX_FILA @ '']: ''
      in if total_f f = 0 then Some (cab @ ''(vazia)\<newline>'')
         else do {
           corpo \<leftarrow> mostrarFila_laco 0 f;
           Some (cab @ corpo @ ''\<newline>'')
         })"

function mostrarPilha_laco :: "int \<Rightarrow> Pilha \<Rightarrow> string ub" where
  "mostrarPilha_laco i p =
     (if i \<le> topo p then
        do {
          x \<leftarrow> arr_read (itens_p p) i;
          i' \<leftarrow> c_add i 1;
          resto \<leftarrow> mostrarPilha_laco i' p;
          Some (fmt_peca x @ (if i = topo p then [] else '' , '') @ resto)
        }
      else Some [])"
  by pat_completeness auto
termination
  by (relation "measure (\<lambda>(i, p). nat (topo p + 1 - i))") (auto simp: c_add_eq_Some)

declare mostrarPilha_laco.simps [simp del]

definition mostrarPilha :: "Pilha \<Rightarrow> string ub" where
  "mostrarPilha p =
     do {
       n \<leftarrow> c_add (topo p) 1;
       let cab = ''Pilha (base .. topo) ['' @ fmt_d n @ ''/'' @ fmt_d MAX_PILHA @ '']: '';
       if topo p = - 1 then Some (cab @ ''(vazia)\<newline>'')
       else do {
         corpo \<leftarrow> mostrarPilha_laco 0 p;
         marca \<leftarrow> (if topo p \<ge> 0
                    then map_option (\<lambda>x. ''  <topo='' @ fmt_peca x @ ''>'')
                           (arr_read (itens_p p) (topo p))
                    else Some []);
         Some (cab @ corpo @ marca @ ''\<newline>'')
       }
     }"

definition mostrarEstado :: "Fila \<Rightarrow> Pilha \<Rightarrow> string ub" where
  "mostrarEstado f p =
     do {
       a \<leftarrow> mostrarFila f;
       b \<leftarrow> mostrarPilha p;
       Some (a @ b @ ''\<newline>'')
     }"

section \<open>The screen as a function of the contents\<close>

text \<open>
  What the three functions are meant to print, defined on the contents of the
  queue (front first) and of the stack (base first): the counts, the pieces
  separated by \<^verbatim>\<open>" -> "\<close> and \<^verbatim>\<open>" , "\<close>, and the top of the stack repeated
  after the pieces.
\<close>

fun junta :: "string \<Rightarrow> string list \<Rightarrow> string" where
  "junta sep [] = []"
| "junta sep [x] = x"
| "junta sep (x # y # r) = x @ sep @ junta sep (y # r)"

definition tela_fila :: "Peca list \<Rightarrow> string" where
  "tela_fila q =
     ''\<newline>Fila (frente -> tras) ['' @ fmt_d (int (length q)) @ ''/'' @ fmt_d MAX_FILA @ '']: '' @
     (if q = [] then ''(vazia)\<newline>'' else junta '' -> '' (map fmt_peca q) @ ''\<newline>'')"

definition tela_pilha :: "Peca list \<Rightarrow> string" where
  "tela_pilha s =
     ''Pilha (base .. topo) ['' @ fmt_d (int (length s)) @ ''/'' @ fmt_d MAX_PILHA @ '']: '' @
     (if s = [] then ''(vazia)\<newline>''
      else junta '' , '' (map fmt_peca s) @ ''  <topo='' @ fmt_peca (last s) @ ''>\<newline>'')"

definition tela :: "Peca list \<Rightarrow> Peca list \<Rightarrow> string" where
  "tela q s = tela_fila q @ tela_pilha s @ ''\<newline>''"


lemmas [op_defs] = digito_def fmt_d_def fmt_peca_def mostrarFila_def mostrarPilha_def
  mostrarEstado_def

lemmas [op_defs] = tela_fila_def tela_pilha_def tela_def

section \<open>Formatting of numbers\<close>

lemma dec_nat_digito: "n < 10 \<Longrightarrow> dec_nat n = [digito n]"
  by (simp add: dec_nat.simps)

lemma dec_nat_rec: "10 \<le> n \<Longrightarrow> dec_nat n = dec_nat (n div 10) @ [digito (n mod 10)]"
  by (subst dec_nat.simps) simp

section \<open>The loops print the contents\<close>

lemma junta_Cons: "junta sep (x # r) = x @ (if r = [] then [] else sep @ junta sep r)"
  by (cases r) simp_all

lemma mostrarFila_laco_fim: "\<not> i < total_f f \<Longrightarrow> mostrarFila_laco i f = Some []"
  by (simp add: mostrarFila_laco.simps)

lemma mostrarFila_laco_lista:
  assumes "fila_inv f" "i \<le> nat (total_f f)"
  shows "mostrarFila_laco (int i) f =
           Some (junta '' -> '' (map fmt_peca (drop i (fila_lista f))))"
  using assms(2)
proof (induction "nat (total_f f) - i" arbitrary: i)
  case 0
  then show ?case by (simp add: mostrarFila_laco_fim)
next
  case (Suc n)
  note inv = fila_inv_nat [OF assms(1)]
  from Suc.hyps(2) have i: "i < nat (total_f f)" "int i < total_f f" by linarith+
  then have k: "i < 5" using inv by linarith
  have "in_bounds (itens_f f) ((inicio f + int i) mod 5)"
    using inv by (simp add: in_bounds_def)
  then have rd: "arr_read (itens_f f) ((inicio f + int i) mod 5) = Some (fila_lista f ! i)"
    using inv i by (simp add: nth_fila_lista)
  have dr: "drop i (fila_lista f) = fila_lista f ! i # drop (Suc i) (fila_lista f)"
    using i by (simp add: Cons_nth_drop_Suc)
  have ih: "mostrarFila_laco (int (Suc i)) f =
      Some (junta '' -> '' (map fmt_peca (drop (Suc i) (fila_lista f))))"
    using Suc.hyps(2) i by (intro Suc.hyps(1)) linarith+
  have last: "int i = total_f f - 1 \<longleftrightarrow> drop (Suc i) (fila_lista f) = []"
    using i by auto
  have "mostrarFila_laco (int i) f =
      Some (fmt_peca (fila_lista f ! i) @ (if int i = total_f f - 1 then [] else '' -> '') @
            junta '' -> '' (map fmt_peca (drop (Suc i) (fila_lista f))))"
    using i inv k ih by (subst mostrarFila_laco.simps) (simp add: rd add.commute)
  then show ?case by (simp add: dr junta_Cons last)
qed

lemma mostrarFila_tela: "fila_inv f \<Longrightarrow> mostrarFila f = Some (tela_fila (fila_lista f))"
  using mostrarFila_laco_lista [of f 0]
  by (auto simp: mostrarFila_def tela_fila_def Let_def fila_lista_eq_Nil filaVazia_def
      dest: fila_inv_nat)

lemma mostrarPilha_laco_fim: "\<not> i \<le> topo p \<Longrightarrow> mostrarPilha_laco i p = Some []"
  by (simp add: mostrarPilha_laco.simps)

lemma nth_pilha_lista: "i < nat (topo p + 1) \<Longrightarrow> pilha_lista p ! i = itens_p p ! i"
  by (simp add: pilha_lista_def)

lemma mostrarPilha_laco_lista:
  assumes "pilha_inv p" "i \<le> nat (topo p + 1)"
  shows "mostrarPilha_laco (int i) p =
           Some (junta '' , '' (map fmt_peca (drop i (pilha_lista p))))"
  using assms(2)
proof (induction "nat (topo p + 1) - i" arbitrary: i)
  case 0
  then have "\<not> int i \<le> topo p" by linarith
  then show ?case using 0 by (simp add: mostrarPilha_laco_fim)
next
  case (Suc n)
  note inv = pilha_inv_nat [OF assms(1)]
  from Suc.hyps(2) have i: "i < nat (topo p + 1)" "int i \<le> topo p" by linarith+
  have "in_bounds (itens_p p) (int i)"
    using inv i by (simp add: in_bounds_def)
  then have rd: "arr_read (itens_p p) (int i) = Some (pilha_lista p ! i)"
    using i by (simp add: nth_pilha_lista)
  have dr: "drop i (pilha_lista p) = pilha_lista p ! i # drop (Suc i) (pilha_lista p)"
    using i by (simp add: Cons_nth_drop_Suc)
  have ih: "mostrarPilha_laco (int (Suc i)) p =
      Some (junta '' , '' (map fmt_peca (drop (Suc i) (pilha_lista p))))"
    using Suc.hyps(2) i by (intro Suc.hyps(1)) linarith+
  have last: "int i = topo p \<longleftrightarrow> drop (Suc i) (pilha_lista p) = []"
    using i by auto
  have "mostrarPilha_laco (int i) p =
      Some (fmt_peca (pilha_lista p ! i) @ (if int i = topo p then [] else '' , '') @
            junta '' , '' (map fmt_peca (drop (Suc i) (pilha_lista p))))"
    using i inv ih by (subst mostrarPilha_laco.simps) (simp add: rd add.commute)
  then show ?case by (simp add: dr junta_Cons last)
qed

lemma last_pilha_lista_nth:
  assumes "pilha_inv p" "0 \<le> topo p"
  shows "arr_read (itens_p p) (topo p) = Some (last (pilha_lista p))"
proof -
  have "pilha_lista p \<noteq> []" "length (pilha_lista p) - 1 = nat (topo p)"
    using assms(2) by (auto simp: pilha_lista_def)
  then have "last (pilha_lista p) = itens_p p ! nat (topo p)"
    using assms(2) by (simp add: last_conv_nth nth_pilha_lista del: length_pilha_lista)
  then show ?thesis
    using assms pilha_inv_nat [OF assms(1)] by (simp add: in_bounds_def)
qed

lemma mostrarPilha_tela:
  assumes "pilha_inv p"
  shows "mostrarPilha p = Some (tela_pilha (pilha_lista p))"
proof (cases "topo p = - 1")
  case True
  then show ?thesis by (simp add: mostrarPilha_def tela_pilha_def pilha_lista_def)
next
  case False
  note inv = pilha_inv_nat [OF assms]
  from False inv have t: "0 \<le> topo p" "pilha_lista p \<noteq> []"
    by (auto simp: pilha_lista_def)
  have "int (length (pilha_lista p)) = topo p + 1" using t(1) by simp
  then show ?thesis
    using False t inv mostrarPilha_laco_lista [OF assms, of 0]
    by (simp add: mostrarPilha_def tela_pilha_def last_pilha_lista_nth [OF assms t(1)]
        del: length_pilha_lista)
qed

lemma mostrarEstado_tela:
  "fila_inv f \<Longrightarrow> pilha_inv p \<Longrightarrow>
     mostrarEstado f p = Some (tela (fila_lista f) (pilha_lista p))"
  by (simp add: mostrarEstado_def mostrarFila_tela mostrarPilha_tela tela_def)

section \<open>Properties of the display\<close>

text \<open>
  Claim C34. The screen shows the contents: on a valid queue and a valid stack
  \<^verbatim>\<open>mostrarEstado\<close> is free of undefined behaviour and prints exactly the counts
  and the pieces of the queue from front to back and of the stack from base to
  top, in the layout \<open>tela\<close>, followed by the top of the stack. The text is a
  function of the contents alone, so the slots outside the live ranges of the
  two arrays do not influence it.
\<close>

theorem exibicao_fiel:
  assumes "fila_inv f" "pilha_inv p"
  shows "mostrarEstado f p = Some (tela (fila_lista f) (pilha_lista p))"
  using assms by (rule mostrarEstado_tela)

theorem exibicao_fiel_witness:
  "fila_inv fila_ex \<and> pilha_inv pilha_ex \<and>
   mostrarEstado fila_ex pilha_ex =
     Some (''\<newline>Fila (frente -> tras) [3/5]: [S#4] -> [I#5] -> [Z#6]\<newline>'' @
           ''Pilha (base .. topo) [2/3]: [J#1] , [L#2]  <topo=[L#2]>\<newline>\<newline>'')"
  using exibicao_fiel [OF fila_inv_ex pilha_inv_ex]
  by (simp add: fila_inv_ex pilha_inv_ex fila_lista_ex pilha_lista_ex tela_def tela_fila_def
      tela_pilha_def fmt_peca_def fmt_d_def dec_nat_digito digito_def peca_ex_def)

end
