(* ===== verification/Jogo.thy ===== *)
theory Jogo
  imports Trocas Exibicao
begin

text \<open>
  The menu loop of \<^verbatim>\<open>main\<close> in \<^verbatim>\<open>src/tetris.c\<close>. The local variables of
  \<^verbatim>\<open>main\<close> and the hidden state of \<^verbatim>\<open>gerarPeca\<close> are the record \<open>Estado\<close>; the
  variable \<^verbatim>\<open>opcao\<close> is declared without a value and is \<open>None\<close> until
  \<^verbatim>\<open>scanf\<close> stores one. Each \<^verbatim>\<open>case\<close> of the \<^verbatim>\<open>switch\<close> is one definition
  (\<open>caso_jogar\<close>, \<open>caso_enviar\<close>, \<open>caso_usar\<close>, \<open>caso_trocar_frente\<close>,
  \<open>caso_trocar_tres\<close>), \<open>escolher\<close> is the \<^verbatim>\<open>switch\<close> and \<open>iteracao\<close> is the body
  of the \<^verbatim>\<open>do\<close> loop for one result of \<^verbatim>\<open>scanf("%d")\<close> followed by
  \<^verbatim>\<open>limparEntrada\<close>: a number, a line that is not a number, or the end of the
  input. All of them return the text they print together with the new state.

  The lemmas show that every turn refines the step \<open>esp_passo\<close> of the
  specification, on success and on each failure, and characterise exactly when
  a turn is undefined: when it must generate a piece and the identifiers are
  exhausted.
\<close>

section \<open>State and input\<close>

datatype leitura = Lido int | Lixo | FimDeEntrada

record Estado =
  fila :: Fila
  pilha :: Pilha
  ger :: Gerador
  opcao :: "int option"

section \<open>Operations\<close>

definition estado_inicial :: "Fila \<Rightarrow> Pilha \<Rightarrow> (nat \<Rightarrow> nat) \<Rightarrow> Estado ub" where
  "estado_inicial f0 p0 s =
     do {
       (f, g) \<leftarrow> reabastecerFila (inicializarFila f0) (gerador_inicial s);
       Some \<lparr>fila = f, pilha = inicializarPilha p0, ger = g, opcao = None\<rparr>
     }"

definition caso_jogar :: "Estado \<Rightarrow> (string \<times> Estado) ub" where
  "caso_jogar e =
     do {
       (ok, jogada, f1) \<leftarrow> dequeue (fila e) True;
       if \<not> ok then Some (''Nao ha peca para jogar: fila vazia.\<newline>'', e\<lparr>fila := f1\<rparr>)
       else do {
         x \<leftarrow> jogada;
         (f2, g2) \<leftarrow> reabastecerFila f1 (ger e);
         Some (''Jogou peca: '' @ fmt_peca x @ ''\<newline>'', e\<lparr>fila := f2, ger := g2\<rparr>)
       }
     }"

definition caso_enviar :: "Estado \<Rightarrow> (string \<times> Estado) ub" where
  "caso_enviar e =
     (if pilhaCheia (pilha e)
      then Some (''Reserva cheia (pilha cheia). Nao foi possivel enviar.\<newline>'', e)
      else do {
        (ok, frente, f1) \<leftarrow> dequeue (fila e) True;
        if \<not> ok then Some (''Fila vazia. Nada para enviar.\<newline>'', e\<lparr>fila := f1\<rparr>)
        else do {
          x \<leftarrow> frente;
          (ok2, p1) \<leftarrow> push (pilha e) x;
          (f2, g2) \<leftarrow> reabastecerFila f1 (ger e);
          Some (''Enviou '' @ fmt_peca x @ '' da fila para a reserva.\<newline>'',
                e\<lparr>fila := f2, pilha := p1, ger := g2\<rparr>)
        }
      })"

definition caso_usar :: "Estado \<Rightarrow> (string \<times> Estado) ub" where
  "caso_usar e =
     do {
       (ok, usada, p1) \<leftarrow> pop (pilha e) True;
       if \<not> ok then Some (''Reserva vazia. Nada para usar.\<newline>'', e\<lparr>pilha := p1\<rparr>)
       else do {
         x \<leftarrow> usada;
         Some (''Usou peca da reserva: '' @ fmt_peca x @ ''\<newline>'', e\<lparr>pilha := p1\<rparr>)
       }
     }"

definition caso_trocar_frente :: "Estado \<Rightarrow> (string \<times> Estado) ub" where
  "caso_trocar_frente e =
     do {
       (ok, msg, f1, p1) \<leftarrow> trocarFrenteComTopo (fila e) (pilha e);
       Some (msg @ (if ok then ''Troca realizada: frente da fila <-> topo da pilha.\<newline>''
                    else []),
             e\<lparr>fila := f1, pilha := p1\<rparr>)
     }"

definition caso_trocar_tres :: "Estado \<Rightarrow> (string \<times> Estado) ub" where
  "caso_trocar_tres e =
     do {
       (ok, msg, f1, p1) \<leftarrow> trocarTres (fila e) (pilha e);
       Some (msg @ (if ok
                    then ''Troca de 3 realizada entre fila (3 primeiros) e pilha (3 itens).\<newline>''
                    else []),
             e\<lparr>fila := f1, pilha := p1\<rparr>)
     }"

definition escolher :: "int \<Rightarrow> Estado \<Rightarrow> (string \<times> Estado) ub" where
  "escolher n e =
     (if n = 1 then caso_jogar e
      else if n = 2 then caso_enviar e
      else if n = 3 then caso_usar e
      else if n = 4 then caso_trocar_frente e
      else if n = 5 then caso_trocar_tres e
      else if n = 0 then Some (''Saindo...\<newline>'', e)
      else Some (''Opcao invalida.\<newline>'', e))"

definition cabecalho :: string where
  "cabecalho =
     ''\<newline>=============================\<newline>'' @
     ''  Desafio Tetris Stack (C)\<newline>'' @
     ''=============================\<newline>''"

definition menu :: string where
  "menu =
     ''Menu:\<newline>'' @
     '' 1 - Jogar peca (remove da frente da fila)\<newline>'' @
     '' 2 - Enviar peca da fila para a reserva (pilha)\<newline>'' @
     '' 3 - Usar peca da reserva (pop da pilha)\<newline>'' @
     '' 4 - Trocar peca da frente com topo da pilha\<newline>'' @
     '' 5 - Trocar 3 primeiros da fila com os 3 da pilha\<newline>'' @
     '' 0 - Sair\<newline>'' @
     ''Escolha: ''"

definition iteracao :: "leitura \<Rightarrow> Estado \<Rightarrow> (string \<times> Estado) ub" where
  "iteracao l e =
     do {
       tela \<leftarrow> mostrarEstado (fila e) (pilha e);
       case l of
         Lido n \<Rightarrow>
           do {
             v \<leftarrow> c_int n;
             (out, e1) \<leftarrow> escolher v (e\<lparr>opcao := Some v\<rparr>);
             fim_tela \<leftarrow> (if v \<noteq> 0 then mostrarEstado (fila e1) (pilha e1) else Some []);
             Some (cabecalho @ tela @ menu @ ''\<newline>'' @ out @ fim_tela, e1)
           }
       | Lixo \<Rightarrow> Some (cabecalho @ tela @ menu @ ''Entrada invalida.\<newline>'', e)
       | FimDeEntrada \<Rightarrow> Some (cabecalho @ tela @ menu @ ''Entrada invalida.\<newline>'', e)
     }"

section \<open>Invariant and abstraction\<close>

text \<open>
  The representation invariant of the state, its abstraction to the state of the
  specification, and the invariant of the game between two turns.
\<close>

definition estado_inv :: "Estado \<Rightarrow> bool" where
  "estado_inv e \<longleftrightarrow> fila_inv (fila e) \<and> pilha_inv (pilha e) \<and> gerador_inv (ger e)"

definition abs_jogo :: "Estado \<Rightarrow> esp_jogo" where
  "abs_jogo e = (fila_lista (fila e), pilha_lista (pilha e), ger e)"

definition jogo_inv :: "Estado \<Rightarrow> bool" where
  "jogo_inv e \<longleftrightarrow> estado_inv e \<and> esp_inv (abs_jogo e)"

text \<open>
  A turn consumes a piece of the queue when it is a play or a send that passes
  its checks; the refill that follows needs as many fresh identifiers as the
  queue then lacks.
\<close>

definition consome :: "int \<Rightarrow> Estado \<Rightarrow> bool" where
  "consome n e \<longleftrightarrow> \<not> filaVazia (fila e) \<and> (n = 1 \<or> n = 2 \<and> \<not> pilhaCheia (pilha e))"

definition ids_bastam :: "Estado \<Rightarrow> bool" where
  "ids_bastam e \<longleftrightarrow> proxId (ger e) + int (faltam (fila e)) < INT_MAX"

definition comando_de :: "int \<Rightarrow> comando option" where
  "comando_de n =
     (if n = 1 then Some Play else if n = 2 then Some SendToReserve
      else if n = 3 then Some UseReserve else if n = 4 then Some SwapFrontTop
      else if n = 5 then Some SwapFirstThree else None)"

text \<open>The text that \<^verbatim>\<open>main\<close> and the two exchanges print for each outcome of a turn.\<close>

definition msg_falha :: "comando \<Rightarrow> erro \<Rightarrow> string" where
  "msg_falha c err =
     (case (c, err) of
        (Play, QueueEmpty) \<Rightarrow> ''Nao ha peca para jogar: fila vazia.\<newline>''
      | (SendToReserve, StackFull) \<Rightarrow> ''Reserva cheia (pilha cheia). Nao foi possivel enviar.\<newline>''
      | (SendToReserve, QueueEmpty) \<Rightarrow> ''Fila vazia. Nada para enviar.\<newline>''
      | (UseReserve, StackEmpty) \<Rightarrow> ''Reserva vazia. Nada para usar.\<newline>''
      | (_, err) \<Rightarrow> msg_troca err)"

definition fmt_entregue :: "Peca option \<Rightarrow> string" where
  "fmt_entregue w = (case w of None \<Rightarrow> [] | Some x \<Rightarrow> fmt_peca x)"

definition msg_sucesso :: "comando \<Rightarrow> Peca option \<Rightarrow> string" where
  "msg_sucesso c w =
     (case c of
        Play \<Rightarrow> ''Jogou peca: '' @ fmt_entregue w @ ''\<newline>''
      | SendToReserve \<Rightarrow> ''Enviou '' @ fmt_entregue w @ '' da fila para a reserva.\<newline>''
      | UseReserve \<Rightarrow> ''Usou peca da reserva: '' @ fmt_entregue w @ ''\<newline>''
      | SwapFrontTop \<Rightarrow> ''Troca realizada: frente da fila <-> topo da pilha.\<newline>''
      | SwapFirstThree \<Rightarrow>
          ''Troca de 3 realizada entre fila (3 primeiros) e pilha (3 itens).\<newline>'')"

text \<open>
  A turn refines the abstract step: a failure leaves the state as it was and
  prints the message of the failure; a success leaves a state whose contents are
  those of the abstract step and prints the message of the command.
\<close>

definition refina_passo :: "comando \<Rightarrow> Estado \<Rightarrow> string \<Rightarrow> Estado \<Rightarrow> bool" where
  "refina_passo c e out e' \<longleftrightarrow>
     (case esp_passo c (abs_jogo e) of
        Inl err \<Rightarrow> e' = e \<and> out = msg_falha c err
      | Inr (w, a) \<Rightarrow> abs_jogo e' = a \<and> out = msg_sucesso c w)"

text \<open>
  What every case of the \<^verbatim>\<open>switch\<close> is shown to do: it is defined, keeps the
  representation invariant and \<^verbatim>\<open>opcao\<close>, and refines the abstract step.
\<close>

definition turno_ok :: "comando \<Rightarrow> Estado \<Rightarrow> (string \<times> Estado) ub \<Rightarrow> bool" where
  "turno_ok c e r \<longleftrightarrow>
     (\<exists>out e'. r = Some (out, e') \<and> estado_inv e' \<and> opcao e' = opcao e \<and>
        refina_passo c e out e')"

text \<open>The abstract state after the turn that a number selects.\<close>

definition turno_de :: "int \<Rightarrow> esp_jogo \<Rightarrow> esp_jogo" where
  "turno_de n a = (case comando_de n of None \<Rightarrow> a | Some c \<Rightarrow> esp_turno c a)"

text \<open>
  What an iteration prints, as a function of the abstract state: the message of
  the turn, the screen of a state, and the whole text of an iteration.
\<close>

definition msg_turno :: "int \<Rightarrow> esp_jogo \<Rightarrow> string" where
  "msg_turno n a =
     (case comando_de n of
        None \<Rightarrow> if n = 0 then ''Saindo...\<newline>'' else ''Opcao invalida.\<newline>''
      | Some c \<Rightarrow>
          (case esp_passo c a of Inl err \<Rightarrow> msg_falha c err | Inr (w, a') \<Rightarrow> msg_sucesso c w))"

definition tela_abs :: "esp_jogo \<Rightarrow> string" where
  "tela_abs a = (case a of (q, s, g) \<Rightarrow> tela q s)"

definition saida_iteracao :: "leitura \<Rightarrow> esp_jogo \<Rightarrow> string" where
  "saida_iteracao l a =
     cabecalho @ tela_abs a @ menu @
     (case l of
        Lido n \<Rightarrow>
          ''\<newline>'' @ msg_turno n a @ (if n \<noteq> 0 then tela_abs (turno_de n a) else [])
      | Lixo \<Rightarrow> ''Entrada invalida.\<newline>''
      | FimDeEntrada \<Rightarrow> ''Entrada invalida.\<newline>'')"

text \<open>The screen at the start of an iteration: banner, state and menu.\<close>

definition tela_menu :: "Estado \<Rightarrow> string" where
  "tela_menu e = cabecalho @ tela (fila_lista (fila e)) (pilha_lista (pilha e)) @ menu"

text \<open>
  A state between two turns, used to instantiate the theorems: the queue holds
  the pieces 4 to 8, the stack the pieces 1 and 2, and the next identifier is 9.
\<close>

definition fila_cheia_ex :: Fila where
  "fila_cheia_ex =
     \<lparr>itens_f = [peca_ex CHR ''Z'' 6, peca_ex CHR ''O'' 7, peca_ex CHR ''T'' 8,
                 peca_ex CHR ''S'' 4, peca_ex CHR ''I'' 5],
      inicio = 3, fim = 3, total_f = 5\<rparr>"

definition estado_ex :: Estado where
  "estado_ex =
     \<lparr>fila = fila_cheia_ex, pilha = pilha_ex,
      ger = \<lparr>proxId = 9, semente = (\<lambda>n. n), sorteios = 8\<rparr>, opcao = Some 1\<rparr>"

lemmas [inv_defs] = estado_inv_def jogo_inv_def
lemmas [op_defs] = caso_jogar_def caso_enviar_def caso_usar_def caso_trocar_frente_def
  caso_trocar_tres_def escolher_def

section \<open>Every turn refines the abstract step\<close>

lemma estado_invD:
  "estado_inv e \<Longrightarrow> fila_inv (fila e)" "estado_inv e \<Longrightarrow> pilha_inv (pilha e)"
  "estado_inv e \<Longrightarrow> gerador_inv (ger e)"
  by (simp_all add: estado_inv_def)

lemma estado_mesmo [simp]: "e\<lparr>fila := fila e, pilha := pilha e\<rparr> = e"
  by simp

lemma turno_ok_falha:
  "estado_inv e \<Longrightarrow> esp_passo c (abs_jogo e) = Inl err \<Longrightarrow> r = Some (msg_falha c err, e) \<Longrightarrow>
     turno_ok c e r"
  by (simp add: turno_ok_def refina_passo_def)

lemma turno_ok_sucesso:
  "estado_inv e' \<Longrightarrow> opcao e' = opcao e \<Longrightarrow>
     esp_passo c (abs_jogo e) = Inr (w, abs_jogo e') \<Longrightarrow> r = Some (msg_sucesso c w, e') \<Longrightarrow>
     turno_ok c e r"
  by (simp add: turno_ok_def refina_passo_def)

text \<open>The contents of a valid state, as the checks of the C code see them.\<close>

lemma abs_vazia:
  assumes "estado_inv e"
  shows "fila_lista (fila e) = [] \<longleftrightarrow> filaVazia (fila e)"
    and "pilha_lista (pilha e) = [] \<longleftrightarrow> pilhaVazia (pilha e)"
    and "nat (topo (pilha e) + 1) = 3 \<longleftrightarrow> topo (pilha e) = 2"
    and "nat (total_f (fila e)) < 3 \<longleftrightarrow> total_f (fila e) < 3"
  using estado_invD [OF assms]
  by (auto simp: fila_lista_eq_Nil pilha_lista_eq_Nil dest: pilha_inv_nat fila_inv_nat)

lemmas abs_simps = abs_jogo_def pilhaCheia_def esp_swapFrontTop_def esp_swapFirstThree_def

text \<open>The failures, case by case.\<close>

lemma caso_falhas:
  assumes "estado_inv e"
  shows "filaVazia (fila e) \<Longrightarrow> turno_ok Play e (caso_jogar e)"
    and "pilhaCheia (pilha e) \<or> filaVazia (fila e) \<Longrightarrow> turno_ok SendToReserve e (caso_enviar e)"
    and "pilhaVazia (pilha e) \<Longrightarrow> turno_ok UseReserve e (caso_usar e)"
proof -
  note [simp] = abs_simps abs_vazia [OF assms] msg_falha_def dequeue_vazia pop_vazia
  show "filaVazia (fila e) \<Longrightarrow> turno_ok Play e (caso_jogar e)"
    by (rule turno_ok_falha [OF assms, of _ QueueEmpty]) (simp_all add: caso_jogar_def)
  show "pilhaVazia (pilha e) \<Longrightarrow> turno_ok UseReserve e (caso_usar e)"
    by (rule turno_ok_falha [OF assms, of _ StackEmpty]) (simp_all add: caso_usar_def)
  show "turno_ok SendToReserve e (caso_enviar e)" if "pilhaCheia (pilha e) \<or> filaVazia (fila e)"
  proof (cases "pilhaCheia (pilha e)")
    case True
    then show ?thesis
      by (intro turno_ok_falha [OF assms, of _ StackFull]) (simp_all add: caso_enviar_def)
  next
    case False
    with that show ?thesis
      by (intro turno_ok_falha [OF assms, of _ QueueEmpty]) (simp_all add: caso_enviar_def)
  qed
qed

lemma trocas_falhas:
  assumes "estado_inv e"
  shows "filaVazia (fila e) \<or> pilhaVazia (pilha e) \<Longrightarrow>
           turno_ok SwapFrontTop e (caso_trocar_frente e)"
    and "topo (pilha e) \<noteq> 2 \<or> total_f (fila e) < 3 \<Longrightarrow>
           turno_ok SwapFirstThree e (caso_trocar_tres e)"
proof -
  note inv = estado_invD [OF assms]
  note [simp] = abs_simps abs_vazia [OF assms] msg_falha_def msg_troca_def
    trocarFrenteComTopo_eq [OF inv(1,2)] trocarTres_pilha_errada [OF inv(2)]
    trocarTres_fila_curta [OF inv(2)]
  show "turno_ok SwapFrontTop e (caso_trocar_frente e)"
    if "filaVazia (fila e) \<or> pilhaVazia (pilha e)"
    using that
    by (cases "filaVazia (fila e)")
      (intro turno_ok_falha [OF assms, of _ QueueEmpty], simp_all add: caso_trocar_frente_def,
       intro turno_ok_falha [OF assms, of _ StackEmpty], simp_all add: caso_trocar_frente_def)
  show "turno_ok SwapFirstThree e (caso_trocar_tres e)"
    if "topo (pilha e) \<noteq> 2 \<or> total_f (fila e) < 3"
    using that
    by (cases "topo (pilha e) = 2")
      (intro turno_ok_falha [OF assms, of _ QueueTooShort], simp_all add: caso_trocar_tres_def,
       intro turno_ok_falha [OF assms, of _ StackWrongSize], simp_all add: caso_trocar_tres_def)
qed

text \<open>The successes, case by case.\<close>

lemma caso_jogar_sucesso:
  assumes "estado_inv e" "\<not> filaVazia (fila e)" "ids_bastam e"
  shows "turno_ok Play e (caso_jogar e)"
proof -
  let ?q = "fila_lista (fila e)"
  note inv = estado_invD [OF assms(1)]
  from dequeue_reabastece [OF inv(1) assms(2) inv(3) assms(3) [unfolded ids_bastam_def]]
  obtain f1 f2 g2 where r: "dequeue (fila e) True = Some (True, Some (hd ?q), f1)"
      "reabastecerFila f1 (ger e) = Some (f2, g2)" "fila_inv f2" "gerador_inv g2"
      "(fila_lista f2, g2) = esp_refill 5 (tl ?q) (ger e)"
    by blast
  show ?thesis
  proof (rule turno_ok_sucesso [of "e\<lparr>fila := f2, ger := g2\<rparr>" _ _ "Some (hd ?q)"])
    show "caso_jogar e = Some (msg_sucesso Play (Some (hd ?q)), e\<lparr>fila := f2, ger := g2\<rparr>)"
      by (simp add: caso_jogar_def r msg_sucesso_def fmt_entregue_def)
    show "esp_passo Play (abs_jogo e) = Inr (Some (hd ?q), abs_jogo (e\<lparr>fila := f2, ger := g2\<rparr>))"
      using assms(2) r(5) [symmetric] by (simp add: abs_simps abs_vazia [OF assms(1)])
  qed (use inv r in \<open>simp_all add: estado_inv_def\<close>)
qed

lemma caso_enviar_sucesso:
  assumes "estado_inv e" "\<not> pilhaCheia (pilha e)" "\<not> filaVazia (fila e)" "ids_bastam e"
  shows "turno_ok SendToReserve e (caso_enviar e)"
proof -
  let ?q = "fila_lista (fila e)" and ?s = "pilha_lista (pilha e)"
  note inv = estado_invD [OF assms(1)]
  from dequeue_reabastece [OF inv(1) assms(3) inv(3) assms(4) [unfolded ids_bastam_def]]
  obtain f1 f2 g2 where r: "dequeue (fila e) True = Some (True, Some (hd ?q), f1)"
      "reabastecerFila f1 (ger e) = Some (f2, g2)" "fila_inv f2" "gerador_inv g2"
      "(fila_lista f2, g2) = esp_refill 5 (tl ?q) (ger e)"
    by blast
  obtain p1 where p: "push (pilha e) (hd ?q) = Some (True, p1)"
    using push_ok [OF inv(2) assms(2)] by simp
  have p1: "pilha_inv p1" "pilha_lista p1 = ?s @ [hd ?q]"
    using pilha_inv_push [OF inv(2) p] pilha_lista_push [OF inv(2) assms(2) p] by simp_all
  let ?e' = "e\<lparr>fila := f2, pilha := p1, ger := g2\<rparr>"
  show ?thesis
  proof (rule turno_ok_sucesso [of ?e' _ _ "Some (hd ?q)"])
    show "caso_enviar e = Some (msg_sucesso SendToReserve (Some (hd ?q)), ?e')"
      using assms(2) by (simp add: caso_enviar_def r p msg_sucesso_def fmt_entregue_def)
    show "esp_passo SendToReserve (abs_jogo e) = Inr (Some (hd ?q), abs_jogo ?e')"
      using assms(2,3) r(5) [symmetric] inv(2)
      by (simp add: abs_jogo_def abs_vazia [OF assms(1)] p1 pilha_cheia_lista
          del: length_pilha_lista)
  qed (use r p1 in \<open>simp_all add: estado_inv_def\<close>)
qed

lemma caso_usar_sucesso:
  assumes "estado_inv e" "\<not> pilhaVazia (pilha e)"
  shows "turno_ok UseReserve e (caso_usar e)"
proof -
  let ?s = "pilha_lista (pilha e)"
  note inv = estado_invD [OF assms(1)]
  have ne: "?s \<noteq> []" using assms by (simp add: abs_vazia)
  from pop_refina [OF inv(2)] ne
  obtain p1 where p: "pop (pilha e) True = Some (True, Some (last ?s), p1)"
      "pilha_lista p1 = butlast ?s"
    by (auto simp: esp_pop_def)
  show ?thesis
  proof (rule turno_ok_sucesso [of "e\<lparr>pilha := p1\<rparr>" _ _ "Some (last ?s)"])
    show "caso_usar e = Some (msg_sucesso UseReserve (Some (last ?s)), e\<lparr>pilha := p1\<rparr>)"
      by (simp add: caso_usar_def p msg_sucesso_def fmt_entregue_def)
    show "esp_passo UseReserve (abs_jogo e) = Inr (Some (last ?s), abs_jogo (e\<lparr>pilha := p1\<rparr>))"
      using ne by (simp add: abs_jogo_def p)
  qed (use inv pilha_inv_pop [OF inv(2) p(1)] in \<open>simp_all add: estado_inv_def\<close>)
qed

lemma caso_trocar_frente_sucesso:
  assumes "estado_inv e" "\<not> filaVazia (fila e)" "\<not> pilhaVazia (pilha e)"
  shows "turno_ok SwapFrontTop e (caso_trocar_frente e)"
proof -
  let ?f = "fila e" and ?p = "pilha e"
  note inv = estado_invD [OF assms(1)]
  let ?f' = "?f\<lparr>itens_f := (itens_f ?f)[nat (inicio ?f) := itens_p ?p ! nat (topo ?p)]\<rparr>"
  let ?p' = "?p\<lparr>itens_p := (itens_p ?p)[nat (topo ?p) := itens_f ?f ! nat (inicio ?f)]\<rparr>"
  show ?thesis
  proof (rule turno_ok_sucesso [of "e\<lparr>fila := ?f', pilha := ?p'\<rparr>" _ _ None])
    show "caso_trocar_frente e =
        Some (msg_sucesso SwapFrontTop None, e\<lparr>fila := ?f', pilha := ?p'\<rparr>)"
      using assms(2,3)
      by (simp add: caso_trocar_frente_def trocarFrenteComTopo_eq [OF inv(1,2)] msg_sucesso_def)
    show "esp_passo SwapFrontTop (abs_jogo e) =
        Inr (None, abs_jogo (e\<lparr>fila := ?f', pilha := ?p'\<rparr>))"
      using assms(2,3) inv
      by (simp add: abs_simps abs_vazia [OF assms(1)] fila_lista_troca_frente
          pilha_lista_troca_topo last_pilha_lista hd_fila_lista)
  qed (use inv in \<open>simp_all add: estado_inv_def fila_inv_troca pilha_inv_troca\<close>)
qed

lemma caso_trocar_tres_sucesso:
  assumes "estado_inv e" "topo (pilha e) = 2" "3 \<le> total_f (fila e)"
  shows "turno_ok SwapFirstThree e (caso_trocar_tres e)"
proof -
  let ?f = "fila e" and ?p = "pilha e"
  note inv = estado_invD [OF assms(1)]
  from trocarTres_listas [OF inv(1,2) assms(2,3)]
  obtain f' p' where r: "trocarTres ?f ?p = Some (True, [], f', p')" "fila_inv f'"
      "pilha_inv p'" "fila_lista f' = pilha_lista ?p @ drop 3 (fila_lista ?f)"
      "pilha_lista p' = take 3 (fila_lista ?f)"
    by blast
  show ?thesis
  proof (rule turno_ok_sucesso [of "e\<lparr>fila := f', pilha := p'\<rparr>" _ _ None])
    show "caso_trocar_tres e = Some (msg_sucesso SwapFirstThree None, e\<lparr>fila := f', pilha := p'\<rparr>)"
      by (simp add: caso_trocar_tres_def r msg_sucesso_def)
    show "esp_passo SwapFirstThree (abs_jogo e) = Inr (None, abs_jogo (e\<lparr>fila := f', pilha := p'\<rparr>))"
      using assms(2,3) by (simp add: abs_simps abs_vazia [OF assms(1)] r)
  qed (use inv r in \<open>simp_all add: estado_inv_def\<close>)
qed

text \<open>Every case, on every branch.\<close>

lemma casos_refinam:
  assumes "estado_inv e"
  shows "consome 1 e \<longrightarrow> ids_bastam e \<Longrightarrow> turno_ok Play e (caso_jogar e)"
    and "consome 2 e \<longrightarrow> ids_bastam e \<Longrightarrow> turno_ok SendToReserve e (caso_enviar e)"
    and "turno_ok UseReserve e (caso_usar e)"
    and "turno_ok SwapFrontTop e (caso_trocar_frente e)"
    and "turno_ok SwapFirstThree e (caso_trocar_tres e)"
proof -
  show "consome 1 e \<longrightarrow> ids_bastam e \<Longrightarrow> turno_ok Play e (caso_jogar e)"
    using caso_falhas(1) [OF assms] caso_jogar_sucesso [OF assms] by (auto simp: consome_def)
  show "consome 2 e \<longrightarrow> ids_bastam e \<Longrightarrow> turno_ok SendToReserve e (caso_enviar e)"
    using caso_falhas(2) [OF assms] caso_enviar_sucesso [OF assms] by (auto simp: consome_def)
  show "turno_ok UseReserve e (caso_usar e)"
    using caso_falhas(3) [OF assms] caso_usar_sucesso [OF assms] by auto
  show "turno_ok SwapFrontTop e (caso_trocar_frente e)"
    using trocas_falhas(1) [OF assms] caso_trocar_frente_sucesso [OF assms] by auto
  show "turno_ok SwapFirstThree e (caso_trocar_tres e)"
    using trocas_falhas(2) [OF assms] caso_trocar_tres_sucesso [OF assms]
    by (cases "total_f (fila e) < 3") auto
qed

section \<open>The switch\<close>

lemma caso_jogar_estoura:
  assumes "estado_inv e" "consome 1 e" "\<not> ids_bastam e"
  shows "caso_jogar e = None"
proof -
  from assms(2,3) have "\<not> filaVazia (fila e)"
      "\<not> proxId (ger e) + int (faltam (fila e)) < INT_MAX"
    by (simp_all add: consome_def ids_bastam_def)
  from dequeue_reabastece_estoura [OF estado_invD(1) this(1) estado_invD(3) this(2)] assms(1)
  show ?thesis by (auto simp: caso_jogar_def)
qed

lemma caso_enviar_estoura:
  assumes "estado_inv e" "consome 2 e" "\<not> ids_bastam e"
  shows "caso_enviar e = None"
proof -
  note inv = estado_invD [OF assms(1)]
  from assms(2,3) have c: "\<not> filaVazia (fila e)" "\<not> pilhaCheia (pilha e)"
      "\<not> proxId (ger e) + int (faltam (fila e)) < INT_MAX"
    by (simp_all add: consome_def ids_bastam_def)
  from dequeue_reabastece_estoura [OF inv(1) c(1) inv(3) c(3)] push_ok [OF inv(2) c(2)] c(2)
  show ?thesis by (auto simp: caso_enviar_def)
qed

lemma comando_de_eq_Some:
  "comando_de n = Some c \<longleftrightarrow>
     n = 1 \<and> c = Play \<or> n = 2 \<and> c = SendToReserve \<or> n = 3 \<and> c = UseReserve \<or>
     n = 4 \<and> c = SwapFrontTop \<or> n = 5 \<and> c = SwapFirstThree"
  by (auto simp: comando_de_def)

lemma comando_de_eq_None: "comando_de n = None \<longleftrightarrow> n \<notin> {1, 2, 3, 4, 5}"
  by (auto simp: comando_de_def)

lemma consome_outros [simp]: "n \<noteq> 1 \<Longrightarrow> n \<noteq> 2 \<Longrightarrow> \<not> consome n e"
  by (simp add: consome_def)

lemma escolher_refina:
  assumes "estado_inv e" "consome n e \<longrightarrow> ids_bastam e" "comando_de n = Some c"
  shows "\<exists>out e'. escolher n e = Some (out, e') \<and> estado_inv e' \<and> opcao e' = opcao e \<and>
           refina_passo c e out e'"
  using assms(3) casos_refinam [OF assms(1)] assms(2)
  by (auto simp: comando_de_eq_Some escolher_def turno_ok_def)

lemma escolher_outros:
  "comando_de n = None \<Longrightarrow>
     escolher n e = Some (if n = 0 then ''Saindo...\<newline>'' else ''Opcao invalida.\<newline>'', e)"
  by (simp add: comando_de_eq_None escolher_def)

lemma escolher_estoura:
  "estado_inv e \<Longrightarrow> consome n e \<Longrightarrow> \<not> ids_bastam e \<Longrightarrow> escolher n e = None"
  using caso_jogar_estoura [of e] caso_enviar_estoura [of e]
  by (auto simp: escolher_def consome_def)

lemma escolher_eq_None:
  assumes "estado_inv e"
  shows "escolher n e = None \<longleftrightarrow> consome n e \<and> \<not> ids_bastam e"
proof (cases "consome n e \<longrightarrow> ids_bastam e")
  case True
  then show ?thesis
    using escolher_refina [OF assms True] escolher_outros [of n e]
    by (cases "comando_de n") auto
next
  case False
  then show ?thesis using escolher_estoura [OF assms] by simp
qed

section \<open>The invariant of the game\<close>

lemma opcao_update_simps [simp]:
  "estado_inv (e\<lparr>opcao := v\<rparr>) = estado_inv e" "abs_jogo (e\<lparr>opcao := v\<rparr>) = abs_jogo e"
  "jogo_inv (e\<lparr>opcao := v\<rparr>) = jogo_inv e" "consome n (e\<lparr>opcao := v\<rparr>) = consome n e"
  "ids_bastam (e\<lparr>opcao := v\<rparr>) = ids_bastam e"
  by (simp_all add: estado_inv_def abs_jogo_def jogo_inv_def consome_def ids_bastam_def)

lemma jogo_invD:
  assumes "jogo_inv e"
  shows "estado_inv e" "esp_inv (abs_jogo e)" "filaCheia (fila e)" "faltam (fila e) = 0"
    "\<not> filaVazia (fila e)"
proof -
  show inv: "estado_inv e" "esp_inv (abs_jogo e)" using assms by (simp_all add: jogo_inv_def)
  then have "length (fila_lista (fila e)) = 5" by (simp add: esp_inv_def abs_jogo_def)
  then show "filaCheia (fila e)" "faltam (fila e) = 0" "\<not> filaVazia (fila e)"
    by (simp_all add: filaCheia_def faltam_def filaVazia_def)
qed

lemma refina_passo_inv:
  "esp_inv (abs_jogo e) \<Longrightarrow> refina_passo c e out e' \<Longrightarrow> esp_inv (abs_jogo e')"
  by (auto simp: refina_passo_def esp_passo_inv split: sum.splits)

lemma refina_passo_turno:
  "refina_passo c e out e' \<Longrightarrow> abs_jogo e' = esp_turno c (abs_jogo e)"
  by (auto simp: refina_passo_def esp_turno_def split: sum.splits)

lemma refina_passo_proxId:
  assumes "refina_passo c e out e'" "jogo_inv e"
  shows "proxId (ger e') \<le> proxId (ger e) + 1"
proof (cases "esp_passo c (abs_jogo e)")
  case (Inl err)
  then show ?thesis using assms(1) by (simp add: refina_passo_def)
next
  case (Inr r)
  then obtain w where "esp_passo c (fila_lista (fila e), pilha_lista (pilha e), ger e) =
      Inr (w, fila_lista (fila e'), pilha_lista (pilha e'), ger e')"
    using assms(1) by (cases r) (auto simp: refina_passo_def abs_jogo_def)
  from esp_passo_proxId [OF this] jogo_invD(2) [OF assms(2)] show ?thesis
    by (simp add: esp_inv_def abs_jogo_def)
qed

lemma escolher_jogo_inv:
  assumes "jogo_inv e" "escolher n e = Some (out, e')"
  shows "jogo_inv e' \<and> opcao e' = opcao e \<and> abs_jogo e' = turno_de n (abs_jogo e) \<and>
           proxId (ger e') \<le> proxId (ger e) + 1"
proof (cases "comando_de n")
  case None
  then show ?thesis using assms escolher_outros [of n e] by (simp add: turno_de_def)
next
  case (Some c)
  note inv = jogo_invD [OF assms(1)]
  from assms(2) have "consome n e \<longrightarrow> ids_bastam e"
    using escolher_eq_None [OF inv(1), of n] by auto
  from escolher_refina [OF inv(1) this Some] assms(2)
  have r: "estado_inv e'" "opcao e' = opcao e" "refina_passo c e out e'" by auto
  then show ?thesis
    using refina_passo_inv [OF inv(2) r(3)] refina_passo_turno [OF r(3)]
      refina_passo_proxId [OF r(3) assms(1)]
    by (simp add: jogo_inv_def turno_de_def Some)
qed

lemma mostrarEstado_estado:
  "estado_inv e \<Longrightarrow>
     mostrarEstado (fila e) (pilha e) = Some (tela (fila_lista (fila e)) (pilha_lista (pilha e)))"
  by (simp add: mostrarEstado_tela estado_invD)

lemma iteracao_invalida:
  "estado_inv e \<Longrightarrow> l = Lixo \<or> l = FimDeEntrada \<Longrightarrow>
     iteracao l e = Some (tela_menu e @ ''Entrada invalida.\<newline>'', e)"
  by (auto simp: iteracao_def mostrarEstado_estado tela_menu_def)

lemma iteracao_Lido:
  assumes "estado_inv e"
  shows "iteracao (Lido n) e =
     do {
       v \<leftarrow> c_int n;
       (out, e1) \<leftarrow> escolher v (e\<lparr>opcao := Some v\<rparr>);
       fim_tela \<leftarrow> (if v \<noteq> 0 then mostrarEstado (fila e1) (pilha e1) else Some []);
       Some (tela_menu e @ ''\<newline>'' @ out @ fim_tela, e1)
     }"
  using assms by (simp add: iteracao_def mostrarEstado_estado tela_menu_def)

lemma iteracao_jogo_inv:
  assumes "jogo_inv e" "iteracao l e = Some (out, e')"
  shows "jogo_inv e' \<and> proxId (ger e') \<le> proxId (ger e) + 1 \<and>
           (case l of Lido n \<Rightarrow> opcao e' = Some n \<and> abs_jogo e' = turno_de n (abs_jogo e)
            | _ \<Rightarrow> e' = e)"
proof (cases l)
  case (Lido n)
  note inv = jogo_invD [OF assms(1)]
  from assms(2) obtain out1 where "escolher n (e\<lparr>opcao := Some n\<rparr>) = Some (out1, e')"
    by (auto simp: Lido iteracao_Lido [OF inv(1)] ub_bind_eq_Some c_int_eq_Some)
  from escolher_jogo_inv [OF _ this] assms(1) show ?thesis by (simp add: Lido)
qed (use assms iteracao_invalida [OF jogo_invD(1) [OF assms(1)], of l] in auto)

lemma iteracao_definida:
  assumes "jogo_inv e" "INT_MIN \<le> n" "n \<le> INT_MAX" "consome n e \<longrightarrow> proxId (ger e) < INT_MAX"
  shows "\<exists>out e'. iteracao (Lido n) e = Some (out, e')"
proof -
  note inv = jogo_invD [OF assms(1)]
  have "consome n (e\<lparr>opcao := Some n\<rparr>) \<longrightarrow> ids_bastam (e\<lparr>opcao := Some n\<rparr>)"
    using assms(4) inv(4) by (simp add: ids_bastam_def)
  then obtain out e1 where r: "escolher n (e\<lparr>opcao := Some n\<rparr>) = Some (out, e1)"
    using escolher_eq_None [of "e\<lparr>opcao := Some n\<rparr>" n] inv(1) by auto
  from escolher_jogo_inv [OF _ r] assms(1) have "estado_inv e1" by (simp add: jogo_invD)
  then show ?thesis
    using assms(2,3) r by (simp add: iteracao_Lido [OF inv(1)] mostrarEstado_estado)
qed

lemma escolher_opcao: "escolher n e = Some (out, e') \<Longrightarrow> opcao e' = opcao e"
  by (auto simp: escolher_def caso_jogar_def caso_enviar_def caso_usar_def
      caso_trocar_frente_def caso_trocar_tres_def ub_bind_eq_Some split: if_splits)

lemma iteracao_opcao:
  "iteracao l e = Some (out, e') \<Longrightarrow> opcao e' = (case l of Lido n \<Rightarrow> Some n | _ \<Rightarrow> opcao e)"
  by (auto simp: iteracao_def ub_bind_eq_Some c_int_eq_Some dest!: escolher_opcao
      split: leitura.splits)

lemma consome_sucesso:
  assumes "estado_inv e" "comando_de n = Some c" "consome n e"
  shows "\<exists>w a. esp_passo c (abs_jogo e) = Inr (w, a)"
proof -
  note inv = estado_invD [OF assms(1)]
  from assms(3) have "fila_lista (fila e) \<noteq> []"
    using inv(1) by (simp add: consome_def fila_lista_eq_Nil)
  moreover from assms(3) have "n = 2 \<longrightarrow> length (pilha_lista (pilha e)) \<noteq> 3"
    using inv(2) by (auto simp: consome_def pilha_cheia_lista simp del: length_pilha_lista)
  ultimately show ?thesis
    using assms(2,3)
    by (auto simp: comando_de_eq_Some consome_def abs_jogo_def esp_refill_def
        simp del: length_pilha_lista)
qed

lemma escolher_falha:
  assumes "estado_inv e" "comando_de n = Some c" "esp_passo c (abs_jogo e) = Inl err"
  shows "escolher n e = Some (msg_falha c err, e)"
proof -
  have "\<not> consome n e" using consome_sucesso [OF assms(1,2)] assms(3) by auto
  then have "consome n e \<longrightarrow> ids_bastam e" by simp
  from escolher_refina [OF assms(1) this assms(2)] assms(3) show ?thesis
    by (auto simp: refina_passo_def)
qed

lemma escolher_repoe:
  assumes "estado_inv e" "consome n e" "escolher n e = Some (out, e')"
  shows "filaCheia (fila e') \<and> ger e' = avanca_n (Suc (faltam (fila e))) (ger e)"
proof -
  note inv = estado_invD [OF assms(1)]
  let ?q = "fila_lista (fila e)"
  from assms(2) obtain c where c: "comando_de n = Some c" "c = Play \<or> c = SendToReserve"
    by (auto simp: consome_def comando_de_def)
  from assms(3) have "consome n e \<longrightarrow> ids_bastam e"
    using escolher_eq_None [OF assms(1), of n] by auto
  from escolher_refina [OF assms(1) this c(1)] assms(3)
  have r: "estado_inv e'" "refina_passo c e out e'" by auto
  from consome_sucesso [OF assms(1) c(1) assms(2)] r(2) c(2)
  have "(fila_lista (fila e'), ger e') = esp_refill 5 (tl ?q) (ger e)"
    by (auto simp: refina_passo_def abs_jogo_def split: if_splits prod.splits)
  moreover have "5 - length (tl ?q) = Suc (faltam (fila e))" "length (tl ?q) \<le> 5"
    using assms(2) inv(1) fila_inv_nat [OF inv(1)] fila_nao_vazia_nat [of "fila e"]
    by (auto simp: faltam_def consome_def)
  ultimately have "length (fila_lista (fila e')) = 5"
      "ger e' = avanca_n (Suc (faltam (fila e))) (ger e)"
    by (auto simp: esp_refill_def)
  then show ?thesis by (simp add: filaCheia_def)
qed

text \<open>The text of an iteration is determined by the abstract state.\<close>

lemma escolher_msg:
  assumes "estado_inv e" "escolher n e = Some (out, e')"
  shows "out = msg_turno n (abs_jogo e)"
proof (cases "comando_de n")
  case None
  then show ?thesis using assms(2) escolher_outros [of n e] by (simp add: msg_turno_def)
next
  case (Some c)
  from assms(2) have "consome n e \<longrightarrow> ids_bastam e"
    using escolher_eq_None [OF assms(1), of n] by auto
  from escolher_refina [OF assms(1) this Some] assms(2)
  have "refina_passo c e out e'" by auto
  then show ?thesis
    by (auto simp: msg_turno_def Some refina_passo_def split: sum.splits)
qed

lemma tela_menu_abs: "tela_menu e = cabecalho @ tela_abs (abs_jogo e) @ menu"
  by (simp add: tela_menu_def tela_abs_def abs_jogo_def)

lemma iteracao_saida:
  assumes "jogo_inv e" "iteracao l e = Some (out, e')"
  shows "out = saida_iteracao l (abs_jogo e)"
proof (cases l)
  case (Lido n)
  note inv = jogo_invD [OF assms(1)]
  let ?e = "e\<lparr>opcao := Some n\<rparr>"
  from assms(2) obtain out1 ft where r: "escolher n ?e = Some (out1, e')"
      "(if n \<noteq> 0 then mostrarEstado (fila e') (pilha e') else Some []) = Some ft"
      "out = tela_menu e @ ''\<newline>'' @ out1 @ ft"
    by (auto simp: Lido iteracao_Lido [OF inv(1)] ub_bind_eq_Some c_int_eq_Some)
  from escolher_jogo_inv [OF _ r(1)] assms(1)
  have e': "jogo_inv e'" "abs_jogo e' = turno_de n (abs_jogo e)" by simp_all
  have "ft = (if n \<noteq> 0 then tela_abs (turno_de n (abs_jogo e)) else [])"
    using r(2) mostrarEstado_estado [OF jogo_invD(1) [OF e'(1)]] e'(2) [symmetric]
    by (auto simp: tela_abs_def abs_jogo_def split: if_splits)
  moreover have "out1 = msg_turno n (abs_jogo e)"
    using escolher_msg [OF _ r(1)] inv(1) by simp
  ultimately show ?thesis by (simp add: r(3) saida_iteracao_def Lido tela_menu_abs)
qed (use assms iteracao_invalida [OF jogo_invD(1) [OF assms(1)], of l] in
    \<open>auto simp: saida_iteracao_def tela_menu_abs\<close>)

section \<open>The example state\<close>

lemma fila_cheia_ex_facts:
  "fila_inv fila_cheia_ex" "filaCheia fila_cheia_ex" "\<not> filaVazia fila_cheia_ex"
  "faltam fila_cheia_ex = 0"
  "fila_lista fila_cheia_ex =
     [peca_ex CHR ''S'' 4, peca_ex CHR ''I'' 5, peca_ex CHR ''Z'' 6, peca_ex CHR ''O'' 7,
      peca_ex CHR ''T'' 8]"
  by (simp_all add: inv_defs op_defs c_defs fila_cheia_ex_def upt_conv_Cons nat_numeral)

lemma estado_ex_campos [simp]:
  "fila estado_ex = fila_cheia_ex" "pilha estado_ex = pilha_ex" "proxId (ger estado_ex) = 9"
  "opcao estado_ex = Some 1"
  by (simp_all add: estado_ex_def)

lemma estado_ex_facts:
  "estado_inv estado_ex" "jogo_inv estado_ex" "ids_bastam estado_ex"
  "consome 1 estado_ex" "consome 2 estado_ex"
proof -
  show "estado_inv estado_ex"
    by (simp add: estado_inv_def fila_cheia_ex_facts pilha_inv_ex gerador_inv_def)
  moreover have "esp_inv (abs_jogo estado_ex)"
    by (simp add: esp_inv_def abs_jogo_def fila_cheia_ex_facts pilha_lista_ex ids_ok_def
        peca_ex_def)
  ultimately show "jogo_inv estado_ex" by (simp add: jogo_inv_def)
  show "ids_bastam estado_ex" by (simp add: ids_bastam_def fila_cheia_ex_facts)
  show "consome 1 estado_ex" "consome 2 estado_ex"
    by (simp_all add: consome_def fila_cheia_ex_facts pilhaCheia_def pilha_ex_def)
qed


section \<open>Properties of a turn\<close>

text \<open>
  Claim C3. Every turn of the menu refines the step of the specification: from a
  state satisfying the representation invariant, with identifiers left if the
  turn takes a piece from the queue, the case of the \<^verbatim>\<open>switch\<close> selected by a number
  from 1 to 5 is free of undefined behaviour, keeps the invariant and the variable
  \<^verbatim>\<open>opcao\<close>, and either fails as the specification's operation fails, leaving the
  state as it was and printing the message of that failure, or leaves the queue,
  the stack and the generator that the operation prescribes and prints its message.
\<close>

theorem turno_refinamento:
  assumes "estado_inv e" "comando_de n = Some c" "consome n e \<longrightarrow> ids_bastam e"
  shows "\<exists>out e'. escolher n e = Some (out, e') \<and> estado_inv e' \<and> opcao e' = opcao e \<and>
           refina_passo c e out e'"
  using assms(1,3,2) by (rule escolher_refina)

theorem turno_refinamento_witness:
  "estado_inv estado_ex \<and> comando_de 2 = Some SendToReserve \<and> ids_bastam estado_ex \<and>
   (\<exists>out e'. escolher 2 estado_ex = Some (out, e') \<and> estado_inv e' \<and> opcao e' = Some 1 \<and>
      refina_passo SendToReserve estado_ex out e')"
  using turno_refinamento [of estado_ex 2 SendToReserve]
  by (simp add: estado_ex_facts comando_de_def)

text \<open>
  Claim C10. The only undefined behaviour of a turn: on a state satisfying the
  representation invariant, the \<^verbatim>\<open>switch\<close> is undefined exactly when the turn takes
  a piece from the queue (a play, or a send with room in the stack, on a queue that
  is not empty) and the refill that follows would increment \<^verbatim>\<open>proxId\<close> past
  \<^verbatim>\<open>INT_MAX\<close>.
\<close>

theorem turno_indefinido:
  assumes "estado_inv e"
  shows "escolher n e = None \<longleftrightarrow> consome n e \<and> \<not> ids_bastam e"
  using assms by (rule escolher_eq_None)

theorem turno_indefinido_witness:
  "estado_inv (estado_ex\<lparr>ger := (ger estado_ex)\<lparr>proxId := INT_MAX\<rparr>\<rparr>) \<and>
   escolher 1 (estado_ex\<lparr>ger := (ger estado_ex)\<lparr>proxId := INT_MAX\<rparr>\<rparr>) = None \<and>
   escolher 3 (estado_ex\<lparr>ger := (ger estado_ex)\<lparr>proxId := INT_MAX\<rparr>\<rparr>) \<noteq> None"
proof -
  let ?e = "estado_ex\<lparr>ger := (ger estado_ex)\<lparr>proxId := INT_MAX\<rparr>\<rparr>"
  have inv: "estado_inv ?e"
    using estado_ex_facts(1) by (simp add: estado_inv_def gerador_inv_def)
  moreover have "consome 1 ?e" "\<not> ids_bastam ?e"
    using estado_ex_facts(4) by (simp_all add: consome_def ids_bastam_def)
  ultimately show ?thesis
    using turno_indefinido [of ?e 1] turno_indefinido [of ?e 3] by simp
qed

text \<open>
  Claim C15. Failures are atomic and reported: when the operation of the
  specification selected by the number fails on the contents of the state
  (queue empty, queue too short, stack empty, stack full, stack of the wrong
  size), the turn returns the state unchanged, field by field, and prints the
  message of that failure.
\<close>

theorem turno_falha:
  assumes "estado_inv e" "comando_de n = Some c" "esp_passo c (abs_jogo e) = Inl err"
  shows "escolher n e = Some (msg_falha c err, e)"
  using assms by (rule escolher_falha)

theorem turno_falha_witness:
  "estado_inv estado_ex \<and> comando_de 5 = Some SwapFirstThree \<and>
   esp_passo SwapFirstThree (abs_jogo estado_ex) = Inl StackWrongSize \<and>
   escolher 5 estado_ex =
     Some (''Falha: a pilha precisa ter exatamente 3 pecas.\<newline>'', estado_ex)"
proof -
  have "esp_passo SwapFirstThree (abs_jogo estado_ex) = Inl StackWrongSize"
    by (simp add: abs_jogo_def esp_swapFirstThree_def pilha_lista_ex)
  moreover have "comando_de 5 = Some SwapFirstThree" by (simp add: comando_de_def)
  ultimately show ?thesis
    using turno_falha [of estado_ex 5 SwapFirstThree StackWrongSize]
    by (simp add: estado_ex_facts msg_falha_def msg_troca_def)
qed

text \<open>
  Claim C12. The invariant of the game holds after every turn: from a state in
  which the queue is full and the pieces in play have distinct identifiers below
  \<^verbatim>\<open>proxId\<close>, an iteration of the loop that reads a number in the range of \<^verbatim>\<open>int\<close>
  is defined (given one identifier if the turn takes a piece), leaves a state with
  the same properties, with \<^verbatim>\<open>total = 5\<close> and \<^verbatim>\<open>topo\<close> between -1 and 2, stores the
  number in \<^verbatim>\<open>opcao\<close>, and changes the contents as the specification prescribes.
\<close>

theorem turno_invariante:
  assumes "jogo_inv e" "INT_MIN \<le> n" "n \<le> INT_MAX" "consome n e \<longrightarrow> proxId (ger e) < INT_MAX"
  shows "\<exists>out e'. iteracao (Lido n) e = Some (out, e') \<and> jogo_inv e' \<and>
           total_f (fila e') = MAX_FILA \<and> - 1 \<le> topo (pilha e') \<and> topo (pilha e') < MAX_PILHA \<and>
           opcao e' = Some n \<and> abs_jogo e' = turno_de n (abs_jogo e)"
proof -
  from iteracao_definida [OF assms] obtain out e'
    where it: "iteracao (Lido n) e = Some (out, e')" by blast
  from iteracao_jogo_inv [OF assms(1) it]
  have r: "jogo_inv e'" "opcao e' = Some n" "abs_jogo e' = turno_de n (abs_jogo e)" by simp_all
  from jogo_invD [OF r(1)] have "filaCheia (fila e')" "pilha_inv (pilha e')"
    by (simp_all add: estado_invD)
  then show ?thesis using it r by (auto simp: filaCheia_def dest: pilha_inv_nat)
qed

theorem turno_invariante_witness:
  "jogo_inv estado_ex \<and> proxId (ger estado_ex) < INT_MAX \<and>
   (\<exists>out e'. iteracao (Lido 1) estado_ex = Some (out, e') \<and> jogo_inv e' \<and>
      total_f (fila e') = 5 \<and> - 1 \<le> topo (pilha e') \<and> topo (pilha e') < 3 \<and>
      opcao e' = Some 1 \<and> abs_jogo e' = turno_de 1 (abs_jogo estado_ex))"
  using turno_invariante [of estado_ex 1] by (simp add: estado_ex_facts)

text \<open>
  Claim C14. Refill convergence: a play or a send that takes a piece from the
  queue, on any valid queue that is not empty, full or not, leaves the queue with
  \<^verbatim>\<open>total = MAX_FILA\<close>, and advances \<^verbatim>\<open>proxId\<close> by the number of pieces the queue
  lacked plus one.
\<close>

theorem reposicao_completa:
  assumes "estado_inv e" "consome n e" "ids_bastam e"
  shows "\<exists>out e'. escolher n e = Some (out, e') \<and> total_f (fila e') = MAX_FILA \<and>
           proxId (ger e') = proxId (ger e) + int (faltam (fila e)) + 1"
proof -
  from escolher_eq_None [OF assms(1), of n] assms(3)
  obtain out e' where r: "escolher n e = Some (out, e')" by auto
  from escolher_repoe [OF assms(1,2) r] r show ?thesis by (auto simp: filaCheia_def)
qed

theorem reposicao_completa_witness:
  "estado_inv (estado_ex\<lparr>fila := fila_ex\<rparr>) \<and> consome 2 (estado_ex\<lparr>fila := fila_ex\<rparr>) \<and>
   ids_bastam (estado_ex\<lparr>fila := fila_ex\<rparr>) \<and> total_f fila_ex = 3 \<and>
   (\<exists>out e'. escolher 2 (estado_ex\<lparr>fila := fila_ex\<rparr>) = Some (out, e') \<and>
      total_f (fila e') = 5 \<and> proxId (ger e') = 12)"
proof -
  let ?e = "estado_ex\<lparr>fila := fila_ex\<rparr>"
  have "estado_inv ?e" using estado_ex_facts(1) by (simp add: estado_inv_def fila_inv_ex)
  moreover have "consome 2 ?e" "ids_bastam ?e" "faltam fila_ex = 2"
    using estado_ex_facts(5)
    by (simp_all add: consome_def ids_bastam_def faltam_def filaVazia_def fila_ex_campos)
  ultimately show ?thesis
    using reposicao_completa [of ?e 2] by (simp add: fila_ex_campos)
qed

text \<open>
  Claim C35. The order of the checks of a send: with a full stack the turn prints
  that the reserve is full and returns the state unchanged, whatever the queue
  holds; a full stack never consumes a piece of the queue. No invariant is
  assumed.
\<close>

theorem enviar_reserva_cheia:
  assumes "pilhaCheia (pilha e)"
  shows "caso_enviar e =
           Some (''Reserva cheia (pilha cheia). Nao foi possivel enviar.\<newline>'', e)"
  using assms by (simp add: caso_enviar_def)

theorem enviar_reserva_cheia_witness:
  "pilhaCheia (pilha (estado_ex\<lparr>pilha := pilha_cheia_ex\<rparr>)) \<and>
   caso_enviar (estado_ex\<lparr>pilha := pilha_cheia_ex\<rparr>) =
     Some (''Reserva cheia (pilha cheia). Nao foi possivel enviar.\<newline>'',
           estado_ex\<lparr>pilha := pilha_cheia_ex\<rparr>)"
  using enviar_reserva_cheia [of "estado_ex\<lparr>pilha := pilha_cheia_ex\<rparr>"]
  by (simp add: pilhaCheia_def pilha_cheia_ex_facts)

end
