(* ===== verification/Execucao.thy ===== *)
theory Execucao
  imports Jogo
begin

text \<open>
  The \<^verbatim>\<open>do ... while (opcao != 0)\<close> loop of \<^verbatim>\<open>main\<close> and the whole program. The
  standard input is the list of the results of the successive calls of
  \<^verbatim>\<open>scanf\<close>; once the list is exhausted every call reads the end of the input.
  The loop may run forever, so \<open>executar\<close> takes the number of iterations it
  may make and its result says whether the program returned, is still running,
  or met undefined behaviour. The theorems state when the program returns (and
  with how many iterations), what it has printed and holds before that, when no
  number of iterations is enough, on which inputs it meets no undefined
  behaviour, and that every state the loop reaches satisfies the invariant of
  the game.
\<close>

section \<open>The loop\<close>

datatype desfecho = Indefinido | Esgotado string Estado | Retornou string Estado

fun ler :: "leitura list \<Rightarrow> leitura \<times> leitura list" where
  "ler [] = (FimDeEntrada, [])"
| "ler (l # ls) = (l, ls)"

definition continua :: "Estado \<Rightarrow> bool ub" where
  "continua e = map_option (\<lambda>v. v \<noteq> 0) (opcao e)"

fun apos :: "string \<Rightarrow> desfecho \<Rightarrow> desfecho" where
  "apos out Indefinido = Indefinido"
| "apos out (Esgotado t e) = Esgotado (out @ t) e"
| "apos out (Retornou t e) = Retornou (out @ t) e"

fun executar :: "nat \<Rightarrow> leitura list \<Rightarrow> Estado \<Rightarrow> desfecho" where
  "executar 0 ls e = Esgotado [] e"
| "executar (Suc k) ls e =
     (case iteracao (fst (ler ls)) e of
        None \<Rightarrow> Indefinido
      | Some (out, e1) \<Rightarrow>
          (case continua e1 of
             None \<Rightarrow> Indefinido
           | Some True \<Rightarrow> apos out (executar k (snd (ler ls)) e1)
           | Some False \<Rightarrow> Retornou out e1))"

definition programa :: "nat \<Rightarrow> Fila \<Rightarrow> Pilha \<Rightarrow> (nat \<Rightarrow> nat) \<Rightarrow> leitura list \<Rightarrow> desfecho" where
  "programa k f0 p0 s ls =
     (case estado_inicial f0 p0 s of None \<Rightarrow> Indefinido | Some e \<Rightarrow> executar k ls e)"

section \<open>Reachable states\<close>

text \<open>
  The states in which the loop body can start: the initial state, and every
  state that an iteration leaves with the loop condition true.
\<close>

inductive alcancavel :: "Estado \<Rightarrow> bool" where
  alc_inicio: "length (itens_f f0) = 5 \<Longrightarrow> length (itens_p p0) = 3 \<Longrightarrow>
     estado_inicial f0 p0 s = Some e \<Longrightarrow> alcancavel e"
| alc_passo: "alcancavel e \<Longrightarrow> iteracao l e = Some (out, e') \<Longrightarrow> continua e' = Some True \<Longrightarrow>
     alcancavel e'"

inductive_cases alcancavelE: "alcancavel e"

section \<open>Inputs\<close>

text \<open>
  The commands that a list of inputs selects, and the inputs on which the loop
  is defined and keeps running: numbers other than 0 in the range of \<^verbatim>\<open>int\<close>, and
  lines that are not numbers once \<^verbatim>\<open>opcao\<close> holds a value.
\<close>

fun comandos :: "leitura list \<Rightarrow> comando list" where
  "comandos [] = []"
| "comandos (Lido n # ls) =
     (case comando_de n of None \<Rightarrow> comandos ls | Some c \<Rightarrow> c # comandos ls)"
| "comandos (Lixo # ls) = comandos ls"
| "comandos (FimDeEntrada # ls) = comandos ls"

fun entrada_ok :: "bool \<Rightarrow> leitura list \<Rightarrow> bool" where
  "entrada_ok ini [] = True"
| "entrada_ok ini (Lido n # ls) = (INT_MIN \<le> n \<and> n \<le> INT_MAX \<and> n \<noteq> 0 \<and> entrada_ok True ls)"
| "entrada_ok ini (Lixo # ls) = (ini \<and> entrada_ok ini ls)"
| "entrada_ok ini (FimDeEntrada # ls) = (ini \<and> entrada_ok ini ls)"

text \<open>
  What a run prints, as a function of the inputs and of the abstract state at its
  start: the texts of the iterations up to the one that reads 0.
\<close>

fun saida_run :: "leitura list \<Rightarrow> esp_jogo \<Rightarrow> string" where
  "saida_run [] a = []"
| "saida_run (l # ls) a =
     saida_iteracao l a @
     (if l = Lido 0 then [] else saida_run ls (esp_jogo_run (comandos [l]) a))"

text \<open>The initial state for the seed \<open>\<lambda>n. n\<close>, used to instantiate the theorems.\<close>

definition estado_inicial_ex :: Estado where
  "estado_inicial_ex =
     \<lparr>fila = \<lparr>itens_f = [peca_ex CHR ''I'' 1, peca_ex CHR ''O'' 2, peca_ex CHR ''T'' 3,
                          peca_ex CHR ''S'' 4, peca_ex CHR ''Z'' 5],
               inicio = 0, fim = 0, total_f = 5\<rparr>,
      pilha = pilha_ex\<lparr>topo := - 1\<rparr>,
      ger = \<lparr>proxId = 6, semente = (\<lambda>n. n), sorteios = 5\<rparr>, opcao = None\<rparr>"

lemmas [op_defs] = continua_def programa_def

section \<open>Running the loop\<close>

lemma executar_passo:
  "iteracao (fst (ler ls)) e = Some (out, e1) \<Longrightarrow> opcao e1 = Some v \<Longrightarrow>
     executar (Suc k) ls e =
       (if v \<noteq> 0 then apos out (executar k (snd (ler ls)) e1) else Retornou out e1)"
  by (simp add: continua_def)

lemma executar_indefinido:
  "iteracao (fst (ler ls)) e = None \<or>
   (\<exists>out e1. iteracao (fst (ler ls)) e = Some (out, e1) \<and> opcao e1 = None) \<Longrightarrow>
     executar (Suc k) ls e = Indefinido"
  by (auto simp: continua_def)

lemma apos_eq_Retornou:
  "apos out d = Retornou t e \<longleftrightarrow> (\<exists>t'. d = Retornou t' e \<and> t = out @ t')"
  by (cases d) auto

lemma apos_apos: "apos a (apos b d) = apos (a @ b) d"
  by (cases d) simp_all

lemma apos_Nil: "apos [] d = d"
  by (cases d) simp_all

lemma apos_neq_Indefinido: "apos out d = Indefinido \<longleftrightarrow> d = Indefinido"
  by (cases d) simp_all

lemma nao_retorna:
  "opcao e \<noteq> Some 0 \<Longrightarrow> Lido 0 \<notin> set ls \<Longrightarrow> executar k ls e \<noteq> Retornou out e'"
proof (induction k arbitrary: ls e out)
  case 0
  show ?case by simp
next
  case (Suc k)
  show ?case
  proof (cases "iteracao (fst (ler ls)) e")
    case None
    then show ?thesis by simp
  next
    case (Some r)
    obtain out1 e1 where r: "r = (out1, e1)" by (cases r)
    have l: "fst (ler ls) \<noteq> Lido 0" "Lido 0 \<notin> set (snd (ler ls))"
      using Suc.prems(2) by (cases ls; auto)+
    from iteracao_opcao [OF Some [unfolded r]] Suc.prems(1) l(1)
    have o: "opcao e1 \<noteq> Some 0" by (auto split: leitura.splits)
    show ?thesis
    proof (cases "opcao e1")
      case None
      then show ?thesis using Some r by (simp add: continua_def)
    next
      case (Some v)
      with o have "v \<noteq> 0" by simp
      then show ?thesis
        using executar_passo [OF \<open>iteracao (fst (ler ls)) e = Some r\<close> [unfolded r] Some, of k]
          Suc.IH [OF o l(2)]
        by (simp add: apos_eq_Retornou)
    qed
  qed
qed

lemma executar_fim_de_entrada:
  assumes "estado_inv e" "opcao e = Some v" "v \<noteq> 0"
  shows "executar k [] e =
           Esgotado (concat (replicate k (tela_menu e @ ''Entrada invalida.\<newline>''))) e"
proof (induction k)
  case 0
  show ?case by simp
next
  case (Suc k)
  have "iteracao (fst (ler [])) e = Some (tela_menu e @ ''Entrada invalida.\<newline>'', e)"
    using assms(1) by (simp add: iteracao_invalida)
  from executar_passo [OF this assms(2), of k] assms(3) Suc show ?case by simp
qed

lemma executar_opcao_indeterminada:
  assumes "estado_inv e" "opcao e = None" "fst (ler ls) = Lixo \<or> fst (ler ls) = FimDeEntrada"
  shows "executar (Suc k) ls e = Indefinido"
  using iteracao_invalida [OF assms(1,3)] assms(2) by (intro executar_indefinido) simp

lemma iteracao_sair:
  assumes "estado_inv e"
  shows "iteracao (Lido 0) e = Some (tela_menu e @ ''\<newline>Saindo...\<newline>'', e\<lparr>opcao := Some 0\<rparr>)"
  using assms by (simp add: iteracao_Lido escolher_def)

lemma executar_sair:
  "estado_inv e \<Longrightarrow>
     executar (Suc k) (Lido 0 # ls) e =
       Retornou (tela_menu e @ ''\<newline>Saindo...\<newline>'') (e\<lparr>opcao := Some 0\<rparr>)"
  by (simp add: iteracao_sair continua_def)

lemma comandos_um: "esp_jogo_run (comandos [Lido n]) a = turno_de n a"
  by (simp add: turno_de_def split: option.splits)

lemma iteracao_entrada:
  assumes "jogo_inv e" "entrada_ok (opcao e \<noteq> None) (l # pre)" "proxId (ger e) < INT_MAX"
    "opcao e \<noteq> Some 0"
  shows "\<exists>e1 v. iteracao l e = Some (saida_iteracao l (abs_jogo e), e1) \<and> jogo_inv e1 \<and>
           opcao e1 = Some v \<and> v \<noteq> 0 \<and> l \<noteq> Lido 0 \<and> entrada_ok True pre \<and>
           abs_jogo e1 = esp_jogo_run (comandos [l]) (abs_jogo e) \<and>
           proxId (ger e1) \<le> proxId (ger e) + 1"
proof -
  have "\<exists>out e1. iteracao l e = Some (out, e1)"
  proof (cases l)
    case (Lido n)
    with assms(2) have "INT_MIN \<le> n" "n \<le> INT_MAX" by simp_all
    from iteracao_definida [OF assms(1) this] assms(3) show ?thesis by (simp add: Lido)
  qed (use iteracao_invalida [OF jogo_invD(1) [OF assms(1)], of l] in auto)
  then obtain out e1 where it: "iteracao l e = Some (out, e1)" by blast
  from iteracao_jogo_inv [OF assms(1) it] iteracao_saida [OF assms(1) it] it assms(2,4)
  show ?thesis
    by (cases l; cases "opcao e") (auto simp: comandos_um simp del: comandos.simps(2))
qed

lemma comandos_Cons: "comandos (l # ls) = comandos [l] @ comandos ls"
  by (cases l) (simp_all split: option.splits)

lemma entrada_ok_sem_zero: "entrada_ok b pre \<Longrightarrow> Lido 0 \<notin> set pre"
  by (induction b pre rule: entrada_ok.induct) auto

lemma saida_run_snoc_sair:
  "Lido 0 \<notin> set pre \<Longrightarrow>
     saida_run (pre @ [Lido 0]) a =
       saida_run pre a @ saida_iteracao (Lido 0) (esp_jogo_run (comandos pre) a)"
proof (induction pre arbitrary: a)
  case Nil
  show ?case by simp
next
  case (Cons l pre)
  then show ?case
    using comandos_Cons [of l pre] by (auto simp: esp_jogo_run_append simp del: comandos.simps)
qed

text \<open>
  The loop on a prefix of its input: after one iteration per input of \<open>pre\<close> the
  run continues from a state \<open>e'\<close> that refines the abstract game, whatever the
  rest of the input and the iterations left.
\<close>

lemma executar_prefixo:
  assumes "jogo_inv e" "entrada_ok (opcao e \<noteq> None) pre"
    "proxId (ger e) + int (length pre) \<le> INT_MAX" "opcao e \<noteq> Some 0"
  shows "\<exists>e'. jogo_inv e' \<and> abs_jogo e' = esp_jogo_run (comandos pre) (abs_jogo e) \<and>
           opcao e' \<noteq> Some 0 \<and> (opcao e' = None \<longrightarrow> pre = [] \<and> opcao e = None) \<and>
           proxId (ger e') \<le> proxId (ger e) + int (length pre) \<and>
           (\<forall>j rest. executar (length pre + j) (pre @ rest) e =
              apos (saida_run pre (abs_jogo e)) (executar j rest e'))"
  using assms
proof (induction pre arbitrary: e)
  case Nil
  then show ?case by (intro exI [of _ e]) (simp add: apos_Nil)
next
  case (Cons l pre)
  let ?a = "esp_jogo_run (comandos [l]) (abs_jogo e)"
  from Cons.prems(3) have "proxId (ger e) < INT_MAX" by simp
  from iteracao_entrada [OF Cons.prems(1,2) this Cons.prems(4)]
  obtain e1 v where it: "iteracao l e = Some (saida_iteracao l (abs_jogo e), e1)" "jogo_inv e1"
      "opcao e1 = Some v" "v \<noteq> 0" "l \<noteq> Lido 0" "entrada_ok True pre" "abs_jogo e1 = ?a"
      "proxId (ger e1) \<le> proxId (ger e) + 1"
    by blast
  have "entrada_ok (opcao e1 \<noteq> None) pre" "proxId (ger e1) + int (length pre) \<le> INT_MAX"
      "opcao e1 \<noteq> Some 0"
    using it(3,4,6,8) Cons.prems(3) by simp_all
  from Cons.IH [OF it(2) this] obtain e'
    where r: "jogo_inv e'" "abs_jogo e' = esp_jogo_run (comandos pre) ?a" "opcao e' \<noteq> Some 0"
      "opcao e' \<noteq> None" "proxId (ger e') \<le> proxId (ger e1) + int (length pre)"
      "\<And>j rest. executar (length pre + j) (pre @ rest) e1 =
          apos (saida_run pre ?a) (executar j rest e')"
    by (auto simp: it(3,7))
  have "executar (length (l # pre) + j) ((l # pre) @ rest) e =
      apos (saida_run (l # pre) (abs_jogo e)) (executar j rest e')" for j rest
    using executar_passo [of "(l # pre) @ rest" e _ e1 v "length pre + j"] it(1,3,4,5)
      r(6) [of j rest]
    by (simp add: apos_apos del: executar.simps comandos.simps)
  then show ?case
    using r(1-5) it(8) comandos_Cons [of l pre]
    by (intro exI [of _ e']) (simp add: esp_jogo_run_append del: comandos.simps)
qed

lemma executar_refina:
  assumes "jogo_inv e" "entrada_ok (opcao e \<noteq> None) pre"
    "proxId (ger e) + int (length pre) \<le> INT_MAX" "opcao e \<noteq> Some 0"
  shows "\<exists>e'. executar (Suc (length pre)) (pre @ Lido 0 # rest) e =
             Retornou (saida_run (pre @ [Lido 0]) (abs_jogo e)) e' \<and>
           jogo_inv e' \<and> opcao e' = Some 0 \<and>
           abs_jogo e' = esp_jogo_run (comandos pre) (abs_jogo e)"
proof -
  from executar_prefixo [OF assms] obtain e1
    where e1: "jogo_inv e1" "abs_jogo e1 = esp_jogo_run (comandos pre) (abs_jogo e)"
      "\<And>j rest. executar (length pre + j) (pre @ rest) e =
          apos (saida_run pre (abs_jogo e)) (executar j rest e1)"
    by blast
  note inv = jogo_invD(1) [OF e1(1)]
  have "executar (Suc (length pre)) (pre @ Lido 0 # rest) e =
      Retornou (saida_run (pre @ [Lido 0]) (abs_jogo e)) (e1\<lparr>opcao := Some 0\<rparr>)"
    using e1(3) [of 1 "Lido 0 # rest"] executar_sair [OF inv, of 0 rest]
      saida_run_snoc_sair [OF entrada_ok_sem_zero [OF assms(2)], of "abs_jogo e"]
    by (simp add: e1(2) [symmetric] saida_iteracao_def msg_turno_def comando_de_def
        tela_menu_abs del: executar.simps)
  then show ?thesis
    using e1(1,2)
    by (intro exI [of _ "e1\<lparr>opcao := Some 0\<rparr>"])
      (simp add: jogo_inv_def estado_inv_def abs_jogo_def)
qed

text \<open>
  The loop meets no undefined behaviour on any input whose numbers are in the
  range of \<^verbatim>\<open>int\<close>, once \<^verbatim>\<open>opcao\<close> holds a value or the next read gives one.
\<close>

lemma executar_definido:
  assumes "jogo_inv e" "opcao e \<noteq> None \<or> (\<exists>n. fst (ler ls) = Lido n)"
    "\<forall>n. Lido n \<in> set ls \<longrightarrow> INT_MIN \<le> n \<and> n \<le> INT_MAX"
    "proxId (ger e) + int k \<le> INT_MAX"
  shows "executar k ls e \<noteq> Indefinido"
  using assms
proof (induction k arbitrary: ls e)
  case 0
  show ?case by simp
next
  case (Suc k)
  let ?l = "fst (ler ls)"
  have lim: "proxId (ger e) < INT_MAX" using Suc.prems(4) by simp
  have "\<exists>out e1. iteracao ?l e = Some (out, e1)"
  proof (cases ?l)
    case (Lido n)
    then have "Lido n \<in> set ls" by (cases ls) auto
    with Suc.prems(3) have "INT_MIN \<le> n" "n \<le> INT_MAX" by auto
    from iteracao_definida [OF Suc.prems(1) this] lim show ?thesis by (simp add: Lido)
  qed (use iteracao_invalida [OF jogo_invD(1) [OF Suc.prems(1)], of ?l] in auto)
  then obtain out e1 where it: "iteracao ?l e = Some (out, e1)" by blast
  from iteracao_jogo_inv [OF Suc.prems(1) it] iteracao_opcao [OF it] Suc.prems(2)
  have e1: "jogo_inv e1" "proxId (ger e1) \<le> proxId (ger e) + 1" "opcao e1 \<noteq> None"
    by (auto split: leitura.splits)
  have "set (snd (ler ls)) \<subseteq> set ls" by (cases ls) auto
  with Suc.prems(3) have "\<forall>n. Lido n \<in> set (snd (ler ls)) \<longrightarrow> INT_MIN \<le> n \<and> n \<le> INT_MAX"
    by auto
  from Suc.IH [OF e1(1) _ this] e1(2,3) Suc.prems(4)
  have "executar k (snd (ler ls)) e1 \<noteq> Indefinido" by simp
  then show ?case
    using it e1(3) by (auto simp: continua_def apos_neq_Indefinido split: bool.splits)
qed

section \<open>The whole program and its reachable states\<close>

lemma estado_inicial_ok:
  assumes "length (itens_f f0) = 5" "length (itens_p p0) = 3"
  shows "\<exists>e. estado_inicial f0 p0 s = Some e \<and> jogo_inv e \<and> opcao e = None \<and>
           abs_jogo e = esp_inicial s \<and> proxId (ger e) = 6"
proof -
  let ?f = "inicializarFila f0" and ?g = "gerador_inicial s"
  from assms(1) have inv: "fila_inv ?f" and vazia: "fila_lista ?f = []"
    by (simp_all add: fila_inv_inicializar)
  have n: "faltam ?f = 5" by (simp add: faltam_def inicializarFila_def)
  have "proxId ?g + int (faltam ?f) \<le> INT_MAX" by (simp add: n)
  from reabastecerFila_completa [OF inv gerador_inv_inicial this]
  obtain f where f: "reabastecerFila ?f ?g = Some (f, avanca_n 5 ?g)" "fila_inv f"
      "fila_lista f = pecas_de ?g 5"
    by (auto simp: n vazia)
  let ?e = "\<lparr>fila = f, pilha = inicializarPilha p0, ger = avanca_n 5 ?g, opcao = None\<rparr>"
  have a: "abs_jogo ?e = esp_inicial s"
    using assms(2) by (simp add: abs_jogo_def esp_inicial_def esp_refill_def f(3)
        pilha_inv_inicializar)
  have "estado_inv ?e"
    using f(2) assms(2) by (simp add: estado_inv_def pilha_inv_inicializar gerador_inv_def)
  then have "jogo_inv ?e" by (simp add: jogo_inv_def a esp_inv_inicial)
  then show ?thesis using a by (simp add: estado_inicial_def f(1))
qed

lemma alcancavel_inv: "alcancavel e \<Longrightarrow> jogo_inv e \<and> opcao e \<noteq> Some 0"
proof (induction rule: alcancavel.induct)
  case (alc_inicio f0 p0 s e)
  then show ?case using estado_inicial_ok [of f0 p0 s] by auto
next
  case (alc_passo e l out e')
  then show ?case using iteracao_jogo_inv [of e l out e'] by (auto simp: continua_def)
qed

text \<open>
  Only the initial state has \<^verbatim>\<open>opcao\<close> unassigned: every later iteration starts
  after the loop condition has read a value.
\<close>

lemma alcancavel_sem_opcao:
  assumes "alcancavel e" "opcao e = None"
  shows "\<exists>f0 p0 s. length (itens_f f0) = 5 \<and> length (itens_p p0) = 3 \<and>
           estado_inicial f0 p0 s = Some e"
  using assms by (cases rule: alcancavelE) (auto simp: continua_def)

lemma alcancavel_abs:
  "alcancavel e \<Longrightarrow> \<exists>s cs. abs_jogo e = esp_jogo_run cs (esp_inicial s)"
proof (induction rule: alcancavel.induct)
  case (alc_inicio f0 p0 s e)
  then have "abs_jogo e = esp_jogo_run [] (esp_inicial s)"
    using estado_inicial_ok [of f0 p0 s] by auto
  then show ?case by blast
next
  case (alc_passo e l out e')
  then obtain s cs where a: "abs_jogo e = esp_jogo_run cs (esp_inicial s)" by blast
  note inv = alcancavel_inv [OF alc_passo.hyps(1)]
  have "abs_jogo e' = esp_jogo_run (comandos [l]) (abs_jogo e)"
    using iteracao_jogo_inv [OF inv [THEN conjunct1] alc_passo.hyps(2)]
    by (cases l) (simp_all add: comandos_um del: comandos.simps(2))
  then have "abs_jogo e' = esp_jogo_run (cs @ comandos [l]) (esp_inicial s)"
    by (simp add: a esp_jogo_run_append)
  then show ?case by blast
qed

lemma programa_refina:
  assumes "length (itens_f f0) = 5" "length (itens_p p0) = 3" "entrada_ok False pre"
    "6 + int (length pre) \<le> INT_MAX"
  shows "\<exists>e'. programa (Suc (length pre)) f0 p0 s (pre @ Lido 0 # rest) =
             Retornou (saida_run (pre @ [Lido 0]) (esp_inicial s)) e' \<and>
           jogo_inv e' \<and> abs_jogo e' = esp_jogo_run (comandos pre) (esp_inicial s)"
proof -
  from estado_inicial_ok [OF assms(1,2), of s]
  obtain e where e: "estado_inicial f0 p0 s = Some e" "jogo_inv e" "opcao e = None"
      "abs_jogo e = esp_inicial s" "proxId (ger e) = 6"
    by blast
  have "entrada_ok (opcao e \<noteq> None) pre" "proxId (ger e) + int (length pre) \<le> INT_MAX"
      "opcao e \<noteq> Some 0"
    using assms(3,4) e by simp_all
  from executar_refina [OF e(2) this, of rest] show ?thesis
    by (auto simp: programa_def e(1,4))
qed

lemma estado_inicial_ex: "estado_inicial fila_ex pilha_ex (\<lambda>n. n) = Some estado_inicial_ex"
  by (simp add: estado_inicial_def estado_inicial_ex_def reabastecerFila.simps op_defs c_defs
      fila_ex_def peca_ex_def TIPOS_def in_bounds_def arr_write_def)

lemma programa_indefinido:
  assumes "length (itens_f f0) = 5" "length (itens_p p0) = 3"
    "fst (ler ls) = Lixo \<or> fst (ler ls) = FimDeEntrada"
  shows "programa (Suc k) f0 p0 s ls = Indefinido"
proof -
  from estado_inicial_ok [OF assms(1,2), of s]
  obtain e where e: "estado_inicial f0 p0 s = Some e" "jogo_inv e" "opcao e = None" by blast
  from executar_opcao_indeterminada [OF jogo_invD(1) [OF e(2)] e(3) assms(3)] e(1)
  show ?thesis by (simp add: programa_def del: executar.simps)
qed

lemma programa_parcial:
  assumes "length (itens_f f0) = 5" "length (itens_p p0) = 3" "entrada_ok False pre"
    "6 + int (length pre) \<le> INT_MAX"
  shows "\<exists>e'. programa (length pre) f0 p0 s (pre @ rest) =
             Esgotado (saida_run pre (esp_inicial s)) e' \<and>
           jogo_inv e' \<and> abs_jogo e' = esp_jogo_run (comandos pre) (esp_inicial s)"
proof -
  from estado_inicial_ok [OF assms(1,2), of s]
  obtain e where e: "estado_inicial f0 p0 s = Some e" "jogo_inv e" "opcao e = None"
      "abs_jogo e = esp_inicial s" "proxId (ger e) = 6"
    by blast
  have "entrada_ok (opcao e \<noteq> None) pre" "proxId (ger e) + int (length pre) \<le> INT_MAX"
      "opcao e \<noteq> Some 0"
    using assms(3,4) e by simp_all
  from executar_prefixo [OF e(2) this] obtain e'
    where r: "jogo_inv e'" "abs_jogo e' = esp_jogo_run (comandos pre) (esp_inicial s)"
      "\<And>j rest. executar (length pre + j) (pre @ rest) e =
          apos (saida_run pre (esp_inicial s)) (executar j rest e')"
    unfolding e(4) by blast
  from r(1,2) r(3) [of 0 rest] show ?thesis by (auto simp: programa_def e(1))
qed

lemma programa_definido:
  assumes "length (itens_f f0) = 5" "length (itens_p p0) = 3" "fst (ler ls) = Lido n0"
    "\<forall>n. Lido n \<in> set ls \<longrightarrow> INT_MIN \<le> n \<and> n \<le> INT_MAX" "6 + int k \<le> INT_MAX"
  shows "programa k f0 p0 s ls \<noteq> Indefinido"
proof -
  from estado_inicial_ok [OF assms(1,2), of s]
  obtain e where e: "estado_inicial f0 p0 s = Some e" "jogo_inv e" "proxId (ger e) = 6"
    by blast
  from executar_definido [OF e(2) _ assms(4), of k] assms(3,5) e(3)
  show ?thesis by (simp add: programa_def e(1))
qed

lemma alcancavel_inicial_ex: "alcancavel estado_inicial_ex"
  using alc_inicio [OF _ _ estado_inicial_ex] by (simp add: fila_ex_campos pilha_ex_campos)


section \<open>Properties of the program\<close>

text \<open>
  Claim C1. The program refines the game of the specification and returns: for
  every content of the two uninitialised arrays and every seed, on an input that
  starts with a number, holds no 0 and no number outside \<^verbatim>\<open>int\<close>, has at most
  \<^verbatim>\<open>INT_MAX - 6\<close> entries (so that the identifiers cannot run out) and is followed
  by a 0, \<^verbatim>\<open>main\<close> is free of undefined behaviour, returns after one iteration per
  input, has printed exactly what the inputs and the abstract game determine
  (\<open>saida_run\<close>: menus, messages and screens), and leaves the queue, the stack
  and the generator that the abstract game reaches from its initial state by the
  commands the input selects; lines that are not numbers and numbers that select
  nothing change nothing.
\<close>

theorem programa_refinamento:
  assumes "length (itens_f f0) = 5" "length (itens_p p0) = 3" "entrada_ok False pre"
    "6 + int (length pre) \<le> INT_MAX"
  shows "\<exists>e'. programa (Suc (length pre)) f0 p0 s (pre @ Lido 0 # rest) =
             Retornou (saida_run (pre @ [Lido 0]) (esp_inicial s)) e' \<and>
           jogo_inv e' \<and> abs_jogo e' = esp_jogo_run (comandos pre) (esp_inicial s)"
  using assms by (rule programa_refina)

theorem programa_refinamento_witness:
  "length (itens_f fila_ex) = 5 \<and> length (itens_p pilha_ex) = 3 \<and>
   entrada_ok False [Lido 1, Lixo, Lido 4] \<and>
   (\<exists>e'. programa 4 fila_ex pilha_ex (\<lambda>n. n) [Lido 1, Lixo, Lido 4, Lido 0, Lido 3] =
        Retornou (saida_run [Lido 1, Lixo, Lido 4, Lido 0] (esp_inicial (\<lambda>n. n))) e' \<and>
      jogo_inv e' \<and> abs_jogo e' = esp_jogo_run [Play, SwapFrontTop] (esp_inicial (\<lambda>n. n)))"
  using programa_refinamento [of fila_ex pilha_ex "[Lido 1, Lixo, Lido 4]" "\<lambda>n. n" "[Lido 3]"]
  by (simp add: fila_ex_campos pilha_ex_campos comando_de_def eval_nat_numeral)

text \<open>
  Claim C16. The loop has one exit: from a state whose \<^verbatim>\<open>opcao\<close> is not 0, on an
  input that holds no 0, the program has not returned after any number of
  iterations, whatever else the input holds and also once the input has ended.
\<close>

theorem laco_sem_saida:
  assumes "opcao e \<noteq> Some 0" "Lido 0 \<notin> set ls"
  shows "executar k ls e \<noteq> Retornou out e'"
  using assms by (rule nao_retorna)

theorem laco_sem_saida_witness:
  "opcao estado_ex \<noteq> Some 0 \<and> Lido 0 \<notin> set [Lido 3, Lixo] \<and>
   (\<forall>k out e'. executar k [Lido 3, Lixo] estado_ex \<noteq> Retornou out e')"
  using laco_sem_saida [of estado_ex "[Lido 3, Lixo]"] by simp

text \<open>
  Claim C17. At the end of the input the loop runs forever: once \<^verbatim>\<open>opcao\<close> holds a
  number other than 0 and the input is exhausted, after \<open>k\<close> iterations, for every
  \<open>k\<close>, the program is still running in the same state and has printed the menu
  and \<^verbatim>\<open>Entrada invalida.\<close> \<open>k\<close> times.
\<close>

theorem fim_de_entrada_repete:
  assumes "estado_inv e" "opcao e = Some v" "v \<noteq> 0"
  shows "executar k [] e =
           Esgotado (concat (replicate k (tela_menu e @ ''Entrada invalida.\<newline>''))) e"
  using assms by (rule executar_fim_de_entrada)

theorem fim_de_entrada_repete_witness:
  "estado_inv estado_ex \<and> opcao estado_ex = Some 1 \<and>
   executar 2 [] estado_ex =
     Esgotado (tela_menu estado_ex @ ''Entrada invalida.\<newline>'' @
               tela_menu estado_ex @ ''Entrada invalida.\<newline>'') estado_ex"
  using fim_de_entrada_repete [of estado_ex 1 2]
  by (simp add: estado_ex_facts numeral_2_eq_2 del: executar.simps)

text \<open>
  Claim C9. \<^verbatim>\<open>opcao\<close> is read before it is written: when the first call of
  \<^verbatim>\<open>scanf\<close> fails (a line that is not a number, or an empty input), \<^verbatim>\<open>continue\<close>
  jumps to the loop condition \<^verbatim>\<open>opcao != 0\<close> while \<^verbatim>\<open>opcao\<close> has never been
  assigned. The model treats the read of a variable that was never assigned as
  undefined behaviour (the C standard makes its value indeterminate), so the
  outcome of the program is \<open>Indefinido\<close> from the first iteration.
\<close>

theorem opcao_indeterminada:
  assumes "length (itens_f f0) = 5" "length (itens_p p0) = 3"
    "fst (ler ls) = Lixo \<or> fst (ler ls) = FimDeEntrada"
  shows "programa (Suc k) f0 p0 s ls = Indefinido"
  using assms by (rule programa_indefinido)

theorem opcao_indeterminada_witness:
  "length (itens_f fila_ex) = 5 \<and> length (itens_p pilha_ex) = 3 \<and>
   programa 1 fila_ex pilha_ex (\<lambda>n. n) [] = Indefinido \<and>
   programa 3 fila_ex pilha_ex (\<lambda>n. n) [Lixo, Lido 1, Lido 0] = Indefinido"
  using opcao_indeterminada [of fila_ex pilha_ex "[]" 0 "\<lambda>n. n"]
    opcao_indeterminada [of fila_ex pilha_ex "[Lixo, Lido 1, Lido 0]" 2 "\<lambda>n. n"]
  by (simp add: fila_ex_campos pilha_ex_campos numeral_3_eq_3 del: executar.simps)

text \<open>
  Claim C6. The capacity invariant in every reachable state: every state in which
  an iteration of the loop starts satisfies the invariant of the game, has
  \<^verbatim>\<open>total = 5\<close> and \<^verbatim>\<open>topo\<close> between -1 and 2, has \<^verbatim>\<open>opcao\<close> different from 0, and
  holds the contents that some sequence of commands of the abstract game produces
  from its initial state. The proof is by induction on the reachability relation.
\<close>

theorem alcancaveis_invariante:
  assumes "alcancavel e"
  shows "jogo_inv e \<and> opcao e \<noteq> Some 0 \<and> total_f (fila e) = MAX_FILA \<and>
         - 1 \<le> topo (pilha e) \<and> topo (pilha e) < MAX_PILHA \<and>
         (\<exists>s cs. abs_jogo e = esp_jogo_run cs (esp_inicial s))"
proof -
  note inv = alcancavel_inv [OF assms]
  from jogo_invD [OF inv [THEN conjunct1]] have "filaCheia (fila e)" "pilha_inv (pilha e)"
    by (simp_all add: estado_invD)
  then show ?thesis
    using inv alcancavel_abs [OF assms] by (auto simp: filaCheia_def dest: pilha_inv_nat)
qed

theorem alcancaveis_invariante_witness:
  "alcancavel estado_inicial_ex \<and> jogo_inv estado_inicial_ex \<and>
   opcao estado_inicial_ex \<noteq> Some 0 \<and> total_f (fila estado_inicial_ex) = 5 \<and>
   - 1 \<le> topo (pilha estado_inicial_ex) \<and> topo (pilha estado_inicial_ex) < 3 \<and>
   (\<exists>s cs. abs_jogo estado_inicial_ex = esp_jogo_run cs (esp_inicial s))"
  using alcancaveis_invariante [OF alcancavel_inicial_ex] alcancavel_inicial_ex by simp

text \<open>
  Claim C38. The initial state: whatever the uninitialised arrays hold and
  whatever the seed, the initialisation of \<^verbatim>\<open>main\<close> is defined and leaves the state
  of the specification's \<open>initialize\<close>: an empty stack, a full queue with the first
  five pieces of the generator, the counter at 6, and \<^verbatim>\<open>opcao\<close> without a value.
\<close>

theorem estado_inicial_valido:
  assumes "length (itens_f f0) = 5" "length (itens_p p0) = 3"
  shows "\<exists>e. estado_inicial f0 p0 s = Some e \<and> jogo_inv e \<and> opcao e = None \<and>
           abs_jogo e = esp_inicial s \<and> proxId (ger e) = 6"
  using assms by (rule estado_inicial_ok)

theorem estado_inicial_valido_witness:
  "length (itens_f fila_ex) = 5 \<and> length (itens_p pilha_ex) = 3 \<and>
   estado_inicial fila_ex pilha_ex (\<lambda>n. n) = Some estado_inicial_ex \<and>
   jogo_inv estado_inicial_ex \<and> abs_jogo estado_inicial_ex = esp_inicial (\<lambda>n. n) \<and>
   proxId (ger estado_inicial_ex) = 6"
  using estado_inicial_valido [of fila_ex pilha_ex "\<lambda>n. n"]
  by (simp add: fila_ex_campos pilha_ex_campos estado_inicial_ex)

text \<open>
  Claim C22. Runs that have not ended: on an input that starts with a number and
  holds no 0 and no number outside \<^verbatim>\<open>int\<close>, whatever follows it, after one iteration
  per input \<^verbatim>\<open>main\<close> has met no undefined behaviour, has not returned, has printed
  exactly the menus, messages and screens that the inputs and the abstract game
  determine, and holds the queue, the stack and the generator that the abstract
  game reaches by the commands selected so far. With the refinement of complete
  runs this gives the number of iterations exactly: one per input up to the first
  0, and no fewer.
\<close>

theorem execucao_parcial:
  assumes "length (itens_f f0) = 5" "length (itens_p p0) = 3" "entrada_ok False pre"
    "6 + int (length pre) \<le> INT_MAX"
  shows "\<exists>e'. programa (length pre) f0 p0 s (pre @ rest) =
             Esgotado (saida_run pre (esp_inicial s)) e' \<and>
           jogo_inv e' \<and> abs_jogo e' = esp_jogo_run (comandos pre) (esp_inicial s)"
  using assms by (rule programa_parcial)

theorem execucao_parcial_witness:
  "length (itens_f fila_ex) = 5 \<and> length (itens_p pilha_ex) = 3 \<and>
   entrada_ok False [Lido 2, Lixo, Lido 5] \<and>
   (\<exists>e'. programa 3 fila_ex pilha_ex (\<lambda>n. n) [Lido 2, Lixo, Lido 5, Lido 1] =
        Esgotado (saida_run [Lido 2, Lixo, Lido 5] (esp_inicial (\<lambda>n. n))) e' \<and>
      jogo_inv e' \<and>
      abs_jogo e' = esp_jogo_run [SendToReserve, SwapFirstThree] (esp_inicial (\<lambda>n. n)))"
  using execucao_parcial [of fila_ex pilha_ex "[Lido 2, Lixo, Lido 5]" "\<lambda>n. n" "[Lido 1]"]
  by (simp add: fila_ex_campos pilha_ex_campos comando_de_def eval_nat_numeral)

text \<open>
  Claim C20. No undefined behaviour, whatever is typed: when the first read gives a
  number and every number read is in the range of \<^verbatim>\<open>int\<close>, the program meets no
  undefined behaviour within \<open>k\<close> iterations, for every content of the two
  uninitialised arrays, every seed and every input (numbers that select nothing,
  lines that are not numbers, a 0 anywhere, the end of the input), as long as the
  identifiers cannot run out within \<open>k\<close> iterations: every array access of the
  queue, the stack and the exchanges is in bounds and no \<^verbatim>\<open>int\<close> overflows.
\<close>

theorem programa_sem_indefinido:
  assumes "length (itens_f f0) = 5" "length (itens_p p0) = 3" "fst (ler ls) = Lido n0"
    "\<forall>n. Lido n \<in> set ls \<longrightarrow> INT_MIN \<le> n \<and> n \<le> INT_MAX" "6 + int k \<le> INT_MAX"
  shows "programa k f0 p0 s ls \<noteq> Indefinido"
  using assms by (rule programa_definido)

theorem programa_sem_indefinido_witness:
  "length (itens_f fila_ex) = 5 \<and> length (itens_p pilha_ex) = 3 \<and>
   programa 9 fila_ex pilha_ex (\<lambda>n. n) [Lido 2, Lixo, Lido 7, Lido 0, Lido 1] \<noteq> Indefinido"
  using programa_sem_indefinido [where ?f0.0 = fila_ex and ?p0.0 = pilha_ex and k = 9
      and ls = "[Lido 2, Lixo, Lido 7, Lido 0, Lido 1]" and ?n0.0 = 2 and s = "\<lambda>n. n"]
  by (simp add: fila_ex_campos pilha_ex_campos del: executar.simps)

end
