(* ===== verification/Entrada.thy ===== *)
theory Entrada
  imports Execucao "HOL-Library.Sublist"
begin

text \<open>
  The standard input as characters. \<^verbatim>\<open>limparEntrada\<close> and \<^verbatim>\<open>pausaEnter\<close> of
  \<^verbatim>\<open>src/tetris.c\<close> are functions of the characters not yet read (the end of
  the input is the empty list), and \<^verbatim>\<open>scanf("%d")\<close> is modelled after the C
  standard: it skips white space, reads an optional sign and the longest run of
  decimal digits, and fails without a digit. The program on a text is proved
  equal to the program on the results of its reads, and to refine the game on
  every text of lines that ends with the line \<^verbatim>\<open>0\<close>.
\<close>

section \<open>Operations\<close>

definition isspace_c :: "char \<Rightarrow> bool" where
  "isspace_c c \<longleftrightarrow> c \<in> set [CHR '' '', CHR 0x09, CHR ''\<newline>'', CHR 0x0B, CHR 0x0C, CHR 0x0D]"

definition isdigit_c :: "char \<Rightarrow> bool" where
  "isdigit_c c \<longleftrightarrow> c \<in> set ''0123456789''"

definition val_digito :: "char \<Rightarrow> nat" where
  "val_digito c = of_char c - 48"

definition val_dec :: "string \<Rightarrow> nat" where
  "val_dec ds = foldl (\<lambda>a c. 10 * a + val_digito c) 0 ds"

definition scanf_d :: "string \<Rightarrow> leitura \<times> string" where
  "scanf_d s =
     (let s1 = dropWhile isspace_c s in
      if s1 = [] then (FimDeEntrada, [])
      else
        let sinal = (hd s1 = CHR ''-'' \<or> hd s1 = CHR ''+'');
            s2 = (if sinal then tl s1 else s1);
            ds = takeWhile isdigit_c s2
        in if ds = [] then (Lixo, s2)
           else (Lido ((if hd s1 = CHR ''-'' then - 1 else 1) * int (val_dec ds)),
                 dropWhile isdigit_c s2))"

fun limparEntrada :: "string \<Rightarrow> string" where
  "limparEntrada [] = []"
| "limparEntrada (ch # s) = (if ch = CHR ''\<newline>'' then s else limparEntrada s)"

definition pausaEnter :: "string \<Rightarrow> string \<times> string" where
  "pausaEnter s = (''\<newline>Pressione ENTER para continuar...'', drop 1 (limparEntrada s))"

definition ler_txt :: "string \<Rightarrow> leitura \<times> string" where
  "ler_txt s = (case scanf_d s of (l, s1) \<Rightarrow> (l, limparEntrada s1))"

text \<open>
  The results of the successive reads of a text: one read per iteration of the
  loop, until the characters are exhausted.
\<close>

lemma suffix_limparEntrada: "suffix (limparEntrada s) s"
  by (induction s) (auto intro: suffix_ConsI)

lemma suffix_scanf_d: "suffix (snd (scanf_d s)) s"
proof -
  let ?s1 = "dropWhile isspace_c s"
  have a: "suffix ?s1 s" by (rule suffix_dropWhile)
  have b: "suffix (tl ?s1) s" using suffix_tl a by (rule suffix_order.trans)
  have "suffix (dropWhile isdigit_c x) s" if "suffix x s" for x
    using suffix_dropWhile that by (rule suffix_order.trans)
  from this [OF a] this [OF b] a b show ?thesis
    by (simp add: scanf_d_def Let_def)
qed

lemma suffix_ler_txt: "suffix (snd (ler_txt s)) s"
proof -
  have "suffix (limparEntrada (snd (scanf_d s))) (snd (scanf_d s))"
    by (rule suffix_limparEntrada)
  from this suffix_scanf_d have "suffix (limparEntrada (snd (scanf_d s))) s"
    by (rule suffix_order.trans)
  then show ?thesis by (simp add: ler_txt_def split_beta)
qed

lemma limparEntrada_menor: "s \<noteq> [] \<Longrightarrow> length (limparEntrada s) < length s"
  using suffix_length_le [OF suffix_limparEntrada, of "tl s"]
  by (cases s) (auto simp: less_Suc_eq_le)

lemma ler_txt_menor:
  assumes "s \<noteq> []"
  shows "length (snd (ler_txt s)) < length s"
proof (cases "snd (scanf_d s) = []")
  case True
  with assms show ?thesis by (simp add: ler_txt_def split_beta)
next
  case False
  from limparEntrada_menor [OF this] suffix_length_le [OF suffix_scanf_d [of s]]
  show ?thesis by (simp add: ler_txt_def split_beta)
qed

function leituras :: "string \<Rightarrow> leitura list" where
  "leituras s = (if s = [] then [] else fst (ler_txt s) # leituras (snd (ler_txt s)))"
  by pat_completeness auto
termination
  by (relation "measure length") (simp_all add: ler_txt_menor)

declare leituras.simps [simp del]

fun executar_txt :: "nat \<Rightarrow> string \<Rightarrow> Estado \<Rightarrow> desfecho" where
  "executar_txt 0 s e = Esgotado [] e"
| "executar_txt (Suc k) s e =
     (case iteracao (fst (ler_txt s)) e of
        None \<Rightarrow> Indefinido
      | Some (out, e1) \<Rightarrow>
          (case continua e1 of
             None \<Rightarrow> Indefinido
           | Some True \<Rightarrow> apos out (executar_txt k (snd (ler_txt s)) e1)
           | Some False \<Rightarrow> Retornou out e1))"

definition programa_txt :: "nat \<Rightarrow> Fila \<Rightarrow> Pilha \<Rightarrow> (nat \<Rightarrow> nat) \<Rightarrow> string \<Rightarrow> desfecho" where
  "programa_txt k f0 p0 s txt =
     (case estado_inicial f0 p0 s of None \<Rightarrow> Indefinido | Some e \<Rightarrow> executar_txt k txt e)"

text \<open>
  A line of a text is a number printed with \<^verbatim>\<open>%d\<close>, or characters that \<^verbatim>\<open>scanf("%d")\<close>
  rejects: a first character that is not white space, and no digit where the
  number would start (after an optional sign). \<open>texto_de\<close> is the text of a list
  of lines, each ended by a newline.
\<close>

datatype linha = Numero int | Texto string

fun texto_linha :: "linha \<Rightarrow> string" where
  "texto_linha (Numero n) = fmt_d n @ ''\<newline>''"
| "texto_linha (Texto j) = j @ ''\<newline>''"

fun leitura_linha :: "linha \<Rightarrow> leitura" where
  "leitura_linha (Numero n) = Lido n"
| "leitura_linha (Texto j) = Lixo"

fun linha_ok :: "linha \<Rightarrow> bool" where
  "linha_ok (Numero n) = True"
| "linha_ok (Texto j) =
     (j \<noteq> [] \<and> CHR ''\<newline>'' \<notin> set j \<and> \<not> isspace_c (hd j) \<and>
      takeWhile isdigit_c (if hd j = CHR ''-'' \<or> hd j = CHR ''+'' then tl j else j) = [])"

definition texto_de :: "linha list \<Rightarrow> string" where
  "texto_de ls = concat (map texto_linha ls)"

lemma ler_txt_Nil [simp]: "ler_txt [] = (FimDeEntrada, [])"
  by (simp add: ler_txt_def scanf_d_def)

lemma ler_leituras: "ler (leituras s) = (fst (ler_txt s), leituras (snd (ler_txt s)))"
  by (cases "s = []") (simp_all add: leituras.simps [of s] leituras.simps [of "[]"])

lemma executar_txt_leituras: "executar_txt k s e = executar k (leituras s) e"
  by (induction k arbitrary: s e) (simp_all add: ler_leituras split: option.splits bool.splits)

lemma programa_txt_leituras: "programa_txt k f0 p0 s txt = programa k f0 p0 s (leituras txt)"
  by (simp add: programa_txt_def programa_def executar_txt_leituras split: option.splits)

section \<open>Decimal numbers: printing and reading\<close>

lemma digito_facts:
  assumes "d < 10"
  shows "isdigit_c (digito d)" "val_digito (digito d) = d" "\<not> isspace_c (digito d)"
    "digito d \<noteq> CHR ''-''" "digito d \<noteq> CHR ''+''"
proof -
  from assms have "d \<in> {0, 1, 2, 3, 4, 5, 6, 7, 8, 9}" by auto
  then show "isdigit_c (digito d)" "val_digito (digito d) = d" "\<not> isspace_c (digito d)"
    "digito d \<noteq> CHR ''-''" "digito d \<noteq> CHR ''+''"
    by (auto simp: isdigit_c_def val_digito_def isspace_c_def digito_def)
qed

lemma dec_nat_digitos: "c \<in> set (dec_nat n) \<Longrightarrow> isdigit_c c"
  by (induction n rule: dec_nat.induct) (subst (asm) dec_nat.simps, auto simp: digito_facts split: if_splits)

lemma val_dec_snoc: "val_dec (ds @ [c]) = 10 * val_dec ds + val_digito c"
  by (simp add: val_dec_def)

lemma val_dec_dec_nat: "val_dec (dec_nat n) = n"
proof (induction n rule: dec_nat.induct)
  case (1 n)
  show ?case
  proof (cases "n < 10")
    case True
    then show ?thesis by (simp add: dec_nat_digito val_dec_def digito_facts)
  next
    case False
    then show ?thesis using 1 by (simp add: dec_nat_rec val_dec_snoc digito_facts)
  qed
qed

lemma dec_nat_hd: "dec_nat n \<noteq> [] \<and> isdigit_c (hd (dec_nat n))"
  by (induction n rule: dec_nat.induct) (subst dec_nat.simps, subst dec_nat.simps, auto simp: digito_facts)

lemma digitos_prefixo:
  assumes "\<And>c. c \<in> set ds \<Longrightarrow> isdigit_c c" "r = [] \<or> \<not> isdigit_c (hd r)"
  shows "takeWhile isdigit_c (ds @ r) = ds" "dropWhile isdigit_c (ds @ r) = r"
  using assms by (cases r; simp add: takeWhile_append2 dropWhile_append2)+

lemma scanf_d_dec_nat:
  assumes "r = [] \<or> \<not> isdigit_c (hd r)"
  shows "scanf_d (dec_nat m @ r) = (Lido (int m), r)"
    and "scanf_d (CHR ''-'' # dec_nat m @ r) = (Lido (- int m), r)"
proof -
  obtain d ds where d: "dec_nat m = d # ds" "isdigit_c d"
    using dec_nat_hd [of m] by (cases "dec_nat m") auto
  then have nd: "\<not> isspace_c d" "d \<noteq> CHR ''-''" "d \<noteq> CHR ''+''"
    by (auto simp: isdigit_c_def isspace_c_def)
  have p: "takeWhile isdigit_c (ds @ r) = ds" "dropWhile isdigit_c (ds @ r) = r"
    using digitos_prefixo [of ds r] dec_nat_digitos [of _ m] assms by (auto simp: d)
  show "scanf_d (dec_nat m @ r) = (Lido (int m), r)"
    using p nd val_dec_dec_nat [of m] by (simp add: scanf_d_def d Let_def)
  show "scanf_d (CHR ''-'' # dec_nat m @ r) = (Lido (- int m), r)"
    using p nd val_dec_dec_nat [of m] by (simp add: scanf_d_def d Let_def isspace_c_def)
qed

lemma scanf_d_fmt_d:
  "r = [] \<or> \<not> isdigit_c (hd r) \<Longrightarrow> scanf_d (fmt_d n @ r) = (Lido n, r)"
  using scanf_d_dec_nat [of r "nat n"] scanf_d_dec_nat [of r "nat (- n)"]
  by (simp add: fmt_d_def)

lemma ler_txt_fmt_d: "ler_txt (fmt_d n @ CHR ''\<newline>'' # r) = (Lido n, r)"
  using scanf_d_fmt_d [of "CHR ''\<newline>'' # r" n] by (simp add: ler_txt_def isdigit_c_def)

lemma fmt_d_nao_vazio: "fmt_d n \<noteq> []"
  using dec_nat_hd by (simp add: fmt_d_def)

lemma leituras_linhas:
  "leituras (concat (map (\<lambda>n. fmt_d n @ ''\<newline>'') ns)) = map Lido ns"
proof (induction ns)
  case Nil
  show ?case by (simp add: leituras.simps)
next
  case (Cons n ns)
  let ?r = "concat (map (\<lambda>n. fmt_d n @ ''\<newline>'') ns)"
  have "leituras (fmt_d n @ CHR ''\<newline>'' # ?r) = Lido n # leituras ?r"
    by (subst leituras.simps) (simp add: ler_txt_fmt_d fmt_d_nao_vazio)
  then show ?case using Cons by simp
qed

section \<open>Discarding the rest of a line\<close>

lemma limparEntrada_eq: "limparEntrada s = drop 1 (dropWhile (\<lambda>c. c \<noteq> CHR ''\<newline>'') s)"
  by (induction s) simp_all

lemma limparEntrada_ate_linha:
  "CHR ''\<newline>'' \<notin> set l \<Longrightarrow> limparEntrada (l @ CHR ''\<newline>'' # r) = r"
  by (induction l) auto

lemma scanf_d_espaco: "isspace_c c \<Longrightarrow> scanf_d (c # s) = scanf_d s"
  by (simp add: scanf_d_def)

section \<open>Texts of lines\<close>

lemma takeWhile_digitos_linha:
  "takeWhile isdigit_c j = [] \<Longrightarrow> takeWhile isdigit_c (j @ CHR ''\<newline>'' # r) = []"
  by (cases j) (auto simp: isdigit_c_def split: if_splits)

lemma scanf_d_texto:
  assumes "linha_ok (Texto j)"
  shows "\<exists>j'. scanf_d (j @ CHR ''\<newline>'' # r) = (Lixo, j' @ CHR ''\<newline>'' # r) \<and>
           CHR ''\<newline>'' \<notin> set j'"
proof -
  obtain c cs where j: "j = c # cs" using assms by (cases j) auto
  show ?thesis
  proof (cases "c = CHR ''-'' \<or> c = CHR ''+''")
    case True
    with assms have "takeWhile isdigit_c (cs @ CHR ''\<newline>'' # r) = []"
      by (intro takeWhile_digitos_linha) (auto simp: j)
    with True assms show ?thesis
      by (intro exI [of _ cs]) (auto simp: scanf_d_def j Let_def)
  next
    case False
    with assms have "takeWhile isdigit_c ((c # cs) @ CHR ''\<newline>'' # r) = []"
      by (intro takeWhile_digitos_linha) (auto simp: j)
    with False assms show ?thesis
      by (intro exI [of _ j]) (auto simp: scanf_d_def j Let_def split: if_splits)
  qed
qed

lemma ler_txt_linha:
  assumes "linha_ok l"
  shows "ler_txt (texto_linha l @ r) = (leitura_linha l, r)"
proof (cases l)
  case (Numero n)
  then show ?thesis using ler_txt_fmt_d [of n r] by simp
next
  case (Texto j)
  with assms scanf_d_texto [of j r] show ?thesis
    by (auto simp: ler_txt_def limparEntrada_ate_linha)
qed

lemma texto_linha_nao_vazio: "texto_linha l \<noteq> []"
  by (cases l) simp_all

lemma leituras_texto:
  "list_all linha_ok ls \<Longrightarrow> leituras (texto_de ls @ r) = map leitura_linha ls @ leituras r"
proof (induction ls)
  case Nil
  show ?case by (simp add: texto_de_def)
next
  case (Cons l ls)
  have "leituras (texto_linha l @ texto_de ls @ r) = leitura_linha l # leituras (texto_de ls @ r)"
    using Cons.prems by (subst leituras.simps) (simp add: ler_txt_linha texto_linha_nao_vazio)
  then show ?case using Cons by (simp add: texto_de_def)
qed

lemma programa_txt_refina:
  assumes "length (itens_f f0) = 5" "length (itens_p p0) = 3" "list_all linha_ok ls"
    "entrada_ok False (map leitura_linha ls)" "6 + int (length ls) \<le> INT_MAX"
  shows "\<exists>e'. programa_txt (Suc (length ls)) f0 p0 s (texto_de (ls @ [Numero 0]) @ resto) =
             Retornou (saida_run (map leitura_linha ls @ [Lido 0]) (esp_inicial s)) e' \<and>
           jogo_inv e' \<and>
           abs_jogo e' = esp_jogo_run (comandos (map leitura_linha ls)) (esp_inicial s)"
proof -
  have "leituras (texto_de (ls @ [Numero 0]) @ resto) =
      map leitura_linha ls @ Lido 0 # leituras resto"
    using assms(3) leituras_texto [of "ls @ [Numero 0]" resto] by simp
  with programa_refina [OF assms(1,2,4), of s "leituras resto"] assms(5)
  show ?thesis by (simp add: programa_txt_leituras)
qed

section \<open>Properties of the input\<close>

text \<open>
  Claim C24. The program on characters is the program on the results of its
  reads: running \<^verbatim>\<open>main\<close> on a text, with \<^verbatim>\<open>scanf\<close> and \<^verbatim>\<open>limparEntrada\<close> consuming
  the characters iteration by iteration, gives the outcome of running it on the
  list of the results of the reads of that text, for every bound on the
  iterations; the list is finite because every read of a text that is not empty
  consumes at least one character.
\<close>

theorem entrada_equivalente:
  "programa_txt k f0 p0 s txt = programa k f0 p0 s (leituras txt) \<and>
   (txt \<noteq> [] \<longrightarrow> length (snd (ler_txt txt)) < length txt) \<and> suffix (snd (ler_txt txt)) txt"
  by (simp add: programa_txt_leituras ler_txt_menor suffix_ler_txt)

theorem entrada_equivalente_witness:
  "programa_txt 1 fila_ex pilha_ex (\<lambda>n. n) ''0\<newline>'' =
     programa 1 fila_ex pilha_ex (\<lambda>n. n) [Lido 0] \<and>
   length (snd (ler_txt ''7 8\<newline>9'')) < length ''7 8\<newline>9'' \<and>
   snd (ler_txt ''7 8\<newline>9'') = ''9''"
proof -
  have "leituras ''0\<newline>'' = [Lido 0]"
    using leituras_linhas [of "[0]"] by (simp add: fmt_d_def dec_nat_digito digito_def)
  moreover have "snd (ler_txt ''7 8\<newline>9'') = ''9''"
    by (simp add: ler_txt_def scanf_d_def isspace_c_def isdigit_c_def Let_def)
  ultimately show ?thesis
    using entrada_equivalente [of 1 fila_ex pilha_ex "\<lambda>n. n" "''0\<newline>''"]
      entrada_equivalente [of 1 fila_ex pilha_ex "\<lambda>n. n" "''7 8\<newline>9''"]
    by simp
qed

text \<open>
  Claim C25. Reading is the inverse of printing: a number printed with \<^verbatim>\<open>%d\<close>
  and followed by a newline is read back by \<^verbatim>\<open>scanf("%d")\<close> and \<^verbatim>\<open>limparEntrada\<close> as
  that number, with the rest of the text untouched; so a text of numbers, one per
  line, is read as the list of those numbers, and the program run on it is the
  program run on them.
\<close>

theorem leitura_roundtrip:
  "ler_txt (fmt_d n @ CHR ''\<newline>'' # r) = (Lido n, r) \<and>
   programa_txt k f0 p0 s (concat (map (\<lambda>n. fmt_d n @ ''\<newline>'') ns)) =
     programa k f0 p0 s (map Lido ns)"
  by (simp add: ler_txt_fmt_d programa_txt_leituras leituras_linhas)

text \<open>
  Claim C36. \<^verbatim>\<open>limparEntrada\<close> discards the rest of the current line: it returns
  the characters after the first newline, and nothing when there is no newline;
  it reads forward only. White space before a number, newlines included, is
  skipped by \<^verbatim>\<open>scanf\<close>, so an empty line is not an invalid input.
\<close>

theorem limparEntrada_linha:
  "limparEntrada s = drop 1 (dropWhile (\<lambda>c. c \<noteq> CHR ''\<newline>'') s) \<and>
   suffix (limparEntrada s) s \<and> ler_txt (CHR ''\<newline>'' # s) = ler_txt s"
proof -
  have "ler_txt (CHR ''\<newline>'' # s) = ler_txt s"
    by (simp add: ler_txt_def scanf_d_espaco isspace_c_def)
  with limparEntrada_eq [of s] suffix_limparEntrada [of s] show ?thesis by blast
qed

text \<open>
  Claim C39. \<^verbatim>\<open>pausaEnter\<close> prints its prompt, discards the rest of the current
  line and then one more character, whatever it is: the character after the
  newline is lost even when it is not a newline.
\<close>

theorem pausaEnter_consome:
  assumes "CHR ''\<newline>'' \<notin> set l"
  shows "pausaEnter (l @ CHR ''\<newline>'' # c # r) = (''\<newline>Pressione ENTER para continuar...'', r)"
  using assms by (simp add: pausaEnter_def limparEntrada_ate_linha)

theorem pausaEnter_consome_witness:
  "CHR ''\<newline>'' \<notin> set ''abc'' \<and>
   pausaEnter ''abc\<newline>2\<newline>'' = (''\<newline>Pressione ENTER para continuar...'', ''\<newline>'')"
  using pausaEnter_consome [of "''abc''" "CHR ''2''" "''\<newline>''"] by simp

text \<open>
  Claim C21. The program on the characters typed refines the game: for a text of
  lines, each a number printed in decimal or a line that \<^verbatim>\<open>scanf("%d")\<close> rejects,
  that starts with a number, holds no 0 and no number outside \<^verbatim>\<open>int\<close> and is
  followed by the line \<^verbatim>\<open>0\<close>, whatever comes after it, \<^verbatim>\<open>main\<close> reading the characters
  with \<^verbatim>\<open>scanf\<close> and \<^verbatim>\<open>limparEntrada\<close> is free of undefined behaviour, returns after
  one iteration per line, has printed the text that the lines and the abstract
  game determine, and leaves the state the abstract game reaches; a rejected
  line is discarded whole and costs one iteration.
\<close>

theorem programa_em_texto:
  assumes "length (itens_f f0) = 5" "length (itens_p p0) = 3" "list_all linha_ok ls"
    "entrada_ok False (map leitura_linha ls)" "6 + int (length ls) \<le> INT_MAX"
  shows "\<exists>e'. programa_txt (Suc (length ls)) f0 p0 s (texto_de (ls @ [Numero 0]) @ resto) =
             Retornou (saida_run (map leitura_linha ls @ [Lido 0]) (esp_inicial s)) e' \<and>
           jogo_inv e' \<and>
           abs_jogo e' = esp_jogo_run (comandos (map leitura_linha ls)) (esp_inicial s)"
  using assms by (rule programa_txt_refina)

theorem programa_em_texto_witness:
  "length (itens_f fila_ex) = 5 \<and> length (itens_p pilha_ex) = 3 \<and>
   list_all linha_ok [Numero 2, Texto ''+abc'', Numero (- 5)] \<and>
   entrada_ok False [Lido 2, Lixo, Lido (- 5)] \<and>
   (\<exists>e'. programa_txt 4 fila_ex pilha_ex (\<lambda>n. n) ''2\<newline>+abc\<newline>-5\<newline>0\<newline>1'' =
        Retornou (saida_run [Lido 2, Lixo, Lido (- 5), Lido 0] (esp_inicial (\<lambda>n. n))) e' \<and>
      jogo_inv e' \<and> abs_jogo e' = esp_jogo_run [SendToReserve] (esp_inicial (\<lambda>n. n)))"
  using programa_em_texto [of fila_ex pilha_ex "[Numero 2, Texto ''+abc'', Numero (- 5)]"
      "\<lambda>n. n" "''1''"]
  by (simp add: fila_ex_campos pilha_ex_campos comando_de_def eval_nat_numeral texto_de_def
      fmt_d_def dec_nat_digito digito_def isspace_c_def isdigit_c_def)

end
