(* ===== verification/Spec2Isabelle.thy ===== *)
theory Spec2Isabelle
  imports Entrada
begin

text \<open>
  \<^bold>\<open>Tetris Stack: a verified model of \<^verbatim>\<open>src/tetris.c\<close>.\<close>

  The program is a terminal simulator of the "next pieces" queue and the "hold"
  stack of a block game. It keeps a circular queue of five pieces that is
  refilled from a piece generator after every removal, a stack of at most three
  reserved pieces, and a menu loop that plays the front piece, sends it to the
  reserve, uses the reserve, or swaps pieces between the two containers.

  \<^bold>\<open>How the C program is modelled.\<close> Every C function is one HOL definition with
  the name of the function; a \<^verbatim>\<open>struct\<close> is a record; a pointer argument that the
  function updates is a record passed in and returned; a function that prints
  returns the text. Four things that C leaves implicit are explicit in the model:
  \<^item> undefined behaviour is the value \<open>None\<close> of the result type \<open>'a ub\<close>: an
    access of an array outside its bounds, an overflow of \<^verbatim>\<open>int\<close> and a read of
    a variable that was never assigned are branches of the definitions, and "the
    operation is defined" is a theorem;
  \<^item> \<^verbatim>\<open>int\<close> is a mathematical integer checked against the 32-bit range at
    every addition and subtraction, and \<^verbatim>\<open>%\<close> is C's truncating remainder;
  \<^item> the hidden state of \<^verbatim>\<open>gerarPeca\<close> (the static counter \<^verbatim>\<open>proxId\<close> and the
    state of \<^verbatim>\<open>rand\<close>) is the record \<open>Gerador\<close>, threaded through the calls;
  \<^item> the arrays declared in \<^verbatim>\<open>main\<close> start with arbitrary contents, and the
    variable \<^verbatim>\<open>opcao\<close> with no value.

  \<^bold>\<open>Theories\<close>, in the order of the call graph.
  \<^item> \<open>Tetris_Prelude\<close>: the C fragment (\<open>c_add\<close>, \<open>c_sub\<close>, \<open>c_mod\<close>, \<open>arr_read\<close>,
    \<open>arr_write\<close>), the fact collections \<open>c_defs\<close>, \<open>inv_defs\<close>, \<open>op_defs\<close>, and
    the lemmas on \<open>rotate\<close>, \<open>take\<close> and list update that relate a circular
    buffer to its contents.
  \<^item> \<open>Pecas\<close>: \<^verbatim>\<open>TIPOS\<close>, \<^verbatim>\<open>Peca\<close>, \<^verbatim>\<open>gerarPeca\<close> (lines 15-43). Every branch of
    \<open>gerarPeca\<close>; \<open>n\<close> calls return the identifiers \<open>1, ..., n\<close> and are undefined
    exactly when the counter would pass \<^verbatim>\<open>INT_MAX\<close>.
  \<^item> \<open>Especificacao\<close>: the specification as operations on lists: the bounded
    queue and stack (sections 4.2, 4.3), the five operations of a turn as the
    step function \<open>esp_passo\<close> over the datatype \<open>comando\<close> (section 4.4), the
    failures \<open>erro\<close> (section 7), runs of operations, and the invariant \<open>esp_inv\<close>
    of the game with its preservation. First-in first-out and last-in first-out
    order and the uniqueness of identifiers are proved once, at this level.
  \<^item> \<open>Fila_Circular\<close>: \<^verbatim>\<open>Fila\<close> and its functions (lines 24-29, 46-82). The
    invariant \<open>fila_inv\<close>, the contents \<open>fila_lista\<close>, refinement of the abstract
    queue by single operations and by runs, the refill loop (total, exact in what
    it appends, undefined exactly when the identifiers run out), memory safety.
  \<^item> \<open>Pilha_Linear\<close>: \<^verbatim>\<open>Pilha\<close> and its functions (lines 31-34, 85-107), with the
    same groups of lemmas for \<open>pilha_inv\<close> and \<open>pilha_lista\<close>.
  \<^item> \<open>Trocas\<close>: \<^verbatim>\<open>trocarFrenteComTopo\<close> and \<^verbatim>\<open>trocarTres\<close> (lines 137-173), with
    their messages. Atomicity, refinement of the two exchanges of the
    specification, the order of the failures, conservation of the pieces, and
    that a second call undoes the first, slot by slot.
  \<^item> \<open>Exibicao\<close>: \<^verbatim>\<open>mostrarFila\<close>, \<^verbatim>\<open>mostrarPilha\<close>, \<^verbatim>\<open>mostrarEstado\<close> (lines
    110-134) as functions returning the text printed. Their loops print exactly
    the contents, in the layout \<open>tela\<close>.
  \<^item> \<open>Jogo\<close>: the state of \<^verbatim>\<open>main\<close> (\<open>Estado\<close>), its initialisation, the five cases
    of the \<^verbatim>\<open>switch\<close>, the \<^verbatim>\<open>switch\<close> (\<open>escolher\<close>) and the loop body (\<open>iteracao\<close>)
    (lines 192-286). Every turn refines \<open>esp_passo\<close>, failures are atomic and
    reported, the invariant of the game \<open>jogo_inv\<close> is re-established, the refill
    converges, and a turn is undefined exactly when the identifiers run out.
  \<^item> \<open>Execucao\<close>: the loop \<^verbatim>\<open>do ... while (opcao != 0)\<close> (\<open>executar\<close>), the program
    (\<open>programa\<close>) and the reachable states (\<open>alcancavel\<close>, an inductive predicate).
    The program refines the abstract game, prints what the game determines
    (\<open>saida_run\<close>) and returns on an input that ends with 0; before the 0 it is
    still running, with the output and the state of the inputs read so far; it
    cannot return otherwise; at the end of the input it loops; a failed first
    read makes it read \<^verbatim>\<open>opcao\<close> unassigned, and that is its only undefined
    behaviour on inputs in the range of \<^verbatim>\<open>int\<close>; the invariant holds in every
    reachable state, by rule induction.
  \<^item> \<open>Entrada\<close>: the standard input as characters: \<^verbatim>\<open>limparEntrada\<close> and
    \<^verbatim>\<open>pausaEnter\<close> (lines 176-188), \<^verbatim>\<open>scanf("%d")\<close> after the C standard, the loop
    and the program on a text (\<open>executar_txt\<close>, \<open>programa_txt\<close>). The program on a
    text is the program on the results of its reads (\<open>leituras\<close>); reading is the
    inverse of printing with \<^verbatim>\<open>%d\<close>; on a text of lines (\<open>linha\<close>, \<open>texto_de\<close>:
    numbers, and lines that \<^verbatim>\<open>scanf\<close> rejects) that ends with the line \<^verbatim>\<open>0\<close> the
    program refines the game; what the two helpers consume.
  \<^item> \<open>Spec2Isabelle\<close> (this theory): the properties that span all components: the
    end-to-end scenario of section 8 of the specification run on the program, and
    the uniqueness of the identifiers in play in every reachable state.

  \<^bold>\<open>The interface between the layers\<close> is the abstraction to lists: \<open>fila_lista\<close>
  (front first), \<open>pilha_lista\<close> (base first) and \<open>abs_jogo\<close> (both, with the
  generator). The clients reason on lists only: \<open>Trocas\<close>, \<open>Jogo\<close> and \<open>Execucao\<close>
  use the refinement lemmas of the containers, never their arrays, except where
  the C code itself indexes the arrays (the two exchanges).

  \<^bold>\<open>Reference definitions.\<close> The theorems compare the definitions translated
  from the C code with definitions that are not translations of any line of it:
  the operations of \<open>Especificacao\<close>; the invariants (\<open>fila_inv\<close>, \<open>pilha_inv\<close>,
  \<open>estado_inv\<close>, \<open>jogo_inv\<close>); the abstraction functions; the text of a state,
  of a turn and of a run as functions of the abstract contents (\<open>tela\<close>,
  \<open>tela_abs\<close>, \<open>msg_falha\<close>, \<open>msg_sucesso\<close>, \<open>saida_iteracao\<close>, \<open>saida_run\<close>);
  the command a number selects (\<open>comando_de\<close>, \<open>comandos\<close>); and the predicates
  that state the hypotheses (\<open>entrada_ok\<close>, \<open>linha_ok\<close>, \<open>consome\<close>,
  \<open>ids_bastam\<close>). Each is written without reference to the definition it is
  compared with, so that an error in a translated definition makes a theorem
  fail instead of being repeated on both sides.

  \<^bold>\<open>Input.\<close> The loop is modelled at two levels. In \<open>Execucao\<close> the standard input
  is the list of the results of the successive calls of \<^verbatim>\<open>scanf("%d")\<close>, each
  followed by \<^verbatim>\<open>limparEntrada\<close>: \<open>Lido n\<close> for a line that starts with the number
  \<open>n\<close>, \<open>Lixo\<close> for a line that does not, and \<open>FimDeEntrada\<close>, which is also what
  every call returns once the list is exhausted. In \<open>Entrada\<close> it is the list of
  the characters not yet read, and the first level is derived from it. A number
  outside the range of \<^verbatim>\<open>int\<close> is undefined behaviour, as the C standard says of
  \<^verbatim>\<open>scanf\<close>.

  \<^bold>\<open>Bounds, fuel and termination.\<close> The \<^verbatim>\<open>for\<close> and \<^verbatim>\<open>while\<close> loops of the
  containers, of the display and of the input helpers (\<open>reabastecerFila\<close>, \<open>trocarTres_laco\<close>,
  \<open>mostrarFila_laco\<close>, \<open>mostrarPilha_laco\<close>, \<open>limparEntrada\<close>) are functions whose termination is
  proved for every state, valid or not; from a valid state \<open>reabastecerFila\<close>
  makes exactly \<open>5 - total\<close> iterations. Only the menu loop can run forever, so
  \<open>executar\<close> (and \<open>executar_txt\<close>) takes the number of iterations it may make and
  returns one of \<open>Indefinido\<close>, \<open>Esgotado\<close> (still running) and \<open>Retornou\<close>. The theorems give the
  number that is enough (one iteration per input up to the first 0), show that
  with fewer the program is still running and has printed the text of the inputs
  read so far, and show that without a 0 in the input no number is enough. The only bound on the length of a run is the range of
  \<^verbatim>\<open>int\<close>: a run that plays or sends more than \<open>INT_MAX - 6\<close> pieces overflows
  \<^verbatim>\<open>proxId\<close>.

  \<^bold>\<open>Not modelled.\<close> The wall-clock seed (\<^verbatim>\<open>time\<close>) and the algorithm inside
  \<^verbatim>\<open>rand\<close>: the theorems hold for every sequence of values it may return. The
  buffering of the output and the encoding of characters. \<^verbatim>\<open>pausaEnter\<close> is
  modelled but never called by the program (its only call is commented out).
\<close>

section \<open>The pieces of a run\<close>

text \<open>
  The piece that the call number \<open>k\<close> of \<^verbatim>\<open>gerarPeca\<close> returns in a run of the program
  (counting from 0) with the random sequence \<open>s\<close>: its identifier is \<open>k + 1\<close>.
\<close>

definition gerada :: "(nat \<Rightarrow> nat) \<Rightarrow> nat \<Rightarrow> Peca" where
  "gerada s k = \<lparr>tipo = TIPOS ! (s k mod 7), id_peca = int k + 1\<rparr>"


lemma pecas_de_inicial: "pecas_de (avanca_n m (gerador_inicial s)) n = map (gerada s) [m..<m + n]"
  by (rule nth_equalityI)
    (simp_all add: pecas_de_def gerada_def avanca_n_def gerador_inicial_def add.commute)

lemma pecas_de_inicial0: "pecas_de (gerador_inicial s) n = map (gerada s) [0..<n]"
  using pecas_de_inicial [of 0 s n] by simp

lemma esp_cenario:
  "esp_jogo_run [SendToReserve, SendToReserve, SendToReserve, SendToReserve] (esp_inicial s) =
     (map (gerada s) [3, 4, 5, 6, 7], map (gerada s) [0, 1, 2], avanca_n 8 (gerador_inicial s))"
  "esp_jogo_run [SendToReserve, SendToReserve, SendToReserve, SendToReserve, SwapFirstThree]
     (esp_inicial s) =
     (map (gerada s) [0, 1, 2, 6, 7], map (gerada s) [3, 4, 5], avanca_n 8 (gerador_inicial s))"
  by (simp_all add: esp_inicial_def esp_turno_def esp_refill_def esp_swapFirstThree_def
      pecas_de_inicial0 pecas_de_inicial upt_conv_Cons eval_nat_numeral)

section \<open>The scenario of the specification\<close>

lemma programa_abs:
  assumes "length (itens_f f0) = 5" "length (itens_p p0) = 3" "entrada_ok False pre"
    and "6 + int (length pre) \<le> INT_MAX" "k = Suc (length pre)" "ls = pre @ [Lido 0]"
    and "esp_jogo_run (comandos pre) (esp_inicial s) = (q, r, g)"
  shows "\<exists>out e'. programa k f0 p0 s ls = Retornou out e' \<and>
           fila_lista (fila e') = q \<and> pilha_lista (pilha e') = r \<and> ger e' = g"
  using programa_refina [OF assms(1-4), of s "[]"] assms(5-7) by (auto simp: abs_jogo_def)

text \<open>
  Claim C11. The end-to-end scenario of section 8 of the specification, on the
  program itself and for every seed: from the initial state, three sends leave
  the first three generated pieces in the stack and the pieces 4 to 8 in the
  queue; a fourth send finds the stack full and changes nothing; the exchange of
  three then leaves the pieces 1, 2, 3, 7, 8 in the queue and 4, 5, 6 in the stack,
  in this order; eight identifiers have been issued.
\<close>

theorem cenario_fim_a_fim:
  assumes "length (itens_f f0) = 5" "length (itens_p p0) = 3"
  shows "(\<exists>out e'. programa 5 f0 p0 s (map Lido [2, 2, 2, 2, 0]) = Retornou out e' \<and>
            fila_lista (fila e') = map (gerada s) [3, 4, 5, 6, 7] \<and>
            pilha_lista (pilha e') = map (gerada s) [0, 1, 2] \<and> proxId (ger e') = 9) \<and>
         (\<exists>out e'. programa 6 f0 p0 s (map Lido [2, 2, 2, 2, 5, 0]) = Retornou out e' \<and>
            fila_lista (fila e') = map (gerada s) [0, 1, 2, 6, 7] \<and>
            pilha_lista (pilha e') = map (gerada s) [3, 4, 5] \<and> proxId (ger e') = 9)"
proof -
  let ?a = "map Lido [2, 2, 2, 2]" and ?b = "map Lido [2, 2, 2, 2, 5]"
  have c: "comandos ?a = [SendToReserve, SendToReserve, SendToReserve, SendToReserve]"
    "comandos ?b = [SendToReserve, SendToReserve, SendToReserve, SendToReserve, SwapFirstThree]"
    by (simp_all add: comando_de_def)
  have "entrada_ok False ?a" "6 + int (length ?a) \<le> INT_MAX" "5 = Suc (length ?a)"
      "map Lido [2, 2, 2, 2, 0] = ?a @ [Lido 0]"
    by simp_all
  note a = programa_abs [OF assms this esp_cenario(1) [of s, folded c(1)]]
  have "entrada_ok False ?b" "6 + int (length ?b) \<le> INT_MAX" "6 = Suc (length ?b)"
      "map Lido [2, 2, 2, 2, 5, 0] = ?b @ [Lido 0]"
    by simp_all
  note b = programa_abs [OF assms this esp_cenario(2) [of s, folded c(2)]]
  from a b show ?thesis by auto
qed

theorem cenario_fim_a_fim_witness:
  "length (itens_f fila_ex) = 5 \<and> length (itens_p pilha_ex) = 3 \<and>
   (\<exists>out e'. programa 6 fila_ex pilha_ex (\<lambda>n. n) (map Lido [2, 2, 2, 2, 5, 0]) =
        Retornou out e' \<and>
      fila_lista (fila e') =
        [peca_ex CHR ''I'' 1, peca_ex CHR ''O'' 2, peca_ex CHR ''T'' 3, peca_ex CHR ''L'' 7,
         peca_ex CHR ''I'' 8] \<and>
      pilha_lista (pilha e') = [peca_ex CHR ''S'' 4, peca_ex CHR ''Z'' 5, peca_ex CHR ''J'' 6] \<and>
      proxId (ger e') = 9)"
  using cenario_fim_a_fim [of fila_ex pilha_ex "\<lambda>n. n"]
  by (simp add: fila_ex_campos pilha_ex_campos gerada_def peca_ex_def TIPOS_def)

section \<open>Identifiers in play\<close>

text \<open>
  Claim C37. No piece is duplicated: in every state the loop reaches, the pieces
  in the queue and in the stack have pairwise distinct identifiers, all of them
  at least 1 and below \<^verbatim>\<open>proxId\<close>, whatever plays, sends, uses and exchanges led
  there.
\<close>

theorem ids_unicos:
  assumes "alcancavel e"
  shows "ids_ok (fila_lista (fila e) @ pilha_lista (pilha e)) (ger e)"
  using jogo_invD(2) [OF alcancavel_inv [OF assms, THEN conjunct1]]
  by (simp add: esp_inv_def abs_jogo_def)

theorem ids_unicos_witness:
  "alcancavel estado_inicial_ex \<and>
   ids_ok (fila_lista (fila estado_inicial_ex) @ pilha_lista (pilha estado_inicial_ex))
     (ger estado_inicial_ex)"
  using ids_unicos [OF alcancavel_inicial_ex] alcancavel_inicial_ex by simp

end
